theory Spec2Isabelle
  imports Complex_Main "HOL-Library.Word"
begin

section \<open>The relay controller of main.cpp\<close>

text \<open>
  The sketch keeps all of its state in globals: the static members of \<open>Panic\<close> and
  \<open>LEDMan\<close>, the two \<open>TempController\<close> objects \<open>nico\<close> and \<open>trap\<close>, and
  \<open>GLastReadMs\<close>. The model threads one record \<open>world\<close> holding these globals through
  every function. Conventions of the embedding:

  \<^item> a private member \<open>x_\<close> of the source is the record field \<open>x\<close> (\<open>uid_\<close> and
    \<open>max_\<close> of \<open>TempController\<close> are \<open>ctrl_uid\<close> and \<open>max_temp\<close>, since
    \<open>uid\<close> is a field of \<open>PanicInfo\<close> and \<open>max\<close> a constant of HOL);
  \<^item> \<open>unsigned long\<close> and \<open>uint32_t\<close> are \<open>32 word\<close>, \<open>uint16_t\<close> is
    \<open>16 word\<close>, \<open>uint8_t\<close> is \<open>8 word\<close>; the two counters
    \<open>callback_count_\<close> and \<open>num_controllers_\<close> never exceed 4 and are \<open>nat\<close>;
  \<^item> a \<open>float\<close> temperature is the \<open>real\<close> number it stands for (no NaN, no
    infinity). Comparisons of floats are exact. The subtraction
    \<open>temp_c - start_temp_\<close> of \<open>DesyncMan::Update\<close> is \<open>float_sub\<close>, the exact
    difference rounded to the nearest 32-bit float. The sums \<open>target_ + TEMP_ALLOWANCE\<close>
    and \<open>target_ - TEMP_ALLOWANCE\<close> are written exact, which is what the float operations
    give for the targets 24 and 25 of the sketch;
  \<^item> \<open>millis()\<close> returns the field \<open>clock\<close>, which only the environment changes,
    between two calls of the model's functions: within one call of a function of the
    sketch every \<open>millis()\<close> reads the same value (the calls take microseconds, the
    counter counts milliseconds);
  \<^item> \<open>digitalWrite\<close> and \<open>pinMode\<close> append an event to the field \<open>trace\<close>;
  \<^item> a \<open>TempController const *\<close> is a \<open>ctrl option\<close>, \<open>None\<close> being
    \<open>nullptr\<close>; a member function takes the object it is called on as a \<open>ctrl\<close>;
  \<^item> the two lambdas handed to \<open>Panic::Init\<close> are the values \<open>OffLambda nico\<close> and
    \<open>OffLambda trap\<close> of the type \<open>Callback\<close>; a null function pointer is \<open>None\<close>;
  \<^item> the \<open>Log\<close> calls write to the serial port only and are left out, so
    \<open>PrintPanic\<close> and \<open>PrintState\<close> have no counterpart;
  \<^item> the sensor is an input: \<open>TempController_Loop\<close> takes the value that
    \<open>getTempCByIndex(0)\<close> returns.
\<close>

subsection \<open>Configuration\<close>

type_synonym pin = "8 word"

datatype level = LOW | HIGH

definition TEMP_ALLOWANCE :: real where
  "TEMP_ALLOWANCE = 0.25"

definition RELAY_ACTIVE_STATE :: level where
  "RELAY_ACTIVE_STATE = HIGH"

definition RELAY_INACTIVE_STATE :: level where
  "RELAY_INACTIVE_STATE = LOW"

definition READ_INTERVAL_MS :: "32 word" where
  "READ_INTERVAL_MS = 2000"

text \<open>
  Two constants that the sketch takes from its libraries: \<open>LED_BUILTIN\<close> of the
  Arduino core (13 on the Uno) and \<open>DEVICE_DISCONNECTED_C\<close> of DallasTemperature.h.
  The theorems use them by name; only the evaluations at concrete inputs use the values.
\<close>

definition LED_BUILTIN :: pin where
  "LED_BUILTIN = 13"

definition DEVICE_DISCONNECTED_C :: real where
  "DEVICE_DISCONNECTED_C = - 127"

subsection \<open>Data\<close>

datatype PanicReason =
  PanicNone | SensorDisconnected | OverMax | DesyncNoRise | LEDRegisterFail | Other

record PanicInfo =
  ms :: "32 word"
  line :: "16 word"
  uid :: "8 word"
  reason :: PanicReason

datatype ctrl = nico | trap

datatype Callback = OffLambda ctrl

record Panic =
  is_panic :: bool
  callbacks :: "nat \<Rightarrow> Callback option"
  callback_count :: nat
  panic_info :: PanicInfo

definition MAX_CALLBACKS :: nat where
  "MAX_CALLBACKS = 4"

datatype State = HEATING | COOLING | OFF

record DesyncMan =
  start_time :: "32 word"
  start_temp :: real
  not_inited :: bool

record TempController =
  ctrl_uid :: "8 word"
  st :: State
  heater_is_off :: bool
  target :: real
  max_temp :: real
  relay_pin :: pin
  desync_man :: DesyncMan

record LEDMan =
  controllers :: "nat \<Rightarrow> ctrl option"
  num_controllers :: nat
  currentStateIndex :: nat
  ledOn :: bool
  lastToggleMs :: "32 word"

definition MAX_CONTROLLERS :: nat where
  "MAX_CONTROLLERS = 4"

datatype event = PinModeOutput pin | DigitalWrite pin level

record world =
  clock :: "32 word"
  panic :: Panic
  ledman :: LEDMan
  ctrls :: "ctrl \<Rightarrow> TempController"
  GLastReadMs :: "32 word"
  trace :: "event list"

subsection \<open>The Arduino core\<close>

definition millis :: "world \<Rightarrow> 32 word" where
  "millis w = clock w"

definition digitalWrite :: "pin \<Rightarrow> level \<Rightarrow> world \<Rightarrow> world" where
  "digitalWrite p v w = w\<lparr>trace := trace w @ [DigitalWrite p v]\<rparr>"

definition pinModeOutput :: "pin \<Rightarrow> world \<Rightarrow> world" where
  "pinModeOutput p w = w\<lparr>trace := trace w @ [PinModeOutput p]\<rparr>"

text \<open>The environment: \<open>d\<close> milliseconds pass (the counter wraps at \<open>2 ^ 32\<close>).\<close>

definition advance :: "32 word \<Rightarrow> world \<Rightarrow> world" where
  "advance d w = w\<lparr>clock := clock w + d\<rparr>"

subsection \<open>Float arithmetic\<close>

text \<open>
  On the board \<open>float\<close> is the 32-bit binary format of IEEE 754: 24 significant bits,
  the exponent of the least bit no smaller than \<open>- 149\<close>, results rounded to the nearest
  float with ties to the even significand. \<open>binade n e x\<close> finds the exponent of
  the power of two below a positive \<open>x\<close> by halving or doubling it at most \<open>n\<close>
  times; 300 steps reach every magnitude that the difference of two floats can have.
  \<open>round32\<close> scales its argument so that one unit is the least significant bit, rounds
  to an integer with \<open>rne\<close> and scales back. A magnitude beyond the largest float,
  which the hardware turns into an infinity, stays the rounded real: it compares with every
  finite float as the infinity does.
\<close>

definition pow2 :: "int \<Rightarrow> real" where
  "pow2 e = (if 0 \<le> e then 2 ^ nat e else 1 / 2 ^ nat (- e))"

fun binade :: "nat \<Rightarrow> int \<Rightarrow> real \<Rightarrow> int" where
  "binade 0 e x = e"
| "binade (Suc n) e x =
     (if 2 \<le> x then binade n (e + 1) (x / 2)
      else if x < 1 then binade n (e - 1) (2 * x)
      else e)"

definition rne :: "real \<Rightarrow> int" where
  "rne s =
     (let f = \<lfloor>s\<rfloor>; d = s - real_of_int f
      in if d < 1 / 2 then f
         else if 1 / 2 < d then f + 1
         else if even f then f else f + 1)"

definition round32 :: "real \<Rightarrow> real" where
  "round32 x =
     (if x = 0 then 0
      else (let e = max (binade 300 0 \<bar>x\<bar>) (- 126);
                m = rne (\<bar>x\<bar> * pow2 (23 - e))
            in sgn x * real_of_int m * pow2 (e - 23)))"

definition float_sub :: "real \<Rightarrow> real \<Rightarrow> real" where
  "float_sub a b = round32 (a - b)"

subsection \<open>DesyncMan\<close>

definition NEEDED_TEMP_CHANGE :: real where
  "NEEDED_TEMP_CHANGE = 0.25"

definition TIME_TO_WAIT :: "32 word" where
  "TIME_TO_WAIT = 180000"

definition DesyncMan_init :: DesyncMan where
  "DesyncMan_init = \<lparr>start_time = 0, start_temp = 0, not_inited = True\<rparr>"

definition DesyncMan_Reset :: "DesyncMan \<Rightarrow> DesyncMan" where
  "DesyncMan_Reset d = d\<lparr>not_inited := True\<rparr>"

text \<open>\<open>now\<close> is what \<open>millis()\<close> returns: in \<open>Begin\<close>, and in the test of
  \<open>Update\<close> after it. The test \<open>temp_c - start_temp_ < NEEDED_TEMP_CHANGE\<close>
  subtracts two floats, so the difference it compares is the rounded one.\<close>

definition DesyncMan_Begin :: "32 word \<Rightarrow> real \<Rightarrow> DesyncMan \<Rightarrow> DesyncMan" where
  "DesyncMan_Begin now temp_c d =
     d\<lparr>start_time := now, start_temp := temp_c, not_inited := False\<rparr>"

definition DesyncMan_Update :: "32 word \<Rightarrow> real \<Rightarrow> DesyncMan \<Rightarrow> bool \<times> DesyncMan" where
  "DesyncMan_Update now temp_c d =
     (let d1 = (if not_inited d then DesyncMan_Begin now temp_c d else d)
      in (now - start_time d1 \<ge> TIME_TO_WAIT \<and>
            float_sub temp_c (start_temp d1) < NEEDED_TEMP_CHANGE,
          d1))"

subsection \<open>TempController: Off and On\<close>

definition Panic_IsPanic :: "world \<Rightarrow> bool" where
  "Panic_IsPanic w = is_panic (panic w)"

definition TempController_Off :: "ctrl \<Rightarrow> world \<Rightarrow> world" where
  "TempController_Off c w =
     (let w1 = digitalWrite (relay_pin (ctrls w c)) RELAY_INACTIVE_STATE w;
          tc = ctrls w1 c;
          tc1 = (if Panic_IsPanic w1 then tc\<lparr>st := OFF\<rparr> else tc)
      in w1\<lparr>ctrls := (ctrls w1)(c := tc1\<lparr>heater_is_off := True\<rparr>)\<rparr>)"

definition TempController_IsHeating :: "TempController \<Rightarrow> bool" where
  "TempController_IsHeating tc = (\<not> heater_is_off tc)"

definition TempController_On :: "ctrl \<Rightarrow> world \<Rightarrow> world" where
  "TempController_On c w =
     (if heater_is_off (ctrls w c) = False then w
      else let w1 = digitalWrite (relay_pin (ctrls w c)) RELAY_ACTIVE_STATE w
           in w1\<lparr>ctrls := (ctrls w1)(c := (ctrls w1 c)\<lparr>heater_is_off := False\<rparr>)\<rparr>)"

subsection \<open>Panic\<close>

fun run_callback :: "Callback \<Rightarrow> world \<Rightarrow> world" where
  "run_callback (OffLambda c) w = TempController_Off c w"

text \<open>\<open>if (callbacks_[i]) callbacks_[i]();\<close>\<close>

definition call_if_set :: "Callback option \<Rightarrow> world \<Rightarrow> world" where
  "call_if_set cb w = (case cb of None \<Rightarrow> w | Some f \<Rightarrow> run_callback f w)"

lemma panic_TempController_Off [simp]: "panic (TempController_Off c w) = panic w"
  by (simp add: TempController_Off_def digitalWrite_def Let_def)

lemma panic_call_if_set [simp]: "panic (call_if_set cb w) = panic w"
  by (cases cb; cases "the cb") (simp_all add: call_if_set_def)

text \<open>The \<open>for\<close> loop of \<open>StartPanic\<close>, from index \<open>i\<close> on.\<close>

function callbacks_from :: "nat \<Rightarrow> world \<Rightarrow> world" where
  "callbacks_from i w =
     (if i < callback_count (panic w)
      then callbacks_from (Suc i) (call_if_set (callbacks (panic w) i) w)
      else w)"
  by pat_completeness auto
termination
  by (relation "measure (\<lambda>(i, w). callback_count (panic w) - i)") auto

declare callbacks_from.simps [simp del]

text \<open>\<open>Init\<close> is a template over the length \<open>N\<close> of the array; its
  \<open>static_assert\<close> lets no caller pass more than \<open>MAX_CALLBACKS\<close> entries.\<close>

definition Panic_Init :: "Callback option list \<Rightarrow> world \<Rightarrow> world" where
  "Panic_Init cbs w =
     w\<lparr>panic := (panic w)
        \<lparr>callback_count := length cbs,
         callbacks := (\<lambda>i. if i < length cbs then cbs ! i else callbacks (panic w) i)\<rparr>\<rparr>"

definition Panic_StartPanic :: "PanicReason \<Rightarrow> 8 word \<Rightarrow> 16 word \<Rightarrow> world \<Rightarrow> world" where
  "Panic_StartPanic r u l w =
     (if is_panic (panic w) then w
      else callbacks_from 0
             (w\<lparr>panic := (panic w)
                 \<lparr>is_panic := True,
                  panic_info := \<lparr>ms = millis w, line = l, uid = u, reason = r\<rparr>\<rparr>\<rparr>))"

subsection \<open>TempController: Update and Loop\<close>

text \<open>\<open>PANIC(uid, reason)\<close> is \<open>StartPanic(reason, uid, __LINE__)\<close>: the third
  argument of \<open>Panic_StartPanic\<close> is the line of the source on which the macro
  stands.\<close>

definition TempController_Update :: "ctrl \<Rightarrow> real \<Rightarrow> world \<Rightarrow> world" where
  "TempController_Update c current_temp_c w =
     (if st (ctrls w c) = OFF then w
      else if current_temp_c \<ge> max_temp (ctrls w c)
      then TempController_Off c (Panic_StartPanic OverMax (ctrl_uid (ctrls w c)) 358 w)
      else if st (ctrls w c) = HEATING
      then (let (desync, d1) = DesyncMan_Update (millis w) current_temp_c (desync_man (ctrls w c));
                w1 = w\<lparr>ctrls := (ctrls w)(c := (ctrls w c)\<lparr>desync_man := d1\<rparr>)\<rparr>
            in if desync
               then TempController_Off c
                      (Panic_StartPanic DesyncNoRise (ctrl_uid (ctrls w1 c)) 367 w1)
               else if current_temp_c \<ge> target (ctrls w1 c) + TEMP_ALLOWANCE
               then (let w2 = TempController_Off c w1
                     in w2\<lparr>ctrls := (ctrls w2)(c := (ctrls w2 c)\<lparr>st := COOLING\<rparr>)\<rparr>)
               else w1)
      else if st (ctrls w c) = COOLING \<and> current_temp_c \<le> target (ctrls w c) - TEMP_ALLOWANCE
      then (let w1 = w\<lparr>ctrls := (ctrls w)
                          (c := (ctrls w c)\<lparr>desync_man := DesyncMan_Reset (desync_man (ctrls w c))\<rparr>)\<rparr>;
                w2 = TempController_On c w1
            in w2\<lparr>ctrls := (ctrls w2)(c := (ctrls w2 c)\<lparr>st := HEATING\<rparr>)\<rparr>)
      else w)"

text \<open>\<open>temp_c\<close> is the reading of the sensor, were it asked.\<close>

definition TempController_Loop :: "ctrl \<Rightarrow> real \<Rightarrow> world \<Rightarrow> world" where
  "TempController_Loop c temp_c w =
     (if Panic_IsPanic w then w
      else if temp_c = DEVICE_DISCONNECTED_C
      then Panic_StartPanic SensorDisconnected (ctrl_uid (ctrls w c)) 394 w
      else TempController_Update c temp_c w)"

subsection \<open>LEDMan\<close>

text \<open>\<open>PANIC(0, PanicReason::LEDRegisterFail)\<close> stands on line 209.\<close>

definition LEDMan_Register :: "ctrl option \<Rightarrow> world \<Rightarrow> world" where
  "LEDMan_Register tc w =
     (if tc = None \<or> num_controllers (ledman w) \<ge> MAX_CONTROLLERS
      then Panic_StartPanic LEDRegisterFail 0 209 w
      else w\<lparr>ledman := (ledman w)
              \<lparr>controllers := (controllers (ledman w))(num_controllers (ledman w) := tc),
               num_controllers := num_controllers (ledman w) + 1\<rparr>\<rparr>)"

definition LEDMan_HalfPeriodForState :: "nat \<Rightarrow> 32 word" where
  "LEDMan_HalfPeriodForState state =
     (if state = 0 then 50 else if state = 1 then 1000 else 10000)"

text \<open>
  The loop \<open>any_heating |= controllers_[i]->IsHeating()\<close> of \<open>UpdateState\<close>, from
  index \<open>i\<close> on, with \<open>n\<close> iterations left. The result is \<open>None\<close> where the C++ has
  no defined behaviour: the read of a slot past the end of the array, or the call through
  a null pointer.
\<close>

fun any_heating_from :: "world \<Rightarrow> nat \<Rightarrow> nat \<Rightarrow> bool \<Rightarrow> bool option" where
  "any_heating_from w i 0 any_heating = Some any_heating"
| "any_heating_from w i (Suc n) any_heating =
     (if i \<ge> MAX_CONTROLLERS then None
      else case controllers (ledman w) i of
             None \<Rightarrow> None
           | Some c \<Rightarrow>
               any_heating_from w (Suc i) n
                 (any_heating \<or> TempController_IsHeating (ctrls w c)))"

definition LEDMan_new_state :: "world \<Rightarrow> nat option" where
  "LEDMan_new_state w =
     (if Panic_IsPanic w then Some 0
      else map_option (\<lambda>any_heating. if any_heating then 1 else 2)
             (any_heating_from w 0 (num_controllers (ledman w)) False))"

definition LEDMan_UpdateState :: "world \<Rightarrow> world option" where
  "LEDMan_UpdateState w =
     (case LEDMan_new_state w of
        None \<Rightarrow> None
      | Some new_state \<Rightarrow>
          Some (if new_state \<noteq> currentStateIndex (ledman w)
                then w\<lparr>ledman := (ledman w)
                        \<lparr>currentStateIndex := new_state,
                         ledOn := True,
                         lastToggleMs := millis w\<rparr>\<rparr>
                else w))"

definition LEDMan_Update :: "world \<Rightarrow> world option" where
  "LEDMan_Update w =
     (case LEDMan_UpdateState w of
        None \<Rightarrow> None
      | Some w1 \<Rightarrow>
          (let now = millis w1;
               elapsed = now - lastToggleMs (ledman w1);
               halfPeriod = LEDMan_HalfPeriodForState (currentStateIndex (ledman w1));
               w2 = (if elapsed \<ge> halfPeriod
                     then w1\<lparr>ledman := (ledman w1)
                              \<lparr>ledOn := \<not> ledOn (ledman w1), lastToggleMs := now\<rparr>\<rparr>
                     else w1)
           in Some (digitalWrite LED_BUILTIN (if ledOn (ledman w2) then HIGH else LOW) w2)))"

subsection \<open>The globals and the two entry points of the sketch\<close>

definition TempController_new :: "8 word \<Rightarrow> real \<Rightarrow> real \<Rightarrow> pin \<Rightarrow> pin \<Rightarrow> TempController" where
  "TempController_new u tg mx sen_wire_pin rp =
     \<lparr>ctrl_uid = u, st = COOLING, heater_is_off = True, target = tg, max_temp = mx,
      relay_pin = rp, desync_man = DesyncMan_init\<rparr>"

definition globals :: world where
  "globals =
     \<lparr>clock = 0,
      panic = \<lparr>is_panic = False, callbacks = (\<lambda>i. None), callback_count = 0,
               panic_info = \<lparr>ms = 0, line = 0, uid = 0, reason = PanicNone\<rparr>\<rparr>,
      ledman = \<lparr>controllers = (\<lambda>i. None), num_controllers = 0, currentStateIndex = 0,
                ledOn = False, lastToggleMs = 0\<rparr>,
      ctrls = (\<lambda>c. case c of
                 nico \<Rightarrow> TempController_new 1 24 28 2 8
               | trap \<Rightarrow> TempController_new 2 25 28 4 12),
      GLastReadMs = 0,
      trace = []\<rparr>"

definition TempController_Begin :: "ctrl \<Rightarrow> world \<Rightarrow> world" where
  "TempController_Begin c w =
     digitalWrite (relay_pin (ctrls w c)) RELAY_INACTIVE_STATE
       (pinModeOutput (relay_pin (ctrls w c)) w)"

text \<open>The function \<open>setup()\<close> of the sketch.\<close>

definition arduino_setup :: "world \<Rightarrow> world" where
  "arduino_setup w =
     LEDMan_Register (Some trap)
       (LEDMan_Register (Some nico)
         (Panic_Init [Some (OffLambda nico), Some (OffLambda trap)]
           (TempController_Begin trap
             (TempController_Begin nico
               (pinModeOutput LED_BUILTIN w)))))"

text \<open>
  One pass of \<open>loop()\<close>; \<open>t_nico\<close> and \<open>t_trap\<close> are the readings of the two
  sensors, were they asked in this pass.
\<close>

definition loop :: "real \<Rightarrow> real \<Rightarrow> world \<Rightarrow> world option" where
  "loop t_nico t_trap w =
     (case LEDMan_Update w of
        None \<Rightarrow> None
      | Some w1 \<Rightarrow>
          (let now = millis w1
           in if now - GLastReadMs w1 < READ_INTERVAL_MS then Some w1
              else let w2 = w1\<lparr>GLastReadMs := now\<rparr>
                   in if Panic_IsPanic w2 then Some w2
                      else Some (TempController_Loop trap t_trap
                                   (TempController_Loop nico t_nico w2))))"

text \<open>
  A run of the sketch after \<open>setup()\<close>: before each pass of \<open>loop()\<close> the clock moves
  on by \<open>d\<close> milliseconds.
\<close>

fun run :: "(32 word \<times> real \<times> real) list \<Rightarrow> world \<Rightarrow> world option" where
  "run [] w = Some w"
| "run ((d, t_nico, t_trap) # ps) w =
     (case loop t_nico t_trap (advance d w) of
        None \<Rightarrow> None
      | Some w1 \<Rightarrow> run ps w1)"

section \<open>The single-loop sketch of oldsystem.cpp\<close>

text \<open>
  The older sketch drives one relay; its \<open>TempController\<close> and its \<open>Panic\<close> have
  static members only, and \<open>StartPanic\<close> records no cause. Modelled here: \<open>Panic\<close>,
  \<open>LEDMan::SetState\<close>, \<open>TempController\<close> and the part of \<open>loop()\<close> that reads the
  sensor (from \<open>requestTemperatures\<close> on). The names carry the prefix \<open>Old\<close>; the
  conventions are those of the first section.
\<close>

definition Old_RELAY_PIN :: pin where
  "Old_RELAY_PIN = 8"

definition Old_TARGET_TEMP_C :: real where
  "Old_TARGET_TEMP_C = 24"

definition Old_TEMP_MAX :: real where
  "Old_TEMP_MAX = 28"

text \<open>The two lambdas of \<open>setup()\<close>: \<open>LEDIndicator::SetState(LEDState::PANIC)\<close> and
  \<open>TempController::Off()\<close>.\<close>

datatype Old_Callback = SetStatePanicLambda | OffLambdaOld

record old_world =
  old_clock :: "32 word"
  old_is_panic :: bool
  old_callbacks :: "nat \<Rightarrow> Old_Callback option"
  old_callback_count :: nat
  old_currentStateIndex :: nat
  old_ledOn :: bool
  old_lastToggleMs :: "32 word"
  old_st :: State
  old_heater_is_off :: bool
  old_GUndetectedCount :: nat
  old_trace :: "event list"

definition Old_digitalWrite :: "pin \<Rightarrow> level \<Rightarrow> old_world \<Rightarrow> old_world" where
  "Old_digitalWrite p v w = w\<lparr>old_trace := old_trace w @ [DigitalWrite p v]\<rparr>"

definition Old_IsPanic :: "old_world \<Rightarrow> bool" where
  "Old_IsPanic w = old_is_panic w"

definition Old_Off :: "old_world \<Rightarrow> old_world" where
  "Old_Off w =
     (if old_heater_is_off w = True then w
      else let w1 = Old_digitalWrite Old_RELAY_PIN RELAY_INACTIVE_STATE w;
               w2 = (if Old_IsPanic w1 then w1\<lparr>old_st := OFF\<rparr> else w1)
           in w2\<lparr>old_heater_is_off := True\<rparr>)"

definition Old_On :: "old_world \<Rightarrow> old_world" where
  "Old_On w =
     (if old_heater_is_off w = False then w
      else (Old_digitalWrite Old_RELAY_PIN RELAY_ACTIVE_STATE w)\<lparr>old_heater_is_off := False\<rparr>)"

text \<open>\<open>NumStates\<close> is 3; the states of the indicator are \<open>COOLING = 0\<close>,
  \<open>HEATING = 1\<close> and \<open>PANIC = 2\<close>.\<close>

definition Old_NumStates :: nat where
  "Old_NumStates = 3"

text \<open>The second branch of \<open>SetState\<close>, for a state within range. The lambda of
  \<open>setup()\<close> passes the constant 2 and so takes this branch; it is defined on its own,
  before \<open>StartPanic\<close>, which the first branch calls.\<close>

definition Old_SetState_in_range :: "nat \<Rightarrow> old_world \<Rightarrow> old_world" where
  "Old_SetState_in_range state w =
     (if state \<noteq> old_currentStateIndex w
      then w\<lparr>old_currentStateIndex := state, old_ledOn := True, old_lastToggleMs := old_clock w\<rparr>
      else w)"

fun Old_run_callback :: "Old_Callback \<Rightarrow> old_world \<Rightarrow> old_world" where
  "Old_run_callback SetStatePanicLambda w = Old_SetState_in_range 2 w"
| "Old_run_callback OffLambdaOld w = Old_Off w"

definition Old_call_if_set :: "Old_Callback option \<Rightarrow> old_world \<Rightarrow> old_world" where
  "Old_call_if_set cb w = (case cb of None \<Rightarrow> w | Some f \<Rightarrow> Old_run_callback f w)"

lemma Old_call_if_set_count [simp]:
  "old_callback_count (Old_call_if_set cb w) = old_callback_count w"
  by (cases cb; cases "the cb")
     (simp_all add: Old_call_if_set_def Old_SetState_in_range_def Old_Off_def
       Old_digitalWrite_def Let_def)

function Old_callbacks_from :: "nat \<Rightarrow> old_world \<Rightarrow> old_world" where
  "Old_callbacks_from i w =
     (if i < old_callback_count w
      then Old_callbacks_from (Suc i) (Old_call_if_set (old_callbacks w i) w)
      else w)"
  by pat_completeness auto
termination
  by (relation "measure (\<lambda>(i, w). old_callback_count w - i)") auto

declare Old_callbacks_from.simps [simp del]

definition Old_StartPanic :: "old_world \<Rightarrow> old_world" where
  "Old_StartPanic w =
     (if old_is_panic w then w
      else Old_callbacks_from 0 (w\<lparr>old_is_panic := True\<rparr>))"

definition Old_RegisterCallback :: "Old_Callback option \<Rightarrow> old_world \<Rightarrow> old_world" where
  "Old_RegisterCallback cb w =
     (if old_callback_count w < MAX_CALLBACKS
      then w\<lparr>old_callbacks := (old_callbacks w)(old_callback_count w := cb),
             old_callback_count := old_callback_count w + 1\<rparr>
      else Old_StartPanic w)"

definition Old_SetState :: "nat \<Rightarrow> old_world \<Rightarrow> old_world" where
  "Old_SetState state w =
     (if state \<ge> Old_NumStates
      then Old_digitalWrite LED_BUILTIN LOW ((Old_StartPanic w)\<lparr>old_ledOn := False\<rparr>)
      else Old_SetState_in_range state w)"

definition Old_Update :: "real \<Rightarrow> old_world \<Rightarrow> old_world" where
  "Old_Update current_temp_c w =
     (if old_st w = OFF then w
      else if current_temp_c > Old_TEMP_MAX
      then Old_Off (Old_StartPanic w)
      else if old_st w = HEATING \<and> current_temp_c \<ge> Old_TARGET_TEMP_C + TEMP_ALLOWANCE
      then Old_SetState 0 ((Old_Off w)\<lparr>old_st := COOLING\<rparr>)
      else if old_st w = COOLING \<and> current_temp_c \<le> Old_TARGET_TEMP_C - TEMP_ALLOWANCE
      then Old_SetState 1 ((Old_On w)\<lparr>old_st := HEATING\<rparr>)
      else w)"

text \<open>The tail of \<open>loop()\<close>, reached with the latch clear: \<open>tempC\<close> is the reading
  of the sensor.\<close>

definition Old_loop_sample :: "real \<Rightarrow> old_world \<Rightarrow> old_world" where
  "Old_loop_sample tempC w =
     (if tempC = DEVICE_DISCONNECTED_C
      then (if old_GUndetectedCount w \<ge> 5
            then Old_Off (Old_StartPanic w)
            else w\<lparr>old_GUndetectedCount := old_GUndetectedCount w + 1\<rparr>)
      else Old_Update tempC (w\<lparr>old_GUndetectedCount := 0\<rparr>))"

text \<open>The globals of the older sketch and its \<open>setup()\<close>, up to the start of the
  serial log.\<close>

definition Old_globals :: old_world where
  "Old_globals =
     \<lparr>old_clock = 0, old_is_panic = False, old_callbacks = (\<lambda>i. None),
      old_callback_count = 0, old_currentStateIndex = 0, old_ledOn = False,
      old_lastToggleMs = 0, old_st = COOLING, old_heater_is_off = True,
      old_GUndetectedCount = 0, old_trace = []\<rparr>"

definition Old_pinModeOutput :: "pin \<Rightarrow> old_world \<Rightarrow> old_world" where
  "Old_pinModeOutput p w = w\<lparr>old_trace := old_trace w @ [PinModeOutput p]\<rparr>"

definition Old_setup :: "old_world \<Rightarrow> old_world" where
  "Old_setup w =
     Old_RegisterCallback (Some OffLambdaOld)
       (Old_RegisterCallback (Some SetStatePanicLambda)
         (Old_SetState 0
           (Old_pinModeOutput LED_BUILTIN
             (Old_digitalWrite Old_RELAY_PIN RELAY_INACTIVE_STATE
               (Old_pinModeOutput Old_RELAY_PIN w)))))"

section \<open>Sequences of calls\<close>

text \<open>
  The properties below speak of what a caller observes over several calls. The
  definitions of this section drive the functions above; none of them stands for code of
  the sketch.
\<close>

text \<open>A sequence of \<open>DesyncMan::Update\<close> calls, each with the clock reading and the
  temperature of the call; the results are collected in order.\<close>

fun DesyncMan_Updates :: "(32 word \<times> real) list \<Rightarrow> DesyncMan \<Rightarrow> bool list \<times> DesyncMan" where
  "DesyncMan_Updates [] d = ([], d)"
| "DesyncMan_Updates ((now, temp_c) # cs) d =
     (let (r, d1) = DesyncMan_Update now temp_c d;
          (rs, d2) = DesyncMan_Updates cs d1
      in (r # rs, d2))"

text \<open>The four assignments with which \<open>StartPanic\<close> sets the latch and records the
  fault, before it runs the callbacks.\<close>

definition latch :: "PanicReason \<Rightarrow> 8 word \<Rightarrow> 16 word \<Rightarrow> world \<Rightarrow> world" where
  "latch r u l w =
     w\<lparr>panic := (panic w)
        \<lparr>is_panic := True,
         panic_info := \<lparr>ms = clock w, line = l, uid = u, reason = r\<rparr>\<rparr>\<rparr>"

text \<open>The callbacks that \<open>StartPanic\<close> walks through: the slots below
  \<open>callback_count_\<close>, by rising index.\<close>

definition registered_callbacks :: "world \<Rightarrow> Callback option list" where
  "registered_callbacks w = map (callbacks (panic w)) [0..<callback_count (panic w)]"

text \<open>The events a step from \<open>w\<close> to \<open>w'\<close> has appended to the trace.\<close>

definition new_events :: "world \<Rightarrow> world \<Rightarrow> event list" where
  "new_events w w' = drop (length (trace w)) (trace w')"

fun is_inactive_write :: "event \<Rightarrow> bool" where
  "is_inactive_write (DigitalWrite p v) = (v = RELAY_INACTIVE_STATE)"
| "is_inactive_write (PinModeOutput p) = False"

fun is_led_write :: "event \<Rightarrow> bool" where
  "is_led_write (DigitalWrite p v) = (p = LED_BUILTIN)"
| "is_led_write (PinModeOutput p) = False"

text \<open>Every entry point of the sketch, and the passing of time, as one call.\<close>

datatype call =
    CallInit "Callback option list"
  | CallStartPanic PanicReason "8 word" "16 word"
  | CallRegister "ctrl option"
  | CallUpdateState
  | CallLEDUpdate
  | CallBegin ctrl
  | CallOff ctrl
  | CallUpdate ctrl real
  | CallLoop ctrl real
  | CallSetup
  | CallLoopPass real real
  | Elapse "32 word"

fun exec :: "call \<Rightarrow> world \<Rightarrow> world option" where
  "exec (CallInit cbs) w = Some (Panic_Init cbs w)"
| "exec (CallStartPanic r u l) w = Some (Panic_StartPanic r u l w)"
| "exec (CallRegister tc) w = Some (LEDMan_Register tc w)"
| "exec CallUpdateState w = LEDMan_UpdateState w"
| "exec CallLEDUpdate w = LEDMan_Update w"
| "exec (CallBegin c) w = Some (TempController_Begin c w)"
| "exec (CallOff c) w = Some (TempController_Off c w)"
| "exec (CallUpdate c t) w = Some (TempController_Update c t w)"
| "exec (CallLoop c t) w = Some (TempController_Loop c t w)"
| "exec CallSetup w = Some (arduino_setup w)"
| "exec (CallLoopPass t_nico t_trap) w = loop t_nico t_trap w"
| "exec (Elapse d) w = Some (advance d w)"

fun execs :: "call list \<Rightarrow> world \<Rightarrow> world option" where
  "execs [] w = Some w"
| "execs (a # as) w = (case exec a w of None \<Rightarrow> None | Some w1 \<Rightarrow> execs as w1)"

text \<open>The registry of \<open>LEDMan\<close> is well formed: the count is within the array and
  every slot below the count holds a controller.\<close>

definition registry_ok :: "world \<Rightarrow> bool" where
  "registry_ok w \<longleftrightarrow>
     num_controllers (ledman w) \<le> MAX_CONTROLLERS \<and>
     list_all (\<lambda>i. controllers (ledman w) i \<noteq> None) [0..<num_controllers (ledman w)]"

text \<open>The invariant of the controllers: a controller in state \<open>OFF\<close> has its output
  inactive, and the latch is set.\<close>

definition off_is_safe :: "world \<Rightarrow> ctrl \<Rightarrow> bool" where
  "off_is_safe w c \<longleftrightarrow>
     (st (ctrls w c) \<noteq> OFF \<or> (heater_is_off (ctrls w c) \<and> is_panic (panic w)))"

text \<open>A controller right after its constructor.\<close>

definition fresh :: "world \<Rightarrow> ctrl \<Rightarrow> bool" where
  "fresh w c \<longleftrightarrow> st (ctrls w c) = COOLING \<and> heater_is_off (ctrls w c)"

text \<open>A sequence of \<open>Update\<close> calls on one controller; before each, \<open>d\<close> milliseconds
  pass.\<close>

fun feed :: "ctrl \<Rightarrow> (32 word \<times> real) list \<Rightarrow> world \<Rightarrow> world" where
  "feed c [] w = w"
| "feed c ((d, t) # ss) w = feed c ss (TempController_Update c t (advance d w))"

text \<open>A step from \<open>w\<close> to \<open>w'\<close> that at most switches outputs off: what the
  shutdown callbacks do.\<close>

definition turns_off :: "world \<Rightarrow> world \<Rightarrow> bool" where
  "turns_off w w' \<longleftrightarrow>
     clock w' = clock w \<and> panic w' = panic w \<and> ledman w' = ledman w \<and>
     GLastReadMs w' = GLastReadMs w \<and>
     (\<forall>c. ctrl_uid (ctrls w' c) = ctrl_uid (ctrls w c) \<and>
          target (ctrls w' c) = target (ctrls w c) \<and>
          max_temp (ctrls w' c) = max_temp (ctrls w c) \<and>
          relay_pin (ctrls w' c) = relay_pin (ctrls w c) \<and>
          desync_man (ctrls w' c) = desync_man (ctrls w c) \<and>
          (heater_is_off (ctrls w c) \<longrightarrow> heater_is_off (ctrls w' c)) \<and>
          (ctrls w' c = ctrls w c \<or> heater_is_off (ctrls w' c)) \<and>
          (st (ctrls w' c) = st (ctrls w c) \<or>
           (st (ctrls w' c) = OFF \<and> heater_is_off (ctrls w' c) \<and> is_panic (panic w)))) \<and>
     (\<exists>es. trace w' = trace w @ es \<and> list_all is_inactive_write es)"

text \<open>What a call leaves as it is: the latch once set, with its record.\<close>

definition keeps_latch :: "world \<Rightarrow> world \<Rightarrow> bool" where
  "keeps_latch w w' \<longleftrightarrow>
     (is_panic (panic w) \<longrightarrow>
        is_panic (panic w') \<and> panic_info (panic w') = panic_info (panic w))"

text \<open>The write with which a shutdown callback shows in the trace.\<close>

definition callback_events :: "world \<Rightarrow> Callback option \<Rightarrow> event list" where
  "callback_events w cb =
     (case cb of
        None \<Rightarrow> []
      | Some (OffLambda c) \<Rightarrow> [DigitalWrite (relay_pin (ctrls w c)) RELAY_INACTIVE_STATE])"

fun is_StartPanic :: "call \<Rightarrow> bool" where
  "is_StartPanic (CallStartPanic r u l) = True"
| "is_StartPanic _ = False"

text \<open>The older sketch while its latch is set, \<open>t0\<close> being the trace before the
  fault: an output that is inactive by now was switched off by a write of the inactive
  level to the relay pin since then, and its state is \<open>OFF\<close>.\<close>

definition old_shut :: "event list \<Rightarrow> old_world \<Rightarrow> bool" where
  "old_shut t0 w \<longleftrightarrow>
     old_is_panic w \<and>
     (\<exists>es. old_trace w = t0 @ es \<and>
        (old_heater_is_off w \<longrightarrow>
           old_st w = OFF \<and> DigitalWrite Old_RELAY_PIN RELAY_INACTIVE_STATE \<in> set es))"

section \<open>Basic facts\<close>

lemmas config_defs =
  TEMP_ALLOWANCE_def RELAY_ACTIVE_STATE_def RELAY_INACTIVE_STATE_def READ_INTERVAL_MS_def
  LED_BUILTIN_def DEVICE_DISCONNECTED_C_def MAX_CALLBACKS_def MAX_CONTROLLERS_def
  NEEDED_TEMP_CHANGE_def TIME_TO_WAIT_def

subsection \<open>Float arithmetic\<close>

lemma binade_unfold:
  "binade n e x =
     (if n = 0 then e
      else if 2 \<le> x then binade (n - 1) (e + 1) (x / 2)
      else if x < 1 then binade (n - 1) (e - 1) (2 * x)
      else e)"
  by (cases n) simp_all

lemma pow2_powi: "pow2 e = 2 powi e"
  by (simp add: pow2_def power_int_def power_one_over [symmetric] inverse_eq_divide)

lemma pow2_pos: "0 < pow2 e"
  by (simp add: pow2_powi)

lemma pow2_add: "pow2 (a + b) = pow2 a * pow2 b"
  by (simp add: pow2_powi power_int_add)

lemma pow2_mono: "a \<le> b \<Longrightarrow> pow2 a \<le> pow2 b"
  by (simp add: pow2_powi power_int_increasing)

lemma binade_le: "x < 2 \<Longrightarrow> binade n e x \<le> e"
proof (induction n arbitrary: e x)
  case 0
  show ?case by simp
next
  case (Suc n)
  show ?case
  proof (cases "x < 1")
    case True
    then have "binade n (e - 1) (2 * x) \<le> e - 1"
      by (intro Suc.IH) simp
    with True Suc.prems show ?thesis by simp
  next
    case False
    with Suc.prems show ?thesis by simp
  qed
qed

lemma binade_upper: "x < 2 \<Longrightarrow> x < pow2 (binade n e x - e + 1)"
proof (induction n arbitrary: e x)
  case 0
  then show ?case by (simp add: pow2_def)
next
  case (Suc n)
  show ?case
  proof (cases "x < 1")
    case True
    then have "2 * x < pow2 (binade n (e - 1) (2 * x) - (e - 1) + 1)"
      by (intro Suc.IH) simp
    also have "binade n (e - 1) (2 * x) - (e - 1) + 1 = 1 + (binade n (e - 1) (2 * x) - e + 1)"
      by simp
    also have "pow2 \<dots> = 2 * pow2 (binade n (e - 1) (2 * x) - e + 1)"
      by (simp only: pow2_add) (simp add: pow2_def)
    finally have "x < pow2 (binade n (e - 1) (2 * x) - e + 1)"
      by simp
    with True Suc.prems show ?thesis by simp
  next
    case False
    with Suc.prems show ?thesis by (simp add: pow2_def)
  qed
qed

lemma binade_ge: "1 \<le> x \<Longrightarrow> e \<le> binade n e x"
proof (induction n arbitrary: e x)
  case 0
  show ?case by simp
next
  case (Suc n)
  show ?case
  proof (cases "2 \<le> x")
    case True
    then have "e + 1 \<le> binade n (e + 1) (x / 2)"
      by (intro Suc.IH) simp
    with True show ?thesis by simp
  next
    case False
    with Suc.prems show ?thesis by simp
  qed
qed

lemma binade_lower: "1 \<le> x \<Longrightarrow> pow2 (binade n e x - e) \<le> x"
proof (induction n arbitrary: e x)
  case 0
  then show ?case by (simp add: pow2_def)
next
  case (Suc n)
  show ?case
  proof (cases "2 \<le> x")
    case True
    then have "pow2 (binade n (e + 1) (x / 2) - (e + 1)) \<le> x / 2"
      by (intro Suc.IH) simp
    moreover have "binade n (e + 1) (x / 2) - e = 1 + (binade n (e + 1) (x / 2) - (e + 1))"
      by simp
    moreover have "pow2 (1 + (binade n (e + 1) (x / 2) - (e + 1))) = 2 * pow2 (binade n (e + 1) (x / 2) - (e + 1))"
      by (simp only: pow2_add) (simp add: pow2_def)
    ultimately have "pow2 (binade n (e + 1) (x / 2) - e) \<le> x"
      by simp
    with True show ?thesis by simp
  next
    case False
    with Suc.prems show ?thesis by (simp add: pow2_def)
  qed
qed

lemma rne_ge: "real_of_int k \<le> s \<Longrightarrow> k \<le> rne s"
proof -
  assume "real_of_int k \<le> s"
  then have "k \<le> \<lfloor>s\<rfloor>" by (simp add: le_floor_iff)
  then show ?thesis by (simp add: rne_def Let_def)
qed

lemma rne_le: "s \<le> real_of_int k \<Longrightarrow> rne s \<le> k"
proof (cases "s = real_of_int k")
  case True
  then show ?thesis by (simp add: rne_def Let_def)
next
  case False
  assume "s \<le> real_of_int k"
  with False have "s < real_of_int k" by simp
  then have "\<lfloor>s\<rfloor> < k" by (simp add: floor_less_iff)
  then show ?thesis by (simp add: rne_def Let_def)
qed

lemma rne_below_half: "s < real_of_int k - 1 / 2 \<Longrightarrow> rne s \<le> k - 1"
proof -
  assume a: "s < real_of_int k - 1 / 2"
  then have "s < real_of_int k" by simp
  then have f: "\<lfloor>s\<rfloor> \<le> k - 1" by (simp add: floor_less_iff)
  show ?thesis
  proof (cases "\<lfloor>s\<rfloor> = k - 1")
    case True
    with a have "s - real_of_int \<lfloor>s\<rfloor> < 1 / 2" by simp
    with True show ?thesis by (simp add: rne_def Let_def)
  next
    case False
    with f have "\<lfloor>s\<rfloor> + 1 \<le> k - 1" by simp
    then show ?thesis by (simp add: rne_def Let_def)
  qed
qed

lemma rne_upper_half:
  "odd k \<Longrightarrow> real_of_int k + 1 / 2 \<le> s \<Longrightarrow> s < real_of_int k + 1 \<Longrightarrow> rne s = k + 1"
proof -
  assume o: "odd k" and a: "real_of_int k + 1 / 2 \<le> s" and b: "s < real_of_int k + 1"
  have f: "\<lfloor>s\<rfloor> = k"
    using a b by (intro floor_unique) simp_all
  with a have "\<not> s - real_of_int \<lfloor>s\<rfloor> < 1 / 2" by simp
  with f o show ?thesis by (simp add: rne_def Let_def)
qed

lemma round32_pos:
  "0 < x \<Longrightarrow>
   round32 x = real_of_int (rne (x * pow2 (23 - max (binade 300 0 x) (- 126)))) * pow2 (max (binade 300 0 x) (- 126) - 23)"
  by (simp add: round32_def Let_def)

lemma round32_nonpos: "x \<le> 0 \<Longrightarrow> round32 x \<le> 0"
proof (cases "x = 0")
  case True
  then show ?thesis by (simp add: round32_def)
next
  case False
  assume "x \<le> 0"
  with False have neg: "x < 0" by simp
  define e where "e = max (binade 300 0 \<bar>x\<bar>) (- 126)"
  have "0 \<le> \<bar>x\<bar> * pow2 (23 - e)"
    using pow2_pos [of "23 - e"] by simp
  then have "0 \<le> rne (\<bar>x\<bar> * pow2 (23 - e))"
    by (intro rne_ge) simp
  then have "0 \<le> real_of_int (rne (\<bar>x\<bar> * pow2 (23 - e))) * pow2 (e - 23)"
    using pow2_pos [of "e - 23"] by simp
  moreover have "round32 x = - (real_of_int (rne (\<bar>x\<bar> * pow2 (23 - e))) * pow2 (e - 23))"
    using neg by (simp add: round32_def Let_def e_def)
  ultimately show ?thesis by simp
qed

text \<open>A rounded value is at least the power of two below the argument.\<close>

lemma round32_ge_pow2:
  assumes x: "0 < x" and e: "max (binade 300 0 x) (- 126) = e" and lo: "pow2 e \<le> x"
  shows "pow2 e \<le> round32 x"
proof -
  have "pow2 23 = pow2 e * pow2 (23 - e)"
    by (simp add: pow2_add [symmetric])
  also have "\<dots> \<le> x * pow2 (23 - e)"
    using lo pow2_pos [of "23 - e"] by simp
  finally have "real_of_int (2 ^ 23) \<le> x * pow2 (23 - e)"
    by (simp add: pow2_def)
  then have "2 ^ 23 \<le> rne (x * pow2 (23 - e))"
    by (rule rne_ge)
  then have "real_of_int (2 ^ 23) \<le> real_of_int (rne (x * pow2 (23 - e)))"
    by (simp only: of_int_le_iff)
  then have "pow2 23 \<le> real_of_int (rne (x * pow2 (23 - e)))"
    by (simp add: pow2_def)
  then have "pow2 23 * pow2 (e - 23) \<le> real_of_int (rne (x * pow2 (23 - e))) * pow2 (e - 23)"
    using pow2_pos [of "e - 23"] by simp
  moreover have "pow2 23 * pow2 (e - 23) = pow2 e"
    by (simp add: pow2_add [symmetric])
  ultimately show ?thesis
    using x e by (simp add: round32_pos)
qed

text \<open>A rounded value is at most the power of two above the argument.\<close>

lemma round32_le_pow2:
  assumes x: "0 < x" and e: "max (binade 300 0 x) (- 126) = e" and hi: "x \<le> pow2 (e + 1)"
  shows "round32 x \<le> pow2 (e + 1)"
proof -
  have "x * pow2 (23 - e) \<le> pow2 (e + 1) * pow2 (23 - e)"
    using hi pow2_pos [of "23 - e"] by simp
  also have "\<dots> = pow2 24"
    by (simp add: pow2_add [symmetric])
  finally have "x * pow2 (23 - e) \<le> real_of_int (2 ^ 24)"
    by (simp add: pow2_def)
  then have "rne (x * pow2 (23 - e)) \<le> 2 ^ 24"
    by (rule rne_le)
  then have "real_of_int (rne (x * pow2 (23 - e))) \<le> real_of_int (2 ^ 24)"
    by (simp only: of_int_le_iff)
  then have "real_of_int (rne (x * pow2 (23 - e))) \<le> pow2 24"
    by (simp add: pow2_def)
  then have "real_of_int (rne (x * pow2 (23 - e))) * pow2 (e - 23) \<le> pow2 24 * pow2 (e - 23)"
    using pow2_pos [of "e - 23"] by simp
  also have "pow2 24 * pow2 (e - 23) = pow2 (24 + (e - 23))"
    by (simp only: pow2_add)
  also have "24 + (e - 23) = e + 1"
    by simp
  finally show ?thesis
    using x e by (simp add: round32_pos)
qed

lemma round32_ge_1: "1 \<le> x \<Longrightarrow> 1 \<le> round32 x"
proof -
  assume x: "1 \<le> x"
  define e where "e = binade 300 0 x"
  have e0: "0 \<le> e"
    using binade_ge [OF x, of 0 300] by (simp add: e_def)
  then have m: "max (binade 300 0 x) (- 126) = e"
    by (simp add: e_def)
  have "pow2 e \<le> x"
    using binade_lower [OF x, of 300 0] by (simp add: e_def)
  with x m have "pow2 e \<le> round32 x"
    by (intro round32_ge_pow2) simp_all
  moreover have "pow2 0 \<le> pow2 e"
    using e0 by (rule pow2_mono)
  ultimately show ?thesis
    by (simp add: pow2_def)
qed

lemma binade_half: "1 / 2 \<le> x \<Longrightarrow> x < 1 \<Longrightarrow> binade 300 0 x = - 1"
  by (simp add: binade_unfold)

lemma binade_quarter: "1 / 4 \<le> x \<Longrightarrow> x < 1 / 2 \<Longrightarrow> binade 300 0 x = - 2"
  by (simp add: binade_unfold)

lemma binade_eighth: "1 / 8 \<le> x \<Longrightarrow> x < 1 / 4 \<Longrightarrow> binade 300 0 x = - 3"
  by (simp add: binade_unfold)

lemma binade_small: "0 < x \<Longrightarrow> x < 1 / 8 \<Longrightarrow> binade 300 0 x = binade 296 (- 4) (16 * x)"
  by (simp add: binade_unfold [of 300] binade_unfold [of 299] binade_unfold [of 298] binade_unfold [of 297])

lemma round32_ge_quarter: "1 / 4 \<le> x \<Longrightarrow> 1 / 4 \<le> round32 x"
proof -
  assume x: "1 / 4 \<le> x"
  consider "1 \<le> x" | "1 / 2 \<le> x" "x < 1" | "x < 1 / 2"
    by linarith
  then show ?thesis
  proof cases
    case 1
    then show ?thesis using round32_ge_1 [of x] by simp
  next
    case 2
    then have "pow2 (- 1) \<le> round32 x"
      by (intro round32_ge_pow2) (simp_all add: binade_half pow2_def)
    then show ?thesis by (simp add: pow2_def)
  next
    case 3
    with x have "pow2 (- 2) \<le> round32 x"
      by (intro round32_ge_pow2) (simp_all add: binade_quarter pow2_def)
    then show ?thesis by (simp add: pow2_def)
  qed
qed

lemma round32_tiny: "0 < x \<Longrightarrow> x < 1 / 8 \<Longrightarrow> round32 x \<le> 1 / 8"
proof -
  assume x: "0 < x" and s: "x < 1 / 8"
  define r where "r = binade 296 (- 4) (16 * x)"
  define e where "e = max r (- 126)"
  have b: "binade 300 0 x = r"
    using x s by (simp add: binade_small r_def)
  have r4: "r \<le> - 4"
    unfolding r_def using s by (intro binade_le) simp
  then have e4: "e \<le> - 4"
    by (simp add: e_def)
  have "16 * x < pow2 (r - (- 4) + 1)"
    unfolding r_def using s by (intro binade_upper) simp
  also have "r - (- 4) + 1 = 4 + (r + 1)"
    by simp
  also have "pow2 (4 + (r + 1)) = 16 * pow2 (r + 1)"
    by (simp only: pow2_add) (simp add: pow2_def)
  finally have "x < pow2 (r + 1)"
    by simp
  also have "pow2 (r + 1) \<le> pow2 (e + 1)"
    by (intro pow2_mono) (simp add: e_def)
  finally have "x \<le> pow2 (e + 1)"
    by simp
  with x have "round32 x \<le> pow2 (e + 1)"
    by (intro round32_le_pow2) (simp_all add: b e_def)
  also have "pow2 (e + 1) \<le> pow2 (- 3)"
    using e4 by (intro pow2_mono) simp
  finally show ?thesis
    by (simp add: pow2_def)
qed

lemma round32_below: "1 / 8 \<le> x \<Longrightarrow> x < 1 / 4 - 1 / 2 ^ 27 \<Longrightarrow> round32 x < 1 / 4"
proof -
  assume lo: "1 / 8 \<le> x" and hi: "x < 1 / 4 - 1 / 2 ^ 27"
  have b: "binade 300 0 x = - 3"
    using lo hi by (intro binade_eighth) simp_all
  have "x * 2 ^ 26 < real_of_int (2 ^ 24) - 1 / 2"
    using hi by simp
  then have "rne (x * 2 ^ 26) \<le> 2 ^ 24 - 1"
    by (rule rne_below_half)
  then have "real_of_int (rne (x * 2 ^ 26)) \<le> real_of_int (2 ^ 24 - 1)"
    by (simp only: of_int_le_iff)
  then have "real_of_int (rne (x * 2 ^ 26)) / 2 ^ 26 < 1 / 4"
    by simp
  moreover have "round32 x = real_of_int (rne (x * 2 ^ 26)) / 2 ^ 26"
    using lo by (simp add: round32_pos b pow2_def)
  ultimately show ?thesis
    by simp
qed

lemma round32_tie: "1 / 4 - 1 / 2 ^ 27 \<le> x \<Longrightarrow> x < 1 / 4 \<Longrightarrow> round32 x = 1 / 4"
proof -
  assume lo: "1 / 4 - 1 / 2 ^ 27 \<le> x" and hi: "x < 1 / 4"
  have b: "binade 300 0 x = - 3"
    using lo hi by (intro binade_eighth) simp_all
  have "real_of_int (2 ^ 24 - 1) + 1 / 2 \<le> x * 2 ^ 26"
    using lo by simp
  moreover have "x * 2 ^ 26 < real_of_int (2 ^ 24 - 1) + 1"
    using hi by simp
  moreover have "odd (2 ^ 24 - 1 :: int)"
    by simp
  ultimately have "rne (x * 2 ^ 26) = (2 ^ 24 - 1) + 1"
    by (intro rne_upper_half)
  then have "rne (x * 2 ^ 26) = 2 ^ 24"
    by simp
  moreover have "round32 x = real_of_int (rne (x * 2 ^ 26)) / 2 ^ 26"
    using lo by (simp add: round32_pos b pow2_def)
  ultimately show ?thesis
    by simp
qed

lemma round32_lt_quarter: "round32 x < 1 / 4 \<longleftrightarrow> x < 1 / 4 - 1 / 2 ^ 27"
proof -
  consider "x \<le> 0" | "0 < x" "x < 1 / 8" | "1 / 8 \<le> x" "x < 1 / 4 - 1 / 2 ^ 27"
    | "1 / 4 - 1 / 2 ^ 27 \<le> x" "x < 1 / 4" | "1 / 4 \<le> x"
    by linarith
  then show ?thesis
  proof cases
    case 1
    then show ?thesis using round32_nonpos [of x] by simp
  next
    case 2
    then show ?thesis using round32_tiny [of x] by simp
  next
    case 3
    then show ?thesis using round32_below [of x] by simp
  next
    case 4
    then show ?thesis using round32_tie [of x] by simp
  next
    case 5
    then show ?thesis using round32_ge_quarter [of x] by simp
  qed
qed

lemma round32_0 [simp]: "round32 0 = 0"
  by (simp add: round32_def)

lemma float_sub_self [simp]: "float_sub a a = 0"
  by (simp add: float_sub_def)

lemma float_sub_lt_quarter: "float_sub a b < 1 / 4 \<longleftrightarrow> a - b < 1 / 4 - 1 / 2 ^ 27"
  by (simp only: float_sub_def round32_lt_quarter)

lemma float_sub_sensor:
  "a - b = real_of_int k / 128 \<Longrightarrow> float_sub a b < 1 / 4 \<longleftrightarrow> a - b < 1 / 4"
proof -
  assume d: "a - b = real_of_int k / 128"
  have "real_of_int k / 128 < 1 / 4 - 1 / 2 ^ 27 \<longleftrightarrow> real_of_int k / 128 < 1 / 4"
  proof
    assume "real_of_int k / 128 < 1 / 4 - 1 / 2 ^ 27"
    then show "real_of_int k / 128 < 1 / 4" by simp
  next
    assume "real_of_int k / 128 < 1 / 4"
    then have "real_of_int k < real_of_int 32" by simp
    then have "k < 32" by (simp only: of_int_less_iff)
    then have "k \<le> 31" by simp
    then have "real_of_int k \<le> real_of_int 31" by (simp only: of_int_le_iff)
    then show "real_of_int k / 128 < 1 / 4 - 1 / 2 ^ 27" by simp
  qed
  with d show ?thesis
    by (simp only: float_sub_lt_quarter)
qed

subsection \<open>DesyncMan\<close>

lemma DesyncMan_Update_first:
  "not_inited d \<Longrightarrow>
     DesyncMan_Update now t d =
       (False, \<lparr>start_time = now, start_temp = t, not_inited = False\<rparr>)"
  by (simp add: DesyncMan_Update_def DesyncMan_Begin_def config_defs)

lemma DesyncMan_Update_later:
  "\<not> not_inited d \<Longrightarrow>
     DesyncMan_Update now t d =
       (now - start_time d \<ge> 180000 \<and> float_sub t (start_temp d) < 0.25, d)"
  by (simp add: DesyncMan_Update_def config_defs)

lemma DesyncMan_Updates_later:
  "\<not> not_inited d \<Longrightarrow>
     DesyncMan_Updates cs d =
       (map (\<lambda>(now, t). now - start_time d \<ge> 180000 \<and> float_sub t (start_temp d) < 0.25) cs,
        d)"
  by (induction cs) (auto simp: DesyncMan_Update_later)

subsection \<open>Off and On\<close>

lemma Off_fields [simp]:
  "clock (TempController_Off c w) = clock w"
  "ledman (TempController_Off c w) = ledman w"
  "GLastReadMs (TempController_Off c w) = GLastReadMs w"
  "trace (TempController_Off c w) =
     trace w @ [DigitalWrite (relay_pin (ctrls w c)) RELAY_INACTIVE_STATE]"
  by (simp_all add: TempController_Off_def digitalWrite_def Let_def)

lemma Off_ctrls:
  "ctrls (TempController_Off c w) =
     (ctrls w)(c := (ctrls w c)
        \<lparr>st := (if is_panic (panic w) then OFF else st (ctrls w c)),
         heater_is_off := True\<rparr>)"
  by (simp add: TempController_Off_def digitalWrite_def Let_def Panic_IsPanic_def)

lemma On_fields [simp]:
  "clock (TempController_On c w) = clock w"
  "panic (TempController_On c w) = panic w"
  "ledman (TempController_On c w) = ledman w"
  "GLastReadMs (TempController_On c w) = GLastReadMs w"
  by (simp_all add: TempController_On_def digitalWrite_def Let_def)

subsection \<open>The callbacks\<close>

lemma turns_off_refl [simp]: "turns_off w w"
  by (simp add: turns_off_def)

lemma turns_off_trans: "turns_off w w1 \<Longrightarrow> turns_off w1 w2 \<Longrightarrow> turns_off w w2"
  unfolding turns_off_def
  apply (intro conjI allI)
  apply simp
  apply simp
  apply simp
  apply simp
  apply simp
  apply simp
  apply simp
  apply simp
  apply simp
  apply simp
  apply metis
  apply metis
  apply (elim conjE exE)
  subgoal for es es' by (rule exI [of _ "es @ es'"]) simp
  done

lemma turns_off_Off: "turns_off w (TempController_Off c w)"
  by (simp add: turns_off_def Off_ctrls)

lemma turns_off_call_if_set: "turns_off w (call_if_set cb w)"
proof (cases cb)
  case None
  then show ?thesis by (simp add: call_if_set_def)
next
  case (Some f)
  then show ?thesis by (cases f) (simp add: call_if_set_def turns_off_Off)
qed

lemma turns_off_fold: "turns_off w (fold call_if_set cbs w)"
proof (induction cbs arbitrary: w)
  case Nil
  show ?case by simp
next
  case (Cons cb cbs)
  have "turns_off w (call_if_set cb w)" by (rule turns_off_call_if_set)
  moreover have "turns_off (call_if_set cb w) (fold call_if_set cbs (call_if_set cb w))"
    by (rule Cons.IH)
  ultimately show ?case by (simp add: turns_off_trans)
qed

lemma callbacks_from_fold:
  "callbacks_from i w =
     fold call_if_set (map (callbacks (panic w)) [i..<callback_count (panic w)]) w"
proof (induction i w rule: callbacks_from.induct)
  case (1 i w)
  show ?case
  proof (cases "i < callback_count (panic w)")
    case True
    then have "[i..<callback_count (panic w)] = i # [Suc i..<callback_count (panic w)]"
      by (simp add: upt_conv_Cons)
    with 1 True show ?thesis
      by (subst callbacks_from.simps) simp
  next
    case False
    then show ?thesis
      by (subst callbacks_from.simps) simp
  qed
qed

lemma StartPanic_latched: "is_panic (panic w) \<Longrightarrow> Panic_StartPanic r u l w = w"
  by (simp add: Panic_StartPanic_def)

lemma StartPanic_first:
  "\<not> is_panic (panic w) \<Longrightarrow>
     Panic_StartPanic r u l w = fold call_if_set (registered_callbacks w) (latch r u l w)"
  by (simp add: Panic_StartPanic_def callbacks_from_fold registered_callbacks_def latch_def
      millis_def)

lemma turns_off_StartPanic:
  "turns_off (if is_panic (panic w) then w else latch r u l w) (Panic_StartPanic r u l w)"
  by (simp add: StartPanic_latched StartPanic_first turns_off_fold)

lemma is_panic_StartPanic [simp]: "is_panic (panic (Panic_StartPanic r u l w))"
  using turns_off_StartPanic [of w r u l]
  by (auto simp: turns_off_def latch_def split: if_splits)

subsection \<open>StartPanic, field by field\<close>

lemma latch_fields [simp]:
  "clock (latch r u l w) = clock w"
  "ledman (latch r u l w) = ledman w"
  "GLastReadMs (latch r u l w) = GLastReadMs w"
  "ctrls (latch r u l w) = ctrls w"
  "trace (latch r u l w) = trace w"
  "is_panic (panic (latch r u l w))"
  "callbacks (panic (latch r u l w)) = callbacks (panic w)"
  "callback_count (panic (latch r u l w)) = callback_count (panic w)"
  "panic_info (panic (latch r u l w)) = \<lparr>ms = clock w, line = l, uid = u, reason = r\<rparr>"
  by (simp_all add: latch_def)

lemma turns_off_frame:
  assumes "turns_off w w'"
  shows "clock w' = clock w" and "panic w' = panic w" and "ledman w' = ledman w"
    and "GLastReadMs w' = GLastReadMs w"
    and "ctrl_uid (ctrls w' c) = ctrl_uid (ctrls w c)"
    and "target (ctrls w' c) = target (ctrls w c)"
    and "max_temp (ctrls w' c) = max_temp (ctrls w c)"
    and "relay_pin (ctrls w' c) = relay_pin (ctrls w c)"
    and "desync_man (ctrls w' c) = desync_man (ctrls w c)"
  using assms unfolding turns_off_def by blast+

lemma turns_off_ctrl:
  assumes "turns_off w w'"
  shows "st (ctrls w' c) = st (ctrls w c) \<or>
         (st (ctrls w' c) = OFF \<and> heater_is_off (ctrls w' c) \<and> is_panic (panic w))"
    and "heater_is_off (ctrls w c) \<Longrightarrow> heater_is_off (ctrls w' c)"
    and "ctrls w' c = ctrls w c \<or> heater_is_off (ctrls w' c)"
  using assms unfolding turns_off_def by blast+

lemma turns_off_trace:
  assumes "turns_off w w'"
  shows "\<exists>es. trace w' = trace w @ es \<and> list_all is_inactive_write es"
  using assms unfolding turns_off_def by blast

lemma turns_off_latch_StartPanic:
  "\<not> is_panic (panic w) \<Longrightarrow> turns_off (latch r u l w) (Panic_StartPanic r u l w)"
  using turns_off_StartPanic [of w r u l] by simp

lemma StartPanic_frame:
  "clock (Panic_StartPanic r u l w) = clock w \<and>
   ledman (Panic_StartPanic r u l w) = ledman w \<and>
   GLastReadMs (Panic_StartPanic r u l w) = GLastReadMs w \<and>
   callbacks (panic (Panic_StartPanic r u l w)) = callbacks (panic w) \<and>
   callback_count (panic (Panic_StartPanic r u l w)) = callback_count (panic w) \<and>
   ctrl_uid (ctrls (Panic_StartPanic r u l w) c) = ctrl_uid (ctrls w c) \<and>
   target (ctrls (Panic_StartPanic r u l w) c) = target (ctrls w c) \<and>
   max_temp (ctrls (Panic_StartPanic r u l w) c) = max_temp (ctrls w c) \<and>
   relay_pin (ctrls (Panic_StartPanic r u l w) c) = relay_pin (ctrls w c) \<and>
   desync_man (ctrls (Panic_StartPanic r u l w) c) = desync_man (ctrls w c)"
proof (cases "is_panic (panic w)")
  case True
  then show ?thesis by (simp add: StartPanic_latched)
next
  case False
  note f = turns_off_frame [OF turns_off_latch_StartPanic [OF False, of r u l]]
  show ?thesis by (simp add: f)
qed

lemma StartPanic_fields [simp]:
  "clock (Panic_StartPanic r u l w) = clock w"
  "ledman (Panic_StartPanic r u l w) = ledman w"
  "GLastReadMs (Panic_StartPanic r u l w) = GLastReadMs w"
  "callbacks (panic (Panic_StartPanic r u l w)) = callbacks (panic w)"
  "callback_count (panic (Panic_StartPanic r u l w)) = callback_count (panic w)"
  "ctrl_uid (ctrls (Panic_StartPanic r u l w) c) = ctrl_uid (ctrls w c)"
  "target (ctrls (Panic_StartPanic r u l w) c) = target (ctrls w c)"
  "max_temp (ctrls (Panic_StartPanic r u l w) c) = max_temp (ctrls w c)"
  "relay_pin (ctrls (Panic_StartPanic r u l w) c) = relay_pin (ctrls w c)"
  "desync_man (ctrls (Panic_StartPanic r u l w) c) = desync_man (ctrls w c)"
  using StartPanic_frame [of r u l w c] by blast+

lemma StartPanic_panic_info:
  "panic_info (panic (Panic_StartPanic r u l w)) =
     (if is_panic (panic w) then panic_info (panic w)
      else \<lparr>ms = clock w, line = l, uid = u, reason = r\<rparr>)"
proof (cases "is_panic (panic w)")
  case True
  then show ?thesis by (simp add: StartPanic_latched)
next
  case False
  then show ?thesis
    by (simp add: turns_off_frame(2) [OF turns_off_latch_StartPanic [OF False]])
qed

lemma StartPanic_heater:
  "heater_is_off (ctrls w c) \<Longrightarrow> heater_is_off (ctrls (Panic_StartPanic r u l w) c)"
proof (cases "is_panic (panic w)")
  case True
  assume "heater_is_off (ctrls w c)"
  with True show ?thesis by (simp add: StartPanic_latched)
next
  case False
  assume "heater_is_off (ctrls w c)"
  with turns_off_ctrl(2) [OF turns_off_latch_StartPanic [OF False, of r u l], of c]
  show ?thesis by simp
qed

lemma StartPanic_trace:
  "\<exists>es. trace (Panic_StartPanic r u l w) = trace w @ es \<and> list_all is_inactive_write es"
proof (cases "is_panic (panic w)")
  case True
  then show ?thesis by (simp add: StartPanic_latched)
next
  case False
  with turns_off_trace [OF turns_off_latch_StartPanic [OF False, of r u l]]
  show ?thesis by simp
qed

lemma StartPanic_safe:
  assumes "off_is_safe w c"
  shows "off_is_safe (Panic_StartPanic r u l w) c"
proof (cases "is_panic (panic w)")
  case True
  with assms show ?thesis by (simp add: StartPanic_latched)
next
  case False
  then have t: "turns_off (latch r u l w) (Panic_StartPanic r u l w)"
    using turns_off_StartPanic [of w r u l] by simp
  from assms have "off_is_safe (latch r u l w) c"
    by (auto simp: off_is_safe_def)
  with turns_off_ctrl(1,2) [OF t, of c] turns_off_frame(2) [OF t] show ?thesis
    by (auto simp: off_is_safe_def)
qed

lemma Off_safe:
  assumes "off_is_safe w c'"
  shows "off_is_safe (TempController_Off c w) c'"
  using assms by (auto simp: off_is_safe_def Off_ctrls)

lemma Off_after_StartPanic:
  "st (ctrls (TempController_Off c (Panic_StartPanic r u l w)) c) = OFF"
  "heater_is_off (ctrls (TempController_Off c (Panic_StartPanic r u l w)) c)"
  "is_panic (panic (TempController_Off c (Panic_StartPanic r u l w)))"
  by (simp_all add: Off_ctrls)

subsection \<open>Update and Loop\<close>

lemma Update_fields [simp]:
  "clock (TempController_Update c t w) = clock w"
  "ledman (TempController_Update c t w) = ledman w"
  "GLastReadMs (TempController_Update c t w) = GLastReadMs w"
  "callbacks (panic (TempController_Update c t w)) = callbacks (panic w)"
  "callback_count (panic (TempController_Update c t w)) = callback_count (panic w)"
  by (simp_all add: TempController_Update_def Let_def split: prod.splits)

lemma Update_latched:
  "is_panic (panic w) \<Longrightarrow> panic (TempController_Update c t w) = panic w"
  by (simp add: TempController_Update_def Let_def StartPanic_latched split: prod.splits)

lemma set_desync_safe [simp]:
  "off_is_safe (w\<lparr>ctrls := (ctrls w)(c := (ctrls w c)\<lparr>desync_man := d\<rparr>)\<rparr>) c' = off_is_safe w c'"
  by (simp add: off_is_safe_def)

lemma set_st_safe:
  "s \<noteq> OFF \<Longrightarrow> off_is_safe w c' \<Longrightarrow>
     off_is_safe (w\<lparr>ctrls := (ctrls w)(c := (ctrls w c)\<lparr>st := s\<rparr>)\<rparr>) c'"
  by (simp add: off_is_safe_def)

lemma On_then_heating_safe:
  "off_is_safe w c' \<Longrightarrow>
     off_is_safe
       ((TempController_On c w)
          \<lparr>ctrls := (ctrls (TempController_On c w))
             (c := (ctrls (TempController_On c w) c)\<lparr>st := HEATING\<rparr>)\<rparr>) c'"
  by (simp add: off_is_safe_def TempController_On_def digitalWrite_def Let_def)

lemma Update_safe:
  assumes "off_is_safe w c'"
  shows "off_is_safe (TempController_Update c t w) c'"
proof -
  obtain desync d1 where d: "DesyncMan_Update (millis w) t (desync_man (ctrls w c)) = (desync, d1)"
    by (cases "DesyncMan_Update (millis w) t (desync_man (ctrls w c))")
  let ?w1 = "w\<lparr>ctrls := (ctrls w)(c := (ctrls w c)\<lparr>desync_man := d1\<rparr>)\<rparr>"
  have s1: "off_is_safe ?w1 c'" using assms by simp
  consider (off) "st (ctrls w c) = OFF"
    | (over) "st (ctrls w c) \<noteq> OFF" "t \<ge> max_temp (ctrls w c)"
    | (heating) "st (ctrls w c) = HEATING" "\<not> t \<ge> max_temp (ctrls w c)"
    | (cooling) "st (ctrls w c) = COOLING" "\<not> t \<ge> max_temp (ctrls w c)"
    by (cases "st (ctrls w c)") auto
  then show ?thesis
  proof cases
    case off
    with assms show ?thesis by (simp add: TempController_Update_def)
  next
    case over
    with assms show ?thesis
      by (simp add: TempController_Update_def Off_safe StartPanic_safe)
  next
    case heating
    show ?thesis
    proof (cases desync)
      case True
      with heating d s1 show ?thesis
        by (simp add: TempController_Update_def Off_safe StartPanic_safe)
    next
      case False
      with heating d s1 show ?thesis
        by (simp add: TempController_Update_def Off_safe set_st_safe Let_def)
    qed
  next
    case cooling
    with assms show ?thesis
      by (simp add: TempController_Update_def On_then_heating_safe Let_def)
  qed
qed

lemma Loop_safe:
  assumes "off_is_safe w c'"
  shows "off_is_safe (TempController_Loop c t w) c'"
  using assms by (simp add: TempController_Loop_def StartPanic_safe Update_safe)

lemma Loop_fields [simp]:
  "clock (TempController_Loop c t w) = clock w"
  "ledman (TempController_Loop c t w) = ledman w"
  "GLastReadMs (TempController_Loop c t w) = GLastReadMs w"
  "callbacks (panic (TempController_Loop c t w)) = callbacks (panic w)"
  "callback_count (panic (TempController_Loop c t w)) = callback_count (panic w)"
  by (simp_all add: TempController_Loop_def)

lemma Loop_latched: "is_panic (panic w) \<Longrightarrow> TempController_Loop c t w = w"
  by (simp add: TempController_Loop_def Panic_IsPanic_def)

subsection \<open>LEDMan\<close>

lemma registry_ok_iff:
  "registry_ok w \<longleftrightarrow>
     num_controllers (ledman w) \<le> MAX_CONTROLLERS \<and>
     (\<forall>i < num_controllers (ledman w). controllers (ledman w) i \<noteq> None)"
  by (auto simp: registry_ok_def list_all_iff)

lemma any_heating_from_Some:
  assumes "i + n \<le> MAX_CONTROLLERS"
    and "\<forall>j. i \<le> j \<and> j < i + n \<longrightarrow> controllers (ledman w) j \<noteq> None"
  shows "any_heating_from w i n acc =
           Some (acc \<or> (\<exists>j. i \<le> j \<and> j < i + n \<and>
                   TempController_IsHeating (ctrls w (the (controllers (ledman w) j)))))"
  using assms
proof (induction n arbitrary: i acc)
  case 0
  show ?case by auto
next
  case (Suc n)
  have p1: "Suc i + n \<le> MAX_CONTROLLERS"
    using Suc.prems(1) by simp
  have p2: "\<forall>j. Suc i \<le> j \<and> j < Suc i + n \<longrightarrow> controllers (ledman w) j \<noteq> None"
  proof (intro allI impI)
    fix j
    assume "Suc i \<le> j \<and> j < Suc i + n"
    then have "i \<le> j \<and> j < i + Suc n" by simp
    with Suc.prems(2) show "controllers (ledman w) j \<noteq> None" by blast
  qed
  have "controllers (ledman w) i \<noteq> None"
    using Suc.prems(2) [rule_format, of i] by simp
  then obtain c where c: "controllers (ledman w) i = Some c"
    by blast
  have lt: "\<not> i \<ge> MAX_CONTROLLERS"
    using Suc.prems(1) by simp
  have "any_heating_from w (Suc i) n (acc \<or> TempController_IsHeating (ctrls w c)) =
          Some ((acc \<or> TempController_IsHeating (ctrls w c)) \<or>
                (\<exists>j. Suc i \<le> j \<and> j < Suc i + n \<and>
                   TempController_IsHeating (ctrls w (the (controllers (ledman w) j)))))"
    by (rule Suc.IH [OF p1 p2])
  moreover have "(\<exists>j. i \<le> j \<and> j < i + Suc n \<and>
                   TempController_IsHeating (ctrls w (the (controllers (ledman w) j)))) \<longleftrightarrow>
                 (TempController_IsHeating (ctrls w c) \<or>
                  (\<exists>j. Suc i \<le> j \<and> j < Suc i + n \<and>
                   TempController_IsHeating (ctrls w (the (controllers (ledman w) j)))))"
    (is "?L \<longleftrightarrow> ?R")
  proof
    assume ?L
    then obtain j where j: "i \<le> j" "j < i + Suc n"
      "TempController_IsHeating (ctrls w (the (controllers (ledman w) j)))" by blast
    show ?R
    proof (cases "j = i")
      case True
      with j c show ?thesis by simp
    next
      case False
      with j have "Suc i \<le> j" "j < Suc i + n" by simp_all
      with j show ?thesis by blast
    qed
  next
    assume ?R
    then show ?L
    proof
      assume "TempController_IsHeating (ctrls w c)"
      with c show ?L by (intro exI [of _ i]) simp
    next
      assume "\<exists>j. Suc i \<le> j \<and> j < Suc i + n \<and>
                   TempController_IsHeating (ctrls w (the (controllers (ledman w) j)))"
      then obtain j where "Suc i \<le> j" "j < Suc i + n"
        "TempController_IsHeating (ctrls w (the (controllers (ledman w) j)))" by blast
      then show ?L by (intro exI [of _ j]) simp
    qed
  qed
  ultimately show ?case
    using c lt by simp
qed

lemma new_state_Some:
  assumes "registry_ok w"
  shows "LEDMan_new_state w =
           Some (if is_panic (panic w) then 0
                 else if \<exists>j < num_controllers (ledman w).
                           TempController_IsHeating (ctrls w (the (controllers (ledman w) j)))
                      then 1 else 2)"
proof -
  from assms have "any_heating_from w 0 (num_controllers (ledman w)) False =
      Some (False \<or> (\<exists>j. 0 \<le> j \<and> j < 0 + num_controllers (ledman w) \<and>
                   TempController_IsHeating (ctrls w (the (controllers (ledman w) j)))))"
    by (intro any_heating_from_Some) (simp_all add: registry_ok_iff)
  then show ?thesis
    by (simp add: LEDMan_new_state_def Panic_IsPanic_def)
qed

lemma new_state_latched: "is_panic (panic w) \<Longrightarrow> LEDMan_new_state w = Some 0"
  by (simp add: LEDMan_new_state_def Panic_IsPanic_def)

lemma UpdateState_frame:
  assumes "LEDMan_UpdateState w = Some w'"
  shows "clock w' = clock w" and "panic w' = panic w" and "ctrls w' = ctrls w"
    and "GLastReadMs w' = GLastReadMs w" and "trace w' = trace w"
    and "controllers (ledman w') = controllers (ledman w)"
    and "num_controllers (ledman w') = num_controllers (ledman w)"
  using assms
  by (auto simp: LEDMan_UpdateState_def split: option.splits if_splits)

lemma Update_LED_frame:
  assumes "LEDMan_Update w = Some w'"
  shows "clock w' = clock w" and "panic w' = panic w" and "ctrls w' = ctrls w"
    and "GLastReadMs w' = GLastReadMs w"
    and "controllers (ledman w') = controllers (ledman w)"
    and "num_controllers (ledman w') = num_controllers (ledman w)"
    and "trace w' = trace w @ [DigitalWrite LED_BUILTIN (if ledOn (ledman w') then HIGH else LOW)]"
  using assms UpdateState_frame [of w]
  by (auto simp: LEDMan_Update_def Let_def digitalWrite_def split: option.splits if_splits)

lemma UpdateState_total:
  "registry_ok w \<or> is_panic (panic w) \<Longrightarrow> \<exists>w'. LEDMan_UpdateState w = Some w'"
  by (auto simp: LEDMan_UpdateState_def new_state_Some new_state_latched)

lemma Update_LED_total:
  "registry_ok w \<or> is_panic (panic w) \<Longrightarrow> \<exists>w'. LEDMan_Update w = Some w'"
  using UpdateState_total [of w]
  by (auto simp: LEDMan_Update_def Let_def)

lemma loop_total:
  "registry_ok w \<or> is_panic (panic w) \<Longrightarrow> \<exists>w'. loop t_nico t_trap w = Some w'"
  using Update_LED_total [of w]
  by (auto simp: loop_def Let_def)

subsection \<open>The three invariants, call by call\<close>

lemma keeps_latch_refl [simp]: "keeps_latch w w"
  by (simp add: keeps_latch_def)

lemma keeps_latch_trans: "keeps_latch w w1 \<Longrightarrow> keeps_latch w1 w2 \<Longrightarrow> keeps_latch w w2"
  by (simp add: keeps_latch_def)

lemma Init_fields [simp]:
  "clock (Panic_Init cbs w) = clock w"
  "ledman (Panic_Init cbs w) = ledman w"
  "ctrls (Panic_Init cbs w) = ctrls w"
  "GLastReadMs (Panic_Init cbs w) = GLastReadMs w"
  "trace (Panic_Init cbs w) = trace w"
  "is_panic (panic (Panic_Init cbs w)) = is_panic (panic w)"
  "panic_info (panic (Panic_Init cbs w)) = panic_info (panic w)"
  "callback_count (panic (Panic_Init cbs w)) = length cbs"
  by (simp_all add: Panic_Init_def)

lemma Begin_fields [simp]:
  "clock (TempController_Begin c w) = clock w"
  "panic (TempController_Begin c w) = panic w"
  "ledman (TempController_Begin c w) = ledman w"
  "ctrls (TempController_Begin c w) = ctrls w"
  "GLastReadMs (TempController_Begin c w) = GLastReadMs w"
  by (simp_all add: TempController_Begin_def digitalWrite_def pinModeOutput_def)

lemma pinModeOutput_fields [simp]:
  "clock (pinModeOutput p w) = clock w"
  "panic (pinModeOutput p w) = panic w"
  "ledman (pinModeOutput p w) = ledman w"
  "ctrls (pinModeOutput p w) = ctrls w"
  "GLastReadMs (pinModeOutput p w) = GLastReadMs w"
  by (simp_all add: pinModeOutput_def)

lemma advance_fields [simp]:
  "panic (advance d w) = panic w"
  "ledman (advance d w) = ledman w"
  "ctrls (advance d w) = ctrls w"
  "GLastReadMs (advance d w) = GLastReadMs w"
  "trace (advance d w) = trace w"
  by (simp_all add: advance_def)

lemma Register_fail:
  "tc = None \<or> num_controllers (ledman w) \<ge> MAX_CONTROLLERS \<Longrightarrow>
     LEDMan_Register tc w = Panic_StartPanic LEDRegisterFail 0 209 w"
  by (simp add: LEDMan_Register_def)

lemma Register_ok:
  "num_controllers (ledman w) < MAX_CONTROLLERS \<Longrightarrow>
     LEDMan_Register (Some c) w =
       w\<lparr>ledman := (ledman w)
           \<lparr>controllers := (controllers (ledman w))(num_controllers (ledman w) := Some c),
            num_controllers := num_controllers (ledman w) + 1\<rparr>\<rparr>"
  by (simp add: LEDMan_Register_def)

lemma Register_cases:
  obtains (fail) "LEDMan_Register tc w = Panic_StartPanic LEDRegisterFail 0 209 w"
  | (ok) c where "tc = Some c" "num_controllers (ledman w) < MAX_CONTROLLERS"
      "LEDMan_Register tc w =
         w\<lparr>ledman := (ledman w)
             \<lparr>controllers := (controllers (ledman w))(num_controllers (ledman w) := Some c),
              num_controllers := num_controllers (ledman w) + 1\<rparr>\<rparr>"
proof (cases "tc = None \<or> num_controllers (ledman w) \<ge> MAX_CONTROLLERS")
  case True
  then show ?thesis by (intro fail Register_fail)
next
  case False
  then obtain c where c: "tc = Some c" "num_controllers (ledman w) < MAX_CONTROLLERS"
    by auto
  then show ?thesis by (intro ok [of c]) (simp_all add: Register_ok)
qed

lemma Register_safe:
  assumes "off_is_safe w c"
  shows "off_is_safe (LEDMan_Register tc w) c"
proof (cases tc w rule: Register_cases)
  case fail
  with assms show ?thesis by (simp add: StartPanic_safe)
next
  case (ok c')
  with assms show ?thesis by (simp add: off_is_safe_def)
qed

lemma Register_keeps_latch: "keeps_latch w (LEDMan_Register tc w)"
proof (cases tc w rule: Register_cases)
  case fail
  then show ?thesis by (simp add: keeps_latch_def StartPanic_latched)
next
  case (ok c')
  then show ?thesis by (simp add: keeps_latch_def)
qed

lemma Register_registry:
  assumes "registry_ok w"
  shows "registry_ok (LEDMan_Register tc w)"
proof (cases tc w rule: Register_cases)
  case fail
  with assms show ?thesis by (simp add: registry_ok_def)
next
  case (ok c')
  with assms show ?thesis by (auto simp: registry_ok_iff less_Suc_eq)
qed

lemma setup_safe: "off_is_safe w c \<Longrightarrow> off_is_safe (arduino_setup w) c"
  unfolding arduino_setup_def
  by (intro Register_safe) (simp add: off_is_safe_def)

lemma setup_keeps_latch: "keeps_latch w (arduino_setup w)"
  unfolding arduino_setup_def
  by (rule keeps_latch_trans [OF _ Register_keeps_latch],
      rule keeps_latch_trans [OF _ Register_keeps_latch])
     (simp add: keeps_latch_def)

lemma setup_registry: "registry_ok w \<Longrightarrow> registry_ok (arduino_setup w)"
  unfolding arduino_setup_def
  by (intro Register_registry) (simp add: registry_ok_def)

lemma loop_frame:
  assumes "loop t_nico t_trap w = Some w'"
  shows "controllers (ledman w') = controllers (ledman w)"
    and "num_controllers (ledman w') = num_controllers (ledman w)"
    and "keeps_latch w w'"
    and "off_is_safe w c \<Longrightarrow> off_is_safe w' c"
proof -
  from assms obtain w1 where w1: "LEDMan_Update w = Some w1"
    by (auto simp: loop_def split: option.splits)
  note f = Update_LED_frame [OF w1]
  let ?w2 = "w1\<lparr>GLastReadMs := millis w1\<rparr>"
  from assms w1 have w': "w' = w1 \<or> w' = ?w2 \<or>
      w' = TempController_Loop trap t_trap (TempController_Loop nico t_nico ?w2)"
    by (auto simp: loop_def Let_def split: if_splits)
  then show "controllers (ledman w') = controllers (ledman w)"
    and "num_controllers (ledman w') = num_controllers (ledman w)"
    using f by auto
  show "keeps_latch w w'"
    using w' f by (auto simp: keeps_latch_def Loop_latched)
  assume "off_is_safe w c"
  then have "off_is_safe w1 c" using f by (simp add: off_is_safe_def)
  then have "off_is_safe ?w2 c" by (simp add: off_is_safe_def)
  from this \<open>off_is_safe w1 c\<close> w' show "off_is_safe w' c"
    by (auto intro!: Loop_safe)
qed

lemma exec_safe:
  assumes "exec a w = Some w'" and "off_is_safe w c"
  shows "off_is_safe w' c"
proof (cases a)
  case (CallInit cbs)
  with assms show ?thesis by (auto simp: off_is_safe_def)
next
  case (CallStartPanic r u l)
  with assms show ?thesis by (auto simp: StartPanic_safe)
next
  case (CallRegister tc)
  with assms show ?thesis by (auto simp: Register_safe)
next
  case CallUpdateState
  with assms UpdateState_frame [of w w'] show ?thesis by (simp add: off_is_safe_def)
next
  case CallLEDUpdate
  with assms Update_LED_frame [of w w'] show ?thesis by (simp add: off_is_safe_def)
next
  case (CallBegin c')
  with assms show ?thesis by (auto simp: off_is_safe_def)
next
  case (CallOff c')
  with assms show ?thesis by (auto simp: Off_safe)
next
  case (CallUpdate c' t)
  with assms show ?thesis by (auto simp: Update_safe)
next
  case (CallLoop c' t)
  with assms show ?thesis by (auto simp: Loop_safe)
next
  case CallSetup
  with assms show ?thesis by (auto simp: setup_safe)
next
  case (CallLoopPass t1 t2)
  with assms loop_frame(4) [of t1 t2 w w' c] show ?thesis by simp
next
  case (Elapse d)
  with assms show ?thesis by (auto simp: off_is_safe_def)
qed

lemma exec_keeps_latch:
  assumes "exec a w = Some w'"
  shows "keeps_latch w w'"
proof (cases a)
  case (CallInit cbs)
  with assms show ?thesis by (auto simp: keeps_latch_def)
next
  case (CallStartPanic r u l)
  with assms show ?thesis by (auto simp: keeps_latch_def StartPanic_latched)
next
  case (CallRegister tc)
  with assms show ?thesis by (auto simp: Register_keeps_latch)
next
  case CallUpdateState
  with assms UpdateState_frame [of w w'] show ?thesis by (simp add: keeps_latch_def)
next
  case CallLEDUpdate
  with assms Update_LED_frame [of w w'] show ?thesis by (simp add: keeps_latch_def)
next
  case (CallBegin c')
  with assms show ?thesis by (auto simp: keeps_latch_def)
next
  case (CallOff c')
  with assms show ?thesis by (auto simp: keeps_latch_def)
next
  case (CallUpdate c' t)
  with assms show ?thesis by (auto simp: keeps_latch_def Update_latched)
next
  case (CallLoop c' t)
  with assms show ?thesis by (auto simp: keeps_latch_def Loop_latched)
next
  case CallSetup
  with assms show ?thesis by (auto simp: setup_keeps_latch)
next
  case (CallLoopPass t1 t2)
  with assms loop_frame(3) [of t1 t2 w w'] show ?thesis by simp
next
  case (Elapse d)
  with assms show ?thesis by (auto simp: keeps_latch_def)
qed

lemma exec_registry:
  assumes "exec a w = Some w'" and "registry_ok w"
  shows "registry_ok w'"
proof (cases a)
  case (CallInit cbs)
  with assms show ?thesis by (auto simp: registry_ok_def)
next
  case (CallStartPanic r u l)
  with assms show ?thesis by (auto simp: registry_ok_def)
next
  case (CallRegister tc)
  with assms show ?thesis by (auto simp: Register_registry)
next
  case CallUpdateState
  with assms UpdateState_frame [of w w'] show ?thesis by (simp add: registry_ok_def)
next
  case CallLEDUpdate
  with assms Update_LED_frame [of w w'] show ?thesis by (simp add: registry_ok_def)
next
  case (CallBegin c')
  with assms show ?thesis by (auto simp: registry_ok_def)
next
  case (CallOff c')
  with assms show ?thesis by (auto simp: registry_ok_def)
next
  case (CallUpdate c' t)
  with assms show ?thesis by (auto simp: registry_ok_def)
next
  case (CallLoop c' t)
  with assms show ?thesis by (auto simp: registry_ok_def)
next
  case CallSetup
  with assms show ?thesis by (auto simp: setup_registry)
next
  case (CallLoopPass t1 t2)
  with assms loop_frame(1,2) [of t1 t2 w w'] show ?thesis by (simp add: registry_ok_def)
next
  case (Elapse d)
  with assms show ?thesis by (auto simp: registry_ok_def)
qed

lemma exec_total:
  assumes "registry_ok w \<or> is_panic (panic w)"
  shows "\<exists>w'. exec a w = Some w'"
  using assms UpdateState_total [of w] Update_LED_total [of w] loop_total [of w]
  by (cases a) auto

subsection \<open>Sequences of calls\<close>

lemma execs_invariants:
  assumes "registry_ok w \<or> is_panic (panic w)"
  shows "\<exists>w'. execs cs w = Some w' \<and> keeps_latch w w' \<and>
           (registry_ok w \<longrightarrow> registry_ok w') \<and>
           (off_is_safe w nico \<longrightarrow> off_is_safe w' nico) \<and>
           (off_is_safe w trap \<longrightarrow> off_is_safe w' trap)"
  using assms
proof (induction cs arbitrary: w)
  case Nil
  show ?case by simp
next
  case (Cons a cs)
  from exec_total [OF Cons.prems, of a] obtain w1 where w1: "exec a w = Some w1" ..
  note k = exec_keeps_latch [OF w1]
  have "registry_ok w1 \<or> is_panic (panic w1)"
    using Cons.prems exec_registry [OF w1] k by (auto simp: keeps_latch_def)
  from Cons.IH [OF this] obtain w' where w': "execs cs w1 = Some w'" "keeps_latch w1 w'"
    "registry_ok w1 \<longrightarrow> registry_ok w'"
    "off_is_safe w1 nico \<longrightarrow> off_is_safe w' nico"
    "off_is_safe w1 trap \<longrightarrow> off_is_safe w' trap" by blast
  show ?case
  proof (intro exI [of _ w'] conjI impI)
    show "execs (a # cs) w = Some w'" using w1 w' by simp
    show "keeps_latch w w'" using k w'(2) by (rule keeps_latch_trans)
    show "registry_ok w'" if "registry_ok w" using that exec_registry [OF w1] w'(3) by simp
    show "off_is_safe w' nico" if "off_is_safe w nico"
      using that exec_safe [OF w1] w'(4) by simp
    show "off_is_safe w' trap" if "off_is_safe w trap"
      using that exec_safe [OF w1] w'(5) by simp
  qed
qed

lemma execs_StartPanics:
  "is_panic (panic w) \<Longrightarrow> list_all is_StartPanic cs \<Longrightarrow> execs cs w = Some w"
proof (induction cs)
  case Nil
  show ?case by simp
next
  case (Cons a cs)
  then show ?case by (cases a) (simp_all add: StartPanic_latched)
qed

subsection \<open>The callbacks in the trace\<close>

lemma callback_events_cong:
  "(\<And>c. relay_pin (ctrls w' c) = relay_pin (ctrls w c)) \<Longrightarrow>
     callback_events w' = callback_events w"
  by (rule ext) (simp add: callback_events_def split: option.splits Callback.splits)

lemma trace_call_if_set:
  "trace (call_if_set cb w) = trace w @ callback_events w cb"
  by (simp add: call_if_set_def callback_events_def split: option.splits Callback.splits)

lemma trace_fold_call_if_set:
  "trace (fold call_if_set cbs w) = trace w @ concat (map (callback_events w) cbs)"
proof (induction cbs arbitrary: w)
  case Nil
  show ?case by simp
next
  case (Cons cb cbs)
  have "callback_events (call_if_set cb w) = callback_events w"
    by (rule callback_events_cong) (rule turns_off_frame(8) [OF turns_off_call_if_set])
  then show ?case by (simp add: Cons.IH trace_call_if_set)
qed

lemma registered_callbacks_Init: "registered_callbacks (Panic_Init cbs w) = cbs"
proof -
  have "map (\<lambda>i. if i < length cbs then cbs ! i else callbacks (panic w) i) [0..<length cbs] =
        map ((!) cbs) [0..<length cbs]"
    by (rule map_cong) simp_all
  then show ?thesis by (simp add: registered_callbacks_def Panic_Init_def map_nth)
qed

lemma registered_callbacks_latch [simp]:
  "registered_callbacks (latch r u l w) = registered_callbacks w"
  by (simp add: registered_callbacks_def)

subsection \<open>The sketch after its setup\<close>

lemmas setup_defs =
  arduino_setup_def LEDMan_Register_def Panic_Init_def TempController_Begin_def
  pinModeOutput_def digitalWrite_def globals_def TempController_new_def DesyncMan_init_def

lemma booted_panic:
  "is_panic (panic (arduino_setup globals)) = False"
  "callback_count (panic (arduino_setup globals)) = 2"
  "callbacks (panic (arduino_setup globals)) 0 = Some (OffLambda nico)"
  "callbacks (panic (arduino_setup globals)) (Suc 0) = Some (OffLambda trap)"
  "panic_info (panic (arduino_setup globals)) = \<lparr>ms = 0, line = 0, uid = 0, reason = PanicNone\<rparr>"
  by (simp_all add: setup_defs config_defs)

lemma booted_registered:
  "registered_callbacks (arduino_setup globals) = [Some (OffLambda nico), Some (OffLambda trap)]"
  by (simp add: registered_callbacks_def booted_panic numeral_2_eq_2)

lemma booted_fields:
  "clock (arduino_setup globals) = 0"
  "GLastReadMs (arduino_setup globals) = 0"
  "ctrls (arduino_setup globals) nico =
     \<lparr>ctrl_uid = 1, st = COOLING, heater_is_off = True, target = 24, max_temp = 28,
      relay_pin = 8, desync_man = \<lparr>start_time = 0, start_temp = 0, not_inited = True\<rparr>\<rparr>"
  "ctrls (arduino_setup globals) trap =
     \<lparr>ctrl_uid = 2, st = COOLING, heater_is_off = True, target = 25, max_temp = 28,
      relay_pin = 12, desync_man = \<lparr>start_time = 0, start_temp = 0, not_inited = True\<rparr>\<rparr>"
  "trace (arduino_setup globals) =
     [PinModeOutput 13, PinModeOutput 8, DigitalWrite 8 LOW, PinModeOutput 12,
      DigitalWrite 12 LOW]"
  "num_controllers (ledman (arduino_setup globals)) = 2"
  "controllers (ledman (arduino_setup globals)) 0 = Some nico"
  "controllers (ledman (arduino_setup globals)) (Suc 0) = Some trap"
  "currentStateIndex (ledman (arduino_setup globals)) = 0"
  "ledOn (ledman (arduino_setup globals)) = False"
  "lastToggleMs (ledman (arduino_setup globals)) = 0"
  by (simp_all add: setup_defs config_defs)

lemma booted_registry: "registry_ok (arduino_setup globals)"
  by (simp add: registry_ok_def booted_fields config_defs numeral_2_eq_2)

subsection \<open>What a fault writes\<close>

lemma fold_call_if_set_untouched:
  "Some (OffLambda c) \<notin> set cbs \<Longrightarrow> ctrls (fold call_if_set cbs w) c = ctrls w c"
proof (induction cbs arbitrary: w)
  case Nil
  show ?case by simp
next
  case (Cons cb cbs)
  have "ctrls (call_if_set cb w) c = ctrls w c"
  proof (cases cb)
    case None
    then show ?thesis by (simp add: call_if_set_def)
  next
    case (Some f)
    with Cons.prems show ?thesis
      by (cases f) (auto simp: call_if_set_def Off_ctrls)
  qed
  with Cons show ?case by simp
qed

lemma trace_StartPanic_first:
  assumes "\<not> is_panic (panic w)"
  shows "trace (Panic_StartPanic r u l w) =
           trace w @ concat (map (callback_events w) (registered_callbacks w))"
proof -
  have "callback_events (latch r u l w) = callback_events w"
    by (rule callback_events_cong) simp
  with assms show ?thesis
    by (simp add: StartPanic_first trace_fold_call_if_set)
qed

lemma new_events_append:
  "trace w' = trace w @ es \<Longrightarrow> new_events w w' = es"
  by (simp add: new_events_def)

lemma Update_over_max:
  "st (ctrls w c) \<noteq> OFF \<Longrightarrow> t \<ge> max_temp (ctrls w c) \<Longrightarrow>
     TempController_Update c t w =
       TempController_Off c (Panic_StartPanic OverMax (ctrl_uid (ctrls w c)) 358 w)"
  by (simp add: TempController_Update_def)

lemma Off_StartPanic_trace:
  "\<exists>es. trace (TempController_Off c (Panic_StartPanic r u l w)) = trace w @ es \<and>
        list_all is_inactive_write es"
proof -
  from StartPanic_trace [of r u l w] obtain es where
    es: "trace (Panic_StartPanic r u l w) = trace w @ es" "list_all is_inactive_write es"
    by blast
  show ?thesis
    by (rule exI [of _ "es @ [DigitalWrite (relay_pin (ctrls w c)) RELAY_INACTIVE_STATE]"])
       (simp add: es)
qed

subsection \<open>The controller nico, switched on\<close>

lemma heating_nico:
  "st (ctrls (TempController_Update nico 23 (arduino_setup globals)) nico) = HEATING"
  "heater_is_off (ctrls (TempController_Update nico 23 (arduino_setup globals)) nico) = False"
  "max_temp (ctrls (TempController_Update nico 23 (arduino_setup globals)) nico) = 28"
  "ctrl_uid (ctrls (TempController_Update nico 23 (arduino_setup globals)) nico) = 1"
  "is_panic (panic (TempController_Update nico 23 (arduino_setup globals))) = False"
  "clock (TempController_Update nico 23 (arduino_setup globals)) = 0"
  by (simp_all add: TempController_Update_def booted_fields booted_panic TEMP_ALLOWANCE_def
      TempController_On_def digitalWrite_def DesyncMan_Reset_def Let_def)

subsection \<open>The pattern of LEDMan\<close>

lemma UpdateState_changed:
  "LEDMan_new_state w = Some n \<Longrightarrow> n \<noteq> currentStateIndex (ledman w) \<Longrightarrow>
     LEDMan_UpdateState w =
       Some (w\<lparr>ledman := (ledman w)
               \<lparr>currentStateIndex := n, ledOn := True, lastToggleMs := clock w\<rparr>\<rparr>)"
  by (simp add: LEDMan_UpdateState_def millis_def)

lemma UpdateState_same:
  "LEDMan_new_state w = Some n \<Longrightarrow> n = currentStateIndex (ledman w) \<Longrightarrow>
     LEDMan_UpdateState w = Some w"
  by (simp add: LEDMan_UpdateState_def)

lemma HalfPeriod_positive: "0 < LEDMan_HalfPeriodForState n"
  by (simp add: LEDMan_HalfPeriodForState_def)

lemma Update_LED_changed:
  assumes "LEDMan_new_state w = Some n" and "n \<noteq> currentStateIndex (ledman w)"
  shows "LEDMan_Update w =
           Some (w\<lparr>ledman := (ledman w)
                   \<lparr>currentStateIndex := n, ledOn := True, lastToggleMs := clock w\<rparr>,
                 trace := trace w @ [DigitalWrite LED_BUILTIN HIGH]\<rparr>)"
proof -
  have "\<not> (0::32 word) \<ge> LEDMan_HalfPeriodForState n"
    using HalfPeriod_positive [of n] by (simp add: word_greater_zero_iff)
  then show ?thesis
    using assms
    by (simp add: LEDMan_Update_def UpdateState_changed millis_def digitalWrite_def)
qed

lemma ex_less_2: "(\<exists>j<2. P j) \<longleftrightarrow> P 0 \<or> P (Suc 0)"
  by (auto simp: less_2_cases_iff)

lemma clock_advance [simp]: "clock (advance d w) = clock w + d"
  by (simp add: advance_def)

lemma registry_ok_advance [simp]: "registry_ok (advance d w) = registry_ok w"
  by (simp add: registry_ok_def)

lemma registry_ok_Update [simp]: "registry_ok (TempController_Update c t w) = registry_ok w"
  by (simp add: registry_ok_def)

subsection \<open>Calls under the latch, and the call that sets it\<close>

lemma set_desync_same [simp]:
  "w\<lparr>ctrls := (ctrls w)(c := (ctrls w c)\<lparr>desync_man := desync_man (ctrls w c)\<rparr>)\<rparr> = w"
  by simp

lemma Update_cases:
  obtains (quiet) "panic (TempController_Update c t w) = panic w"
  | (fault) r l d where
      "TempController_Update c t w =
         TempController_Off c
           (Panic_StartPanic r (ctrl_uid (ctrls w c)) l
              (w\<lparr>ctrls := (ctrls w)(c := (ctrls w c)\<lparr>desync_man := d\<rparr>)\<rparr>))"
proof -
  obtain desync d1 where d: "DesyncMan_Update (millis w) t (desync_man (ctrls w c)) = (desync, d1)"
    by (cases "DesyncMan_Update (millis w) t (desync_man (ctrls w c))")
  consider (off) "st (ctrls w c) = OFF"
    | (over) "st (ctrls w c) \<noteq> OFF" "t \<ge> max_temp (ctrls w c)"
    | (heating) "st (ctrls w c) = HEATING" "\<not> t \<ge> max_temp (ctrls w c)"
    | (cooling) "st (ctrls w c) = COOLING" "\<not> t \<ge> max_temp (ctrls w c)"
    by (cases "st (ctrls w c)") auto
  then show ?thesis
  proof cases
    case off
    then show ?thesis by (intro quiet) (simp add: TempController_Update_def)
  next
    case over
    then have "TempController_Update c t w =
         TempController_Off c
           (Panic_StartPanic OverMax (ctrl_uid (ctrls w c)) 358
              (w\<lparr>ctrls := (ctrls w)(c := (ctrls w c)\<lparr>desync_man := desync_man (ctrls w c)\<rparr>)\<rparr>))"
      by (simp add: Update_over_max)
    then show ?thesis by (rule fault)
  next
    case heating
    show ?thesis
    proof (cases desync)
      case True
      with heating d have "TempController_Update c t w =
         TempController_Off c
           (Panic_StartPanic DesyncNoRise (ctrl_uid (ctrls w c)) 367
              (w\<lparr>ctrls := (ctrls w)(c := (ctrls w c)\<lparr>desync_man := d1\<rparr>)\<rparr>))"
        by (simp add: TempController_Update_def)
      then show ?thesis by (rule fault)
    next
      case False
      with heating d show ?thesis
        by (intro quiet) (simp add: TempController_Update_def Let_def)
    qed
  next
    case cooling
    then show ?thesis
      by (intro quiet) (simp add: TempController_Update_def Let_def)
  qed
qed

lemma Loop_triggering:
  assumes "\<not> is_panic (panic w)" and "is_panic (panic (TempController_Loop c t w))"
  shows "(\<exists>es. trace (TempController_Loop c t w) = trace w @ es \<and> list_all is_inactive_write es) \<and>
         (heater_is_off (ctrls w c') \<longrightarrow> heater_is_off (ctrls (TempController_Loop c t w) c'))"
proof (cases "t = DEVICE_DISCONNECTED_C")
  case True
  with assms(1) have "TempController_Loop c t w =
      Panic_StartPanic SensorDisconnected (ctrl_uid (ctrls w c)) 394 w"
    by (simp add: TempController_Loop_def Panic_IsPanic_def)
  then show ?thesis by (simp add: StartPanic_trace StartPanic_heater)
next
  case False
  with assms(1) have e: "TempController_Loop c t w = TempController_Update c t w"
    by (simp add: TempController_Loop_def Panic_IsPanic_def)
  show ?thesis
  proof (cases c t w rule: Update_cases)
    case quiet
    with assms e show ?thesis by simp
  next
    case (fault r l d)
    let ?w1 = "w\<lparr>ctrls := (ctrls w)(c := (ctrls w c)\<lparr>desync_man := d\<rparr>)\<rparr>"
    have t: "\<exists>es. trace (TempController_Off c
               (Panic_StartPanic r (ctrl_uid (ctrls w c)) l ?w1)) = trace ?w1 @ es \<and>
             list_all is_inactive_write es"
      by (rule Off_StartPanic_trace)
    have h: "heater_is_off (ctrls (TempController_Off c
               (Panic_StartPanic r (ctrl_uid (ctrls w c)) l ?w1)) c')"
      if "heater_is_off (ctrls w c')"
    proof -
      from that have "heater_is_off (ctrls ?w1 c')" by auto
      then have "heater_is_off (ctrls (Panic_StartPanic r (ctrl_uid (ctrls w c)) l ?w1) c')"
        by (rule StartPanic_heater)
      then show ?thesis by (simp add: Off_ctrls)
    qed
    from t h show ?thesis unfolding e fault by simp
  qed
qed

lemma loop_latched:
  assumes "is_panic (panic w)"
  shows "\<exists>w' v. loop t_nico t_trap w = Some w' \<and> ctrls w' = ctrls w \<and> panic w' = panic w \<and>
           trace w' = trace w @ [DigitalWrite LED_BUILTIN v]"
proof -
  from Update_LED_total [of w] assms obtain w1 where w1: "LEDMan_Update w = Some w1"
    by blast
  note f = Update_LED_frame [OF w1]
  let ?w2 = "w1\<lparr>GLastReadMs := millis w1\<rparr>"
  have "loop t_nico t_trap w = Some w1 \<or> loop t_nico t_trap w = Some ?w2"
    using w1 assms f(2) by (simp add: loop_def Let_def Panic_IsPanic_def)
  then show ?thesis
  proof
    assume "loop t_nico t_trap w = Some w1"
    with f show ?thesis by blast
  next
    assume "loop t_nico t_trap w = Some ?w2"
    moreover have "ctrls ?w2 = ctrls w" "panic ?w2 = panic w"
      "trace ?w2 = trace w @ [DigitalWrite LED_BUILTIN (if ledOn (ledman w1) then HIGH else LOW)]"
      using f by simp_all
    ultimately show ?thesis by blast
  qed
qed

lemma run_latched:
  assumes "is_panic (panic w)"
  shows "\<exists>w' es. run ps w = Some w' \<and> ctrls w' = ctrls w \<and> panic w' = panic w \<and>
           trace w' = trace w @ es \<and> list_all is_led_write es"
  using assms
proof (induction ps arbitrary: w)
  case Nil
  show ?case by simp
next
  case (Cons p ps)
  obtain d t_nico t_trap where p: "p = (d, t_nico, t_trap)"
    by (cases p)
  have "is_panic (panic (advance d w))" using Cons.prems by simp
  from loop_latched [OF this, of t_nico t_trap] obtain w1 v where
    w1: "loop t_nico t_trap (advance d w) = Some w1" "ctrls w1 = ctrls w" "panic w1 = panic w"
      "trace w1 = trace w @ [DigitalWrite LED_BUILTIN v]"
    by auto
  from Cons.IH [of w1] w1(3) Cons.prems obtain w' es where
    w': "run ps w1 = Some w'" "ctrls w' = ctrls w1" "panic w' = panic w1"
      "trace w' = trace w1 @ es" "list_all is_led_write es"
    by auto
  show ?case
  proof (intro exI [of _ w'] exI [of _ "DigitalWrite LED_BUILTIN v # es"] conjI)
    show "run (p # ps) w = Some w'" using p w1(1) w'(1) by simp
    show "ctrls w' = ctrls w" using w1 w' by simp
    show "panic w' = panic w" using w1 w' by simp
    show "trace w' = trace w @ DigitalWrite LED_BUILTIN v # es" using w1 w' by simp
    show "list_all is_led_write (DigitalWrite LED_BUILTIN v # es)" using w' by simp
  qed
qed

lemma latched_resultI:
  assumes "f = Some w'" and "ctrls w' = ctrls w" and "panic w' = panic w"
    and "is_panic (panic w)" and "trace w' = trace w @ es" and "list_all P es"
  shows "\<exists>w'. f = Some w' \<and> ctrls w' = ctrls w \<and> is_panic (panic w') \<and>
           trace w' = trace w @ new_events w w' \<and> list_all P (new_events w w')"
proof -
  have n: "new_events w w' = es"
    using assms(5) by (simp add: new_events_def)
  have "f = Some w' \<and> ctrls w' = ctrls w \<and> is_panic (panic w') \<and>
           trace w' = trace w @ new_events w w' \<and> list_all P (new_events w w')"
    unfolding n using assms by simp
  then show ?thesis ..
qed

subsection \<open>The invariant of state OFF over a sequence\<close>

lemma execs_safe:
  "execs cs w = Some w' \<Longrightarrow> off_is_safe w c \<Longrightarrow> off_is_safe w' c"
proof (induction cs arbitrary: w)
  case Nil
  then show ?case by simp
next
  case (Cons a cs)
  from Cons.prems(1) obtain w1 where w1: "exec a w = Some w1" "execs cs w1 = Some w'"
    by (auto split: option.splits)
  from exec_safe [OF w1(1) Cons.prems(2)] have "off_is_safe w1 c" .
  with Cons.IH w1(2) show ?case by blast
qed

lemma fresh_safe: "fresh w c \<Longrightarrow> off_is_safe w c"
  by (simp add: fresh_def off_is_safe_def)

lemma heating_nico_more:
  "target (ctrls (TempController_Update nico 23 (arduino_setup globals)) nico) = 24"
  "relay_pin (ctrls (TempController_Update nico 23 (arduino_setup globals)) nico) = 8"
  "desync_man (ctrls (TempController_Update nico 23 (arduino_setup globals)) nico) =
     \<lparr>start_time = 0, start_temp = 0, not_inited = True\<rparr>"
  "trace (TempController_Update nico 23 (arduino_setup globals)) =
     trace (arduino_setup globals) @ [DigitalWrite 8 HIGH]"
  by (simp_all add: TempController_Update_def booted_fields booted_panic TEMP_ALLOWANCE_def
      TempController_On_def digitalWrite_def DesyncMan_Reset_def Let_def RELAY_ACTIVE_STATE_def)

subsection \<open>The transition table of Update\<close>

lemma Update_table [case_names off over desync to_cooling heating_stays to_heating cooling_stays]:
  obtains
    (off) "st (ctrls w c) = OFF" "TempController_Update c t w = w"
  | (over) "st (ctrls w c) \<noteq> OFF" "t \<ge> max_temp (ctrls w c)"
      "TempController_Update c t w =
         TempController_Off c (Panic_StartPanic OverMax (ctrl_uid (ctrls w c)) 358 w)"
  | (desync) d1 where "st (ctrls w c) = HEATING" "t < max_temp (ctrls w c)"
      "DesyncMan_Update (clock w) t (desync_man (ctrls w c)) = (True, d1)"
      "TempController_Update c t w =
         TempController_Off c
           (Panic_StartPanic DesyncNoRise (ctrl_uid (ctrls w c)) 367
              (w\<lparr>ctrls := (ctrls w)(c := (ctrls w c)\<lparr>desync_man := d1\<rparr>)\<rparr>))"
  | (to_cooling) d1 where "st (ctrls w c) = HEATING" "t < max_temp (ctrls w c)"
      "DesyncMan_Update (clock w) t (desync_man (ctrls w c)) = (False, d1)"
      "t \<ge> target (ctrls w c) + TEMP_ALLOWANCE"
      "TempController_Update c t w =
         w\<lparr>ctrls := (ctrls w)
              (c := (ctrls w c)\<lparr>desync_man := d1, heater_is_off := True, st := COOLING\<rparr>),
           trace := trace w @ [DigitalWrite (relay_pin (ctrls w c)) RELAY_INACTIVE_STATE]\<rparr>"
  | (heating_stays) d1 where "st (ctrls w c) = HEATING" "t < max_temp (ctrls w c)"
      "DesyncMan_Update (clock w) t (desync_man (ctrls w c)) = (False, d1)"
      "t < target (ctrls w c) + TEMP_ALLOWANCE"
      "TempController_Update c t w =
         w\<lparr>ctrls := (ctrls w)(c := (ctrls w c)\<lparr>desync_man := d1\<rparr>)\<rparr>"
  | (to_heating) "st (ctrls w c) = COOLING" "t < max_temp (ctrls w c)"
      "t \<le> target (ctrls w c) - TEMP_ALLOWANCE"
      "TempController_Update c t w =
         (let w1 = w\<lparr>ctrls := (ctrls w)
                     (c := (ctrls w c)\<lparr>desync_man := DesyncMan_Reset (desync_man (ctrls w c))\<rparr>)\<rparr>;
              w2 = TempController_On c w1
          in w2\<lparr>ctrls := (ctrls w2)(c := (ctrls w2 c)\<lparr>st := HEATING\<rparr>)\<rparr>)"
  | (cooling_stays) "st (ctrls w c) = COOLING" "t < max_temp (ctrls w c)"
      "t > target (ctrls w c) - TEMP_ALLOWANCE"
      "TempController_Update c t w = w"
proof -
  obtain b d1 where d: "DesyncMan_Update (clock w) t (desync_man (ctrls w c)) = (b, d1)"
    by (cases "DesyncMan_Update (clock w) t (desync_man (ctrls w c))")
  consider (a) "st (ctrls w c) = OFF"
    | (b) "st (ctrls w c) \<noteq> OFF" "t \<ge> max_temp (ctrls w c)"
    | (c) "st (ctrls w c) = HEATING" "t < max_temp (ctrls w c)"
    | (d) "st (ctrls w c) = COOLING" "t < max_temp (ctrls w c)"
    by (cases "st (ctrls w c)"; cases "t \<ge> max_temp (ctrls w c)") auto
  then show ?thesis
  proof cases
    case a
    then show ?thesis by (intro off) (simp_all add: TempController_Update_def)
  next
    case b
    then show ?thesis by (intro over) (simp_all add: TempController_Update_def)
  next
    case c
    show ?thesis
    proof (cases b)
      case True
      with c d show ?thesis
        by (intro desync [of d1]) (simp_all add: TempController_Update_def millis_def)
    next
      case False
      show ?thesis
      proof (cases "t \<ge> target (ctrls w c) + TEMP_ALLOWANCE")
        case True
        with c d \<open>\<not> b\<close> show ?thesis
          by (intro to_cooling [of d1])
             (simp_all add: TempController_Update_def millis_def Let_def
               TempController_Off_def digitalWrite_def Panic_IsPanic_def)
      next
        case False
        with c d \<open>\<not> b\<close> show ?thesis
          by (intro heating_stays [of d1])
             (simp_all add: TempController_Update_def millis_def Let_def)
      qed
    qed
  next
    case d
    show ?thesis
    proof (cases "t \<le> target (ctrls w c) - TEMP_ALLOWANCE")
      case True
      with d show ?thesis
        by (intro to_heating) (simp_all add: TempController_Update_def)
    next
      case False
      with d show ?thesis
        by (intro cooling_stays) (simp_all add: TempController_Update_def)
    qed
  qed
qed

subsection \<open>Switching on and off by Update\<close>

lemma Update_activation:
  assumes "heater_is_off (ctrls w c)" and "\<not> heater_is_off (ctrls (TempController_Update c t w) c)"
  shows "st (ctrls w c) = COOLING \<and> t \<le> target (ctrls w c) - TEMP_ALLOWANCE"
  using assms
  by (cases rule: Update_table [where w = w and c = c and t = t]) (simp_all add: Off_ctrls)

lemma Update_deactivation:
  assumes "\<not> heater_is_off (ctrls w c)" and "heater_is_off (ctrls (TempController_Update c t w) c)"
  shows "t \<ge> target (ctrls w c) + TEMP_ALLOWANCE \<or> is_panic (panic (TempController_Update c t w))"
  using assms
  by (cases rule: Update_table [where w = w and c = c and t = t])
     (simp_all add: Let_def TempController_On_def)

lemma Update_quiet:
  assumes "\<not> is_panic (panic (TempController_Update c t w))"
    and "target (ctrls w c) - TEMP_ALLOWANCE < t" and "t < target (ctrls w c) + TEMP_ALLOWANCE"
  shows "st (ctrls (TempController_Update c t w) c) = st (ctrls w c) \<and>
         heater_is_off (ctrls (TempController_Update c t w) c) = heater_is_off (ctrls w c) \<and>
         trace (TempController_Update c t w) = trace w"
  using assms
  by (cases rule: Update_table [where w = w and c = c and t = t]) simp_all

lemma Update_heating_quiet:
  assumes "\<not> is_panic (panic (TempController_Update c t w))"
    and "st (ctrls w c) = HEATING" and "t < target (ctrls w c) + TEMP_ALLOWANCE"
  shows "st (ctrls (TempController_Update c t w) c) = HEATING \<and>
         heater_is_off (ctrls (TempController_Update c t w) c) = heater_is_off (ctrls w c) \<and>
         trace (TempController_Update c t w) = trace w"
  using assms
  by (cases rule: Update_table [where w = w and c = c and t = t]) simp_all

lemma Update_config [simp]:
  "target (ctrls (TempController_Update c t w) c') = target (ctrls w c')"
  "max_temp (ctrls (TempController_Update c t w) c') = max_temp (ctrls w c')"
  "relay_pin (ctrls (TempController_Update c t w) c') = relay_pin (ctrls w c')"
  "ctrl_uid (ctrls (TempController_Update c t w) c') = ctrl_uid (ctrls w c')"
  by (cases rule: Update_table [where w = w and c = c and t = t];
      simp add: Off_ctrls Let_def TempController_On_def digitalWrite_def)+

lemma Update_cooling_step:
  assumes "st (ctrls w c) = COOLING \<or> st (ctrls w c) = OFF" and "heater_is_off (ctrls w c)"
    and "target (ctrls w c) - TEMP_ALLOWANCE < t"
  shows "(st (ctrls (TempController_Update c t w) c) = COOLING \<or>
          st (ctrls (TempController_Update c t w) c) = OFF) \<and>
         heater_is_off (ctrls (TempController_Update c t w) c) \<and>
         (\<exists>es. trace (TempController_Update c t w) = trace w @ es \<and> list_all is_inactive_write es)"
proof (cases rule: Update_table [where w = w and c = c and t = t])
  case over
  from Off_StartPanic_trace [of c OverMax "ctrl_uid (ctrls w c)" 358 w]
  show ?thesis unfolding over(3) by (simp add: Off_after_StartPanic)
qed (use assms in simp_all)

lemma feed_keeps_latch: "is_panic (panic w) \<Longrightarrow> is_panic (panic (feed c ss w))"
proof (induction ss arbitrary: w)
  case Nil
  then show ?case by simp
next
  case (Cons s ss)
  obtain d t where s: "s = (d, t)" by (cases s)
  from Cons.prems have "is_panic (panic (TempController_Update c t (advance d w)))"
    by (simp add: Update_latched)
  from Cons.IH [OF this] s show ?case by simp
qed

lemma feed_config [simp]: "target (ctrls (feed c ss w) c') = target (ctrls w c')"
  by (induction c ss w rule: feed.induct) simp_all

lemma feed_cooling:
  assumes "st (ctrls w c) = COOLING \<or> st (ctrls w c) = OFF" and "heater_is_off (ctrls w c)"
    and "list_all (\<lambda>(d, t). target (ctrls w c) - TEMP_ALLOWANCE < t) ss"
  shows "heater_is_off (ctrls (feed c ss w) c) \<and>
         (\<exists>es. trace (feed c ss w) = trace w @ es \<and> list_all is_inactive_write es)"
  using assms
proof (induction ss arbitrary: w)
  case Nil
  then show ?case by simp
next
  case (Cons s ss)
  obtain d t where s: "s = (d, t)" by (cases s)
  let ?w1 = "TempController_Update c t (advance d w)"
  from Cons.prems s
  have "st (ctrls (advance d w) c) = COOLING \<or> st (ctrls (advance d w) c) = OFF"
    "heater_is_off (ctrls (advance d w) c)"
    "target (ctrls (advance d w) c) - TEMP_ALLOWANCE < t"
    by simp_all
  from Update_cooling_step [OF this] obtain es1 where
    w1: "st (ctrls ?w1 c) = COOLING \<or> st (ctrls ?w1 c) = OFF" "heater_is_off (ctrls ?w1 c)"
      "trace ?w1 = trace w @ es1" "list_all is_inactive_write es1"
    by auto
  have "list_all (\<lambda>(d, t). target (ctrls ?w1 c) - TEMP_ALLOWANCE < t) ss"
    using Cons.prems(3) by simp
  from Cons.IH [OF w1(1,2) this] obtain es2 where
    "heater_is_off (ctrls (feed c ss ?w1) c)"
    "trace (feed c ss ?w1) = trace ?w1 @ es2" "list_all is_inactive_write es2"
    by blast
  with w1 s show ?case
    by (intro conjI exI [of _ "es1 @ es2"]) simp_all
qed

lemma feed_heating:
  assumes "st (ctrls w c) = HEATING"
    and "list_all (\<lambda>(d, t). t < target (ctrls w c) + TEMP_ALLOWANCE) ss"
    and "\<not> is_panic (panic (feed c ss w))"
  shows "st (ctrls (feed c ss w) c) = HEATING \<and>
         heater_is_off (ctrls (feed c ss w) c) = heater_is_off (ctrls w c) \<and>
         trace (feed c ss w) = trace w"
  using assms
proof (induction ss arbitrary: w)
  case Nil
  then show ?case by simp
next
  case (Cons s ss)
  obtain d t where s: "s = (d, t)" by (cases s)
  let ?w1 = "TempController_Update c t (advance d w)"
  have n: "\<not> is_panic (panic ?w1)"
    using Cons.prems(3) s feed_keeps_latch [of ?w1 c ss] by auto
  from Cons.prems s have "st (ctrls (advance d w) c) = HEATING"
    "t < target (ctrls (advance d w) c) + TEMP_ALLOWANCE"
    by simp_all
  from Update_heating_quiet [OF n this]
  have w1: "st (ctrls ?w1 c) = HEATING" "heater_is_off (ctrls ?w1 c) = heater_is_off (ctrls w c)"
    "trace ?w1 = trace w"
    by simp_all
  have "list_all (\<lambda>(d, t). t < target (ctrls ?w1 c) + TEMP_ALLOWANCE) ss"
    using Cons.prems(2) by simp
  from Cons.IH [OF w1(1) this] Cons.prems(3) s w1 show ?case by simp
qed

subsection \<open>A run of one controller in the band\<close>

lemma Update_heating_stays:
  assumes "st (ctrls w c) = HEATING" and "t < max_temp (ctrls w c)"
    and "DesyncMan_Update (clock w) t (desync_man (ctrls w c)) = (False, d1)"
    and "t < target (ctrls w c) + TEMP_ALLOWANCE"
  shows "TempController_Update c t w =
           w\<lparr>ctrls := (ctrls w)(c := (ctrls w c)\<lparr>desync_man := d1\<rparr>)\<rparr>"
  using assms by (simp add: TempController_Update_def millis_def)

lemma Update_desync:
  assumes "st (ctrls w c) = HEATING" and "t < max_temp (ctrls w c)"
    and "DesyncMan_Update (clock w) t (desync_man (ctrls w c)) = (True, d1)"
  shows "TempController_Update c t w =
           TempController_Off c
             (Panic_StartPanic DesyncNoRise (ctrl_uid (ctrls w c)) 367
                (w\<lparr>ctrls := (ctrls w)(c := (ctrls w c)\<lparr>desync_man := d1\<rparr>)\<rparr>))"
  using assms by (simp add: TempController_Update_def millis_def)

lemma in_band_2_eq:
  "TempController_Update nico 24
     (advance 2000 (TempController_Update nico 23 (arduino_setup globals))) =
   (advance 2000 (TempController_Update nico 23 (arduino_setup globals)))
     \<lparr>ctrls := (ctrls (advance 2000 (TempController_Update nico 23 (arduino_setup globals))))
        (nico := (ctrls (advance 2000 (TempController_Update nico 23 (arduino_setup globals))) nico)
           \<lparr>desync_man := \<lparr>start_time = 2000, start_temp = 24, not_inited = False\<rparr>\<rparr>)\<rparr>"
  by (rule Update_heating_stays)
     (simp_all add: heating_nico heating_nico_more booted_fields DesyncMan_Update_def
       DesyncMan_Begin_def TEMP_ALLOWANCE_def TIME_TO_WAIT_def NEEDED_TEMP_CHANGE_def)

lemma in_band_2:
  "st (ctrls (TempController_Update nico 24
        (advance 2000 (TempController_Update nico 23 (arduino_setup globals)))) nico) = HEATING"
  "heater_is_off (ctrls (TempController_Update nico 24
        (advance 2000 (TempController_Update nico 23 (arduino_setup globals)))) nico) = False"
  "max_temp (ctrls (TempController_Update nico 24
        (advance 2000 (TempController_Update nico 23 (arduino_setup globals)))) nico) = 28"
  "desync_man (ctrls (TempController_Update nico 24
        (advance 2000 (TempController_Update nico 23 (arduino_setup globals)))) nico) =
     \<lparr>start_time = 2000, start_temp = 24, not_inited = False\<rparr>"
  "is_panic (panic (TempController_Update nico 24
        (advance 2000 (TempController_Update nico 23 (arduino_setup globals))))) = False"
  "clock (TempController_Update nico 24
        (advance 2000 (TempController_Update nico 23 (arduino_setup globals)))) = 2000"
  by (simp_all add: in_band_2_eq heating_nico booted_fields)

lemma in_band_3:
  "TempController_Update nico 24
     (advance 180000 (TempController_Update nico 24
        (advance 2000 (TempController_Update nico 23 (arduino_setup globals))))) =
   TempController_Off nico
     (Panic_StartPanic DesyncNoRise 1 367
        (advance 180000 (TempController_Update nico 24
           (advance 2000 (TempController_Update nico 23 (arduino_setup globals))))))"
proof -
  let ?w = "advance 180000 (TempController_Update nico 24
        (advance 2000 (TempController_Update nico 23 (arduino_setup globals))))"
  have p: "st (ctrls ?w nico) = HEATING" "24 < max_temp (ctrls ?w nico)"
    "DesyncMan_Update (clock ?w) 24 (desync_man (ctrls ?w nico)) =
       (True, desync_man (ctrls ?w nico))"
    by (simp_all add: in_band_2 booted_fields DesyncMan_Update_def TIME_TO_WAIT_def
        NEEDED_TEMP_CHANGE_def)
  have u: "ctrl_uid (ctrls ?w nico) = 1"
    by (simp add: booted_fields)
  show ?thesis
    using Update_desync [OF p] unfolding set_desync_same u .
qed

subsection \<open>The older sketch\<close>

lemmas old_defs =
  Old_RELAY_PIN_def Old_TARGET_TEMP_C_def Old_TEMP_MAX_def Old_NumStates_def

lemma Old_booted:
  "old_is_panic (Old_setup Old_globals) = False"
  "old_callback_count (Old_setup Old_globals) = 2"
  "old_callbacks (Old_setup Old_globals) 0 = Some SetStatePanicLambda"
  "old_callbacks (Old_setup Old_globals) (Suc 0) = Some OffLambdaOld"
  "old_st (Old_setup Old_globals) = COOLING"
  "old_heater_is_off (Old_setup Old_globals) = True"
  "old_GUndetectedCount (Old_setup Old_globals) = 0"
  "old_currentStateIndex (Old_setup Old_globals) = 0"
  "old_clock (Old_setup Old_globals) = 0"
  "old_trace (Old_setup Old_globals) = [PinModeOutput 8, DigitalWrite 8 LOW, PinModeOutput 13]"
  by (simp_all add: Old_setup_def Old_globals_def Old_RegisterCallback_def Old_SetState_def
      Old_SetState_in_range_def Old_pinModeOutput_def Old_digitalWrite_def old_defs config_defs)

lemma Old_Off_inactive: "old_heater_is_off w \<Longrightarrow> Old_Off w = w"
  by (simp add: Old_Off_def)

lemma Old_On_active: "\<not> old_heater_is_off w \<Longrightarrow> Old_On w = w"
  by (simp add: Old_On_def)

lemma Old_StartPanic_latched: "old_is_panic w \<Longrightarrow> Old_StartPanic w = w"
  by (simp add: Old_StartPanic_def)

lemma Old_callbacks_from_booted:
  "old_callback_count w = 2 \<Longrightarrow> old_callbacks w 0 = Some SetStatePanicLambda \<Longrightarrow>
   old_callbacks w (Suc 0) = Some OffLambdaOld \<Longrightarrow>
     Old_callbacks_from 0 w = Old_Off (Old_SetState_in_range 2 w)"
  by (simp add: Old_callbacks_from.simps [of 0] Old_callbacks_from.simps [of "Suc 0"]
      Old_callbacks_from.simps [of "Suc (Suc 0)"] Old_call_if_set_def
      Old_SetState_in_range_def Old_Off_def Old_digitalWrite_def Let_def)

text \<open>The older \<open>Update\<close> does not fire at \<open>Max\<close> itself, and above it leaves an idle
  controller in state \<open>COOLING\<close>: the guarded \<open>Off\<close> returns before it sets the
  state.\<close>

lemma Old_Update_at_max:
  "Old_Update 28 (Old_setup Old_globals) = Old_setup Old_globals"
  by (simp add: Old_Update_def Old_booted old_defs config_defs)

lemma Old_Update_above_max:
  "old_is_panic (Old_Update 29 (Old_setup Old_globals))"
  "old_st (Old_Update 29 (Old_setup Old_globals)) = COOLING"
  by (simp_all add: Old_Update_def Old_booted old_defs Old_StartPanic_def
      Old_callbacks_from_booted Old_Off_def Old_SetState_in_range_def)

text \<open>The older \<open>loop()\<close> tolerates five readings without a sensor.\<close>

lemma Old_loop_sample_disconnected:
  "old_is_panic (Old_loop_sample (- 127) (Old_setup Old_globals)) = False"
  "old_GUndetectedCount (Old_loop_sample (- 127) (Old_setup Old_globals)) = 1"
  by (simp_all add: Old_loop_sample_def Old_booted config_defs)

lemma Old_call_if_set_panic [simp]:
  "old_is_panic (Old_call_if_set cb w) = old_is_panic w"
  by (cases cb; cases "the cb")
     (simp_all add: Old_call_if_set_def Old_SetState_in_range_def Old_Off_def
       Old_digitalWrite_def Let_def Old_IsPanic_def)

lemma Old_callbacks_from_panic:
  "old_is_panic (Old_callbacks_from i w) = old_is_panic w"
proof (induction i w rule: Old_callbacks_from.induct)
  case (1 i w)
  then show ?case
    by (subst Old_callbacks_from.simps) simp
qed

text \<open>The latch of the older sketch: set by \<open>StartPanic\<close>, which does nothing when
  it is set already.\<close>

lemma Old_StartPanic_sets: "old_is_panic (Old_StartPanic w)"
  by (simp add: Old_StartPanic_def Old_callbacks_from_panic)

subsection \<open>A fault in the older sketch\<close>


lemma Old_callbacks_from_inv:
  assumes step: "\<And>cb v. P v \<Longrightarrow> P (Old_call_if_set cb v)"
  shows "P w \<Longrightarrow> P (Old_callbacks_from i w)"
proof (induction i w rule: Old_callbacks_from.induct)
  case (1 i w)
  show ?case
  proof (cases "i < old_callback_count w")
    case True
    have "P (Old_call_if_set (old_callbacks w i) w)"
      using "1.prems" by (rule step)
    with True have "P (Old_callbacks_from (Suc i) (Old_call_if_set (old_callbacks w i) w))"
      by (rule "1.IH")
    with True show ?thesis
      by (subst Old_callbacks_from.simps) simp
  next
    case False
    with "1.prems" show ?thesis
      by (subst Old_callbacks_from.simps) simp
  qed
qed

lemma Old_Off_fields:
  "old_heater_is_off (Old_Off w)"
  "old_is_panic (Old_Off w) = old_is_panic w"
  by (simp_all add: Old_Off_def Old_digitalWrite_def Let_def)

lemma Old_Off_active:
  "\<not> old_heater_is_off w \<Longrightarrow>
     old_trace (Old_Off w) = old_trace w @ [DigitalWrite Old_RELAY_PIN RELAY_INACTIVE_STATE]"
  "\<not> old_heater_is_off w \<Longrightarrow> old_is_panic w \<Longrightarrow> old_st (Old_Off w) = OFF"
  by (simp_all add: Old_Off_def Old_digitalWrite_def Old_IsPanic_def Let_def)

lemma Old_call_if_set_cases:
  obtains "Old_call_if_set cb w = w"
  | "Old_call_if_set cb w = Old_SetState_in_range 2 w"
  | "Old_call_if_set cb w = Old_Off w"
proof (cases cb)
  case None
  then show ?thesis using that by (simp add: Old_call_if_set_def)
next
  case (Some f)
  then show ?thesis using that by (cases f) (simp_all add: Old_call_if_set_def)
qed

lemma Old_SetState_in_range_fields [simp]:
  "old_heater_is_off (Old_SetState_in_range s w) = old_heater_is_off w"
  "old_is_panic (Old_SetState_in_range s w) = old_is_panic w"
  "old_st (Old_SetState_in_range s w) = old_st w"
  "old_trace (Old_SetState_in_range s w) = old_trace w"
  by (simp_all add: Old_SetState_in_range_def)

lemma old_shut_step: "old_shut t0 v \<Longrightarrow> old_shut t0 (Old_call_if_set cb v)"
proof (cases rule: Old_call_if_set_cases [of cb v])
  case 1
  assume "old_shut t0 v"
  with 1 show ?thesis by simp
next
  case 2
  assume "old_shut t0 v"
  with 2 show ?thesis by (simp add: old_shut_def)
next
  case 3
  assume s: "old_shut t0 v"
  show ?thesis
  proof (cases "old_heater_is_off v")
    case True
    with s 3 show ?thesis by (simp add: Old_Off_inactive)
  next
    case False
    from s obtain es where es: "old_trace v = t0 @ es" and p: "old_is_panic v"
      unfolding old_shut_def by blast
    have "old_trace (Old_Off v) = t0 @ (es @ [DigitalWrite Old_RELAY_PIN RELAY_INACTIVE_STATE])"
      using False es by (simp add: Old_Off_active)
    moreover have "old_st (Old_Off v) = OFF"
      using False p by (rule Old_Off_active)
    moreover have "DigitalWrite Old_RELAY_PIN RELAY_INACTIVE_STATE
        \<in> set (es @ [DigitalWrite Old_RELAY_PIN RELAY_INACTIVE_STATE])"
      by simp
    moreover have "old_is_panic (Old_Off v)"
      using p by (simp add: Old_Off_fields)
    ultimately have "old_shut t0 (Old_Off v)"
      unfolding old_shut_def by blast
    with 3 show ?thesis by simp
  qed
qed

lemma Old_shutdown_active:
  assumes a: "\<not> old_heater_is_off v"
  shows "old_st (Old_Off (Old_StartPanic v)) = OFF"
    and "DigitalWrite Old_RELAY_PIN RELAY_INACTIVE_STATE
           \<in> set (drop (length (old_trace v)) (old_trace (Old_Off (Old_StartPanic v))))"
proof -
  let ?p = "Old_StartPanic v"
  have s: "old_shut (old_trace v) ?p"
  proof (cases "old_is_panic v")
    case True
    with a show ?thesis by (simp add: Old_StartPanic_latched old_shut_def)
  next
    case False
    have "old_shut (old_trace v) (v\<lparr>old_is_panic := True\<rparr>)"
      using a by (simp add: old_shut_def)
    then have "old_shut (old_trace v) (Old_callbacks_from 0 (v\<lparr>old_is_panic := True\<rparr>))"
      by (rule Old_callbacks_from_inv [rotated]) (rule old_shut_step)
    with False show ?thesis by (simp add: Old_StartPanic_def)
  qed
  then obtain es where es: "old_trace ?p = old_trace v @ es"
    and p: "old_is_panic ?p"
    and h: "old_heater_is_off ?p \<longrightarrow>
       old_st ?p = OFF \<and> DigitalWrite Old_RELAY_PIN RELAY_INACTIVE_STATE \<in> set es"
    unfolding old_shut_def by blast
  have "old_st (Old_Off ?p) = OFF \<and>
    DigitalWrite Old_RELAY_PIN RELAY_INACTIVE_STATE
           \<in> set (drop (length (old_trace v)) (old_trace (Old_Off ?p)))"
  proof (cases "old_heater_is_off ?p")
    case True
    with h es show ?thesis by (simp add: Old_Off_inactive)
  next
    case False
    with p es show ?thesis by (simp add: Old_Off_active)
  qed
  then show "old_st (Old_Off (Old_StartPanic v)) = OFF"
    and "DigitalWrite Old_RELAY_PIN RELAY_INACTIVE_STATE
           \<in> set (drop (length (old_trace v)) (old_trace (Old_Off (Old_StartPanic v))))"
    by blast+
qed

lemma Old_shutdown:
  "old_is_panic (Old_Off (Old_StartPanic v))"
  "old_heater_is_off (Old_Off (Old_StartPanic v))"
  by (simp_all add: Old_Off_fields Old_StartPanic_sets)

lemma Old_SetState_small:
  "s < Old_NumStates \<Longrightarrow> Old_SetState s w = Old_SetState_in_range s w"
  by (simp add: Old_SetState_def)

lemma Old_On_fields [simp]:
  "old_is_panic (Old_On w) = old_is_panic w"
  by (simp add: Old_On_def Old_digitalWrite_def)

lemma Old_Update_over:
  "old_st v \<noteq> OFF \<Longrightarrow> t > Old_TEMP_MAX \<Longrightarrow> Old_Update t v = Old_Off (Old_StartPanic v)"
  by (simp add: Old_Update_def)

lemma Old_Update_no_fault:
  "t \<le> Old_TEMP_MAX \<Longrightarrow> old_is_panic (Old_Update t v) = old_is_panic v"
  by (simp add: Old_Update_def Old_SetState_small Old_NumStates_def Old_Off_fields)

text \<open>The older sketch with its heater switched on by the sample 23.\<close>

lemma Old_heating:
  "old_is_panic (Old_Update 23 (Old_setup Old_globals)) = False"
  "old_callback_count (Old_Update 23 (Old_setup Old_globals)) = 2"
  "old_callbacks (Old_Update 23 (Old_setup Old_globals)) 0 = Some SetStatePanicLambda"
  "old_callbacks (Old_Update 23 (Old_setup Old_globals)) (Suc 0) = Some OffLambdaOld"
  "old_st (Old_Update 23 (Old_setup Old_globals)) = HEATING"
  "old_heater_is_off (Old_Update 23 (Old_setup Old_globals)) = False"
  "old_GUndetectedCount (Old_Update 23 (Old_setup Old_globals)) = 0"
  "old_trace (Old_Update 23 (Old_setup Old_globals)) =
     [PinModeOutput 8, DigitalWrite 8 LOW, PinModeOutput 13, DigitalWrite 8 HIGH]"
  by (simp_all add: Old_Update_def Old_booted old_defs config_defs Old_SetState_def
      Old_SetState_in_range_def Old_On_def Old_digitalWrite_def)

lemma heating_nico_callbacks:
  "registered_callbacks (TempController_Update nico 23 (arduino_setup globals)) =
     [Some (OffLambda nico), Some (OffLambda trap)]"
  "relay_pin (ctrls (TempController_Update nico 23 (arduino_setup globals)) trap) = 12"
  by (simp_all add: registered_callbacks_def TempController_Update_def booted_fields
      booted_panic TEMP_ALLOWANCE_def TempController_On_def digitalWrite_def
      DesyncMan_Reset_def Let_def numeral_2_eq_2)

lemma Old_Update_at_max_heating:
  "old_st v = HEATING \<Longrightarrow> \<not> old_is_panic v \<Longrightarrow>
     old_st (Old_Update 28 v) = COOLING \<and> old_heater_is_off (Old_Update 28 v) \<and>
     \<not> old_is_panic (Old_Update 28 v)"
  by (simp add: Old_Update_def old_defs config_defs Old_SetState_small Old_Off_fields
      Old_Off_def Old_digitalWrite_def Old_IsPanic_def Let_def)

text \<open>Five readings without a sensor are counted and nothing else.\<close>

lemma Old_five_misses:
  "(Old_loop_sample (- 127) ^^ 5) (Old_Update 23 (Old_setup Old_globals)) =
     (Old_Update 23 (Old_setup Old_globals))\<lparr>old_GUndetectedCount := 5\<rparr>"
  by (simp add: eval_nat_numeral Old_loop_sample_def DEVICE_DISCONNECTED_C_def Old_heating)

section \<open>The panic latch\<close>



section \<open>No heating after the latch\<close>

text \<open>
  Claim C2. While the latch is set, \<open>TempController::Loop\<close> returns at once: it takes no
  sample, evaluates no transition and changes nothing. A pass of \<open>loop()\<close> under the
  latch, and so every run of passes from a state with the latch set, leaves both
  controllers exactly as they are and adds nothing to the trace but the writes to the
  indicator pin: \<open>On\<close> is never called again. And the call of \<open>Loop\<close> that sets the
  latch adds only writes of the inactive level to the trace and switches no output from
  inactive to active, so from the moment of the trigger no relay is activated.
\<close>

theorem latched_never_heats:
  "(is_panic (panic w) \<longrightarrow>
      TempController_Loop c t w = w \<and>
      (\<exists>w'. loop t_nico t_trap w = Some w' \<and> ctrls w' = ctrls w \<and> is_panic (panic w') \<and>
         trace w' = trace w @ new_events w w' \<and> list_all is_led_write (new_events w w')) \<and>
      (\<exists>w'. run ps w = Some w' \<and> ctrls w' = ctrls w \<and> is_panic (panic w') \<and>
         trace w' = trace w @ new_events w w' \<and> list_all is_led_write (new_events w w'))) \<and>
   (\<not> is_panic (panic w) \<and> is_panic (panic (TempController_Loop c t w)) \<longrightarrow>
      trace (TempController_Loop c t w) = trace w @ new_events w (TempController_Loop c t w) \<and>
      list_all is_inactive_write (new_events w (TempController_Loop c t w)) \<and>
      (heater_is_off (ctrls w nico) \<longrightarrow> heater_is_off (ctrls (TempController_Loop c t w) nico)) \<and>
      (heater_is_off (ctrls w trap) \<longrightarrow> heater_is_off (ctrls (TempController_Loop c t w) trap)))"
proof (intro conjI impI)
  assume p: "is_panic (panic w)"
  show "TempController_Loop c t w = w" using p by (rule Loop_latched)
  from loop_latched [OF p, of t_nico t_trap] obtain w' v where
    w': "loop t_nico t_trap w = Some w'" "ctrls w' = ctrls w" "panic w' = panic w"
      "trace w' = trace w @ [DigitalWrite LED_BUILTIN v]"
    by blast
  have "list_all is_led_write [DigitalWrite LED_BUILTIN v]" by simp
  with w' p
  show "\<exists>w'. loop t_nico t_trap w = Some w' \<and> ctrls w' = ctrls w \<and> is_panic (panic w') \<and>
         trace w' = trace w @ new_events w w' \<and> list_all is_led_write (new_events w w')"
    by (intro latched_resultI)
  from run_latched [OF p, of ps] obtain w'' es where
    w'': "run ps w = Some w''" "ctrls w'' = ctrls w" "panic w'' = panic w"
      "trace w'' = trace w @ es" "list_all is_led_write es"
    by blast
  with p
  show "\<exists>w'. run ps w = Some w' \<and> ctrls w' = ctrls w \<and> is_panic (panic w') \<and>
         trace w' = trace w @ new_events w w' \<and> list_all is_led_write (new_events w w')"
    by (intro latched_resultI)
next
  assume a: "\<not> is_panic (panic w) \<and> is_panic (panic (TempController_Loop c t w))"
  then have n: "\<not> is_panic (panic w)" and l: "is_panic (panic (TempController_Loop c t w))"
    by simp_all
  from Loop_triggering [OF n l, of nico] obtain es where
    es: "trace (TempController_Loop c t w) = trace w @ es" "list_all is_inactive_write es"
    by blast
  have ne: "new_events w (TempController_Loop c t w) = es"
    using es(1) by (simp add: new_events_def)
  show "trace (TempController_Loop c t w) = trace w @ new_events w (TempController_Loop c t w)"
    unfolding ne by (rule es(1))
  show "list_all is_inactive_write (new_events w (TempController_Loop c t w))"
    unfolding ne by (rule es(2))
  show "heater_is_off (ctrls (TempController_Loop c t w) nico)" if "heater_is_off (ctrls w nico)"
    using Loop_triggering [OF n l, of nico] that by blast
  show "heater_is_off (ctrls (TempController_Loop c t w) trap)" if "heater_is_off (ctrls w trap)"
    using Loop_triggering [OF n l, of trap] that by blast
qed

theorem latched_never_heats_witness:
  "is_panic (panic (Panic_StartPanic Other 0 0 (arduino_setup globals))) \<and>
   TempController_Loop nico 20 (Panic_StartPanic Other 0 0 (arduino_setup globals)) =
     Panic_StartPanic Other 0 0 (arduino_setup globals) \<and>
   (\<exists>w'. run [(2000, 20, 20), (2000, 20, 20)]
            (Panic_StartPanic Other 0 0 (arduino_setup globals)) = Some w' \<and>
         ctrls w' = ctrls (Panic_StartPanic Other 0 0 (arduino_setup globals)) \<and>
         list_all is_led_write
           (new_events (Panic_StartPanic Other 0 0 (arduino_setup globals)) w')) \<and>
   \<not> is_panic (panic (arduino_setup globals)) \<and>
   is_panic (panic (TempController_Loop nico (- 127) (arduino_setup globals))) \<and>
   list_all is_inactive_write
     (new_events (arduino_setup globals)
        (TempController_Loop nico (- 127) (arduino_setup globals)))"
proof -
  let ?w = "arduino_setup globals"
  let ?p = "Panic_StartPanic Other 0 0 ?w"
  have p: "is_panic (panic ?p)" by simp
  have n: "\<not> is_panic (panic ?w)" by (simp add: booted_panic)
  have l: "is_panic (panic (TempController_Loop nico (- 127) ?w))"
    using n by (simp add: TempController_Loop_def Panic_IsPanic_def DEVICE_DISCONNECTED_C_def)
  from latched_never_heats [of ?p nico 20 20 20 "[(2000, 20, 20), (2000, 20, 20)]"] p
  have a: "TempController_Loop nico 20 ?p = ?p"
    and b: "\<exists>w'. run [(2000, 20, 20), (2000, 20, 20)] ?p = Some w' \<and> ctrls w' = ctrls ?p \<and>
         is_panic (panic w') \<and> trace w' = trace ?p @ new_events ?p w' \<and>
         list_all is_led_write (new_events ?p w')"
    by blast+
  from latched_never_heats [of ?w nico "- 127" 20 20 "[]"] n l
  have c: "list_all is_inactive_write (new_events ?w (TempController_Loop nico (- 127) ?w))"
    by blast
  from b have b': "\<exists>w'. run [(2000, 20, 20), (2000, 20, 20)] ?p = Some w' \<and>
      ctrls w' = ctrls ?p \<and> list_all is_led_write (new_events ?p w')"
    by blast
  from p a b' n l c show ?thesis by blast
qed


section \<open>The state OFF\<close>

text \<open>
  Claim C3. The controllers start in state \<open>COOLING\<close> with the output inactive. After
  any sequence of calls of the sketch from such a state (\<open>Update\<close>, \<open>Off\<close> and
  \<open>Loop\<close> on either controller among them), a controller in state \<open>OFF\<close> has its
  output flag inactive and the latch is set. And a single call that takes a controller
  from \<open>HEATING\<close> or \<open>COOLING\<close> to \<open>OFF\<close> ends with the latch set: the hysteresis
  transitions, which do not set the latch, never lead to \<open>OFF\<close>. From a well-formed
  registry every sequence of calls runs to its end.
\<close>

theorem OFF_only_under_latch:
  "fresh globals nico \<and> fresh globals trap \<and> registry_ok globals \<and>
   (registry_ok w \<longrightarrow> (\<exists>w'. execs cs w = Some w')) \<and>
   (fresh w nico \<and> fresh w trap \<and> execs cs w = Some w' \<and> st (ctrls w' c) = OFF \<longrightarrow>
      heater_is_off (ctrls w' c) \<and> is_panic (panic w')) \<and>
   (st (ctrls w c) \<noteq> OFF \<and> exec a w = Some w' \<and> st (ctrls w' c) = OFF \<longrightarrow>
      heater_is_off (ctrls w' c) \<and> is_panic (panic w'))"
proof (intro conjI impI)
  show "fresh globals nico" "fresh globals trap"
    by (simp_all add: fresh_def globals_def TempController_new_def)
  show "registry_ok globals"
    by (simp add: registry_ok_def globals_def)
next
  assume "registry_ok w"
  then have "registry_ok w \<or> is_panic (panic w)" ..
  from execs_invariants [OF this, of cs] show "\<exists>w'. execs cs w = Some w'" by blast
next
  assume a: "fresh w nico \<and> fresh w trap \<and> execs cs w = Some w' \<and> st (ctrls w' c) = OFF"
  then have "off_is_safe w c" by (cases c) (simp_all add: fresh_safe)
  with a have "off_is_safe w' c" by (blast intro: execs_safe)
  with a show "heater_is_off (ctrls w' c)" and "is_panic (panic w')"
    by (simp_all add: off_is_safe_def)
next
  assume a: "st (ctrls w c) \<noteq> OFF \<and> exec a w = Some w' \<and> st (ctrls w' c) = OFF"
  then have "off_is_safe w c" by (simp add: off_is_safe_def)
  with a have "off_is_safe w' c" by (blast intro: exec_safe)
  with a show "heater_is_off (ctrls w' c)" and "is_panic (panic w')"
    by (simp_all add: off_is_safe_def)
qed

theorem OFF_only_under_latch_witness:
  "execs [CallUpdate nico 23, Elapse 2000, CallUpdate nico 28] (arduino_setup globals) =
     Some (TempController_Update nico 28
             (advance 2000 (TempController_Update nico 23 (arduino_setup globals)))) \<and>
   st (ctrls (TempController_Update nico 23 (arduino_setup globals)) nico) = HEATING \<and>
   st (ctrls (TempController_Update nico 28
             (advance 2000 (TempController_Update nico 23 (arduino_setup globals)))) nico) = OFF \<and>
   heater_is_off (ctrls (TempController_Update nico 28
             (advance 2000 (TempController_Update nico 23 (arduino_setup globals)))) nico) \<and>
   is_panic (panic (TempController_Update nico 28
             (advance 2000 (TempController_Update nico 23 (arduino_setup globals)))))"
proof -
  let ?w = "arduino_setup globals"
  let ?h = "advance 2000 (TempController_Update nico 23 ?w)"
  let ?o = "TempController_Update nico 28 ?h"
  have f: "fresh ?w nico \<and> fresh ?w trap"
    by (simp add: fresh_def booted_fields)
  have e: "execs [CallUpdate nico 23, Elapse 2000, CallUpdate nico 28] ?w = Some ?o"
    by simp
  have "st (ctrls ?h nico) \<noteq> OFF" "28 \<ge> max_temp (ctrls ?h nico)"
    by (simp_all add: heating_nico booted_fields)
  then have "?o = TempController_Off nico
      (Panic_StartPanic OverMax (ctrl_uid (ctrls ?h nico)) 358 ?h)"
    by (rule Update_over_max)
  then have s: "st (ctrls ?o nico) = OFF"
    by (simp add: Off_after_StartPanic)
  from OFF_only_under_latch
    [of ?w "[CallUpdate nico 23, Elapse 2000, CallUpdate nico 28]" ?o nico] f e s
  have "heater_is_off (ctrls ?o nico) \<and> is_panic (panic ?o)"
    by blast
  with e s show ?thesis by (simp add: heating_nico)
qed

section \<open>The over-temperature cutoff\<close>

text \<open>
  Claim C4, as amended. In main.cpp, for a controller in state \<open>HEATING\<close> or
  \<open>COOLING\<close>, \<open>Update\<close> with a temperature at or above \<open>max_\<close> is
  \<open>PANIC(uid_, OverMax)\<close> followed by \<open>Off()\<close> and nothing else: afterwards the latch
  is set (with cause \<open>OverMax\<close>, the uid of the controller and line 358 recorded if this
  is the first fault), the state is \<open>OFF\<close> and the output flag says inactive. The events
  of the call are the writes of the shutdown callbacks, if the latch was clear, and then
  the write of the inactive level to the relay pin of the controller. The check stands
  before the desync and the hysteresis checks: the desync detector is not touched in this
  call, and every event the call adds to the trace is a write of the inactive level, so no
  output is switched on.

  In oldsystem.cpp the test is \<open>current_temp_c > Max\<close>. For a controller in state
  \<open>HEATING\<close> or \<open>COOLING\<close>, \<open>Update\<close> with a temperature above \<open>Max\<close> is
  \<open>StartPanic()\<close>, which records no cause, followed by \<open>Off()\<close>: afterwards the latch
  is set and the output flag says inactive, and if the output was active the inactive level
  has been written to the relay pin and the state is \<open>OFF\<close>. A temperature at or below
  \<open>Max\<close> raises no fault there.
\<close>

theorem over_max_shuts_down:
  "(st (ctrls w c) \<noteq> OFF \<and> t \<ge> max_temp (ctrls w c) \<longrightarrow>
     TempController_Update c t w =
       TempController_Off c (Panic_StartPanic OverMax (ctrl_uid (ctrls w c)) 358 w) \<and>
     st (ctrls (TempController_Update c t w) c) = OFF \<and>
     heater_is_off (ctrls (TempController_Update c t w) c) \<and>
     is_panic (panic (TempController_Update c t w)) \<and>
     panic_info (panic (TempController_Update c t w)) =
       (if is_panic (panic w) then panic_info (panic w)
        else \<lparr>ms = clock w, line = 358, uid = ctrl_uid (ctrls w c), reason = OverMax\<rparr>) \<and>
     desync_man (ctrls (TempController_Update c t w) c) = desync_man (ctrls w c) \<and>
     trace (TempController_Update c t w) = trace w @ new_events w (TempController_Update c t w) \<and>
     list_all is_inactive_write (new_events w (TempController_Update c t w)) \<and>
     new_events w (TempController_Update c t w) =
       (if is_panic (panic w) then []
        else concat (map (callback_events w) (registered_callbacks w))) @
       [DigitalWrite (relay_pin (ctrls w c)) RELAY_INACTIVE_STATE]) \<and>
   (old_st v \<noteq> OFF \<and> u > Old_TEMP_MAX \<longrightarrow>
     Old_Update u v = Old_Off (Old_StartPanic v) \<and>
     old_is_panic (Old_Update u v) \<and>
     old_heater_is_off (Old_Update u v) \<and>
     (\<not> old_heater_is_off v \<longrightarrow>
        old_st (Old_Update u v) = OFF \<and>
        DigitalWrite Old_RELAY_PIN RELAY_INACTIVE_STATE
          \<in> set (drop (length (old_trace v)) (old_trace (Old_Update u v))))) \<and>
   (u \<le> Old_TEMP_MAX \<longrightarrow> old_is_panic (Old_Update u v) = old_is_panic v)"
proof (intro conjI impI)
  assume a: "st (ctrls w c) \<noteq> OFF \<and> t \<ge> max_temp (ctrls w c)"
  let ?p = "Panic_StartPanic OverMax (ctrl_uid (ctrls w c)) 358 w"
  let ?cb = "if is_panic (panic w) then []
        else concat (map (callback_events w) (registered_callbacks w))"
  have e: "TempController_Update c t w = TempController_Off c ?p"
    using a by (simp add: Update_over_max)
  from Off_StartPanic_trace [of c OverMax "ctrl_uid (ctrls w c)" 358 w] obtain es where
    es: "trace (TempController_Off c ?p) = trace w @ es" "list_all is_inactive_write es"
    by blast
  have n: "new_events w (TempController_Off c ?p) = es"
    using es(1) by (rule new_events_append)
  have p: "trace ?p = trace w @ ?cb"
  proof (cases "is_panic (panic w)")
    case True
    then show ?thesis by (simp add: StartPanic_latched)
  next
    case False
    then show ?thesis by (simp add: trace_StartPanic_first)
  qed
  have "trace (TempController_Off c ?p) =
      trace w @ (?cb @ [DigitalWrite (relay_pin (ctrls w c)) RELAY_INACTIVE_STATE])"
    by (simp only: Off_fields p) simp
  then have x: "es = ?cb @ [DigitalWrite (relay_pin (ctrls w c)) RELAY_INACTIVE_STATE]"
    using es(1) by simp
  show "TempController_Update c t w =
       TempController_Off c (Panic_StartPanic OverMax (ctrl_uid (ctrls w c)) 358 w)"
    by (rule e)
  show "st (ctrls (TempController_Update c t w) c) = OFF"
    unfolding e by (simp add: Off_after_StartPanic)
  show "heater_is_off (ctrls (TempController_Update c t w) c)"
    unfolding e by (simp add: Off_after_StartPanic)
  show "is_panic (panic (TempController_Update c t w))"
    unfolding e by simp
  show "panic_info (panic (TempController_Update c t w)) =
       (if is_panic (panic w) then panic_info (panic w)
        else \<lparr>ms = clock w, line = 358, uid = ctrl_uid (ctrls w c), reason = OverMax\<rparr>)"
    unfolding e by (simp add: StartPanic_panic_info)
  show "desync_man (ctrls (TempController_Update c t w) c) = desync_man (ctrls w c)"
    unfolding e by (simp add: Off_ctrls)
  show "trace (TempController_Update c t w) = trace w @ new_events w (TempController_Update c t w)"
    unfolding e n by (rule es(1))
  show "list_all is_inactive_write (new_events w (TempController_Update c t w))"
    unfolding e n by (rule es(2))
  show "new_events w (TempController_Update c t w) =
       (if is_panic (panic w) then []
        else concat (map (callback_events w) (registered_callbacks w))) @
       [DigitalWrite (relay_pin (ctrls w c)) RELAY_INACTIVE_STATE]"
    unfolding e n by (rule x)
next
  assume b: "old_st v \<noteq> OFF \<and> u > Old_TEMP_MAX"
  then show o: "Old_Update u v = Old_Off (Old_StartPanic v)"
    by (simp add: Old_Update_over)
  show "old_is_panic (Old_Update u v)"
    unfolding o by (rule Old_shutdown)
  show "old_heater_is_off (Old_Update u v)"
    unfolding o by (rule Old_shutdown)
  assume h: "\<not> old_heater_is_off v"
  show "old_st (Old_Update u v) = OFF"
    unfolding o using h by (rule Old_shutdown_active)
  show "DigitalWrite Old_RELAY_PIN RELAY_INACTIVE_STATE
          \<in> set (drop (length (old_trace v)) (old_trace (Old_Update u v)))"
    unfolding o using h by (rule Old_shutdown_active)
next
  assume "u \<le> Old_TEMP_MAX"
  then show "old_is_panic (Old_Update u v) = old_is_panic v"
    by (rule Old_Update_no_fault)
qed

text \<open>
  In main.cpp \<open>nico\<close>, idle after \<open>setup()\<close> or switched on by the sample 23, is
  shut down by a sample at or above 28; the relay pin 8 gets the inactive level from the
  callback of \<open>nico\<close> and once more from \<open>Update\<close> itself. The older sketch,
  switched on by the sample 23, is shut down by the sample 29 and raises no fault at 28.
\<close>

theorem over_max_shuts_down_witness:
  "st (ctrls (arduino_setup globals) nico) = COOLING \<and>
   st (ctrls (TempController_Update nico 28.5 (arduino_setup globals)) nico) = OFF \<and>
   heater_is_off (ctrls (TempController_Update nico 28.5 (arduino_setup globals)) nico) \<and>
   panic_info (panic (TempController_Update nico 28.5 (arduino_setup globals))) =
     \<lparr>ms = 0, line = 358, uid = 1, reason = OverMax\<rparr> \<and>
   trace (TempController_Update nico 28.5 (arduino_setup globals)) =
     trace (arduino_setup globals) @ [DigitalWrite 8 LOW, DigitalWrite 12 LOW, DigitalWrite 8 LOW] \<and>
   st (ctrls (TempController_Update nico 23 (arduino_setup globals)) nico) = HEATING \<and>
   \<not> heater_is_off (ctrls (TempController_Update nico 23 (arduino_setup globals)) nico) \<and>
   st (ctrls (TempController_Update nico 28
         (TempController_Update nico 23 (arduino_setup globals))) nico) = OFF \<and>
   heater_is_off (ctrls (TempController_Update nico 28
         (TempController_Update nico 23 (arduino_setup globals))) nico) \<and>
   panic_info (panic (TempController_Update nico 28
         (TempController_Update nico 23 (arduino_setup globals)))) =
     \<lparr>ms = 0, line = 358, uid = 1, reason = OverMax\<rparr> \<and>
   trace (TempController_Update nico 28
         (TempController_Update nico 23 (arduino_setup globals))) =
     trace (arduino_setup globals) @
       [DigitalWrite 8 HIGH, DigitalWrite 8 LOW, DigitalWrite 12 LOW, DigitalWrite 8 LOW] \<and>
   old_st (Old_Update 23 (Old_setup Old_globals)) = HEATING \<and>
   \<not> old_heater_is_off (Old_Update 23 (Old_setup Old_globals)) \<and>
   old_is_panic (Old_Update 29 (Old_Update 23 (Old_setup Old_globals))) \<and>
   old_heater_is_off (Old_Update 29 (Old_Update 23 (Old_setup Old_globals))) \<and>
   old_st (Old_Update 29 (Old_Update 23 (Old_setup Old_globals))) = OFF \<and>
   DigitalWrite 8 LOW
     \<in> set (drop 4 (old_trace (Old_Update 29 (Old_Update 23 (Old_setup Old_globals))))) \<and>
   \<not> old_is_panic (Old_Update 28 (Old_Update 23 (Old_setup Old_globals)))"
proof -
  let ?w = "arduino_setup globals"
  let ?h = "TempController_Update nico 23 ?w"
  let ?v = "Old_Update 23 (Old_setup Old_globals)"
  have c: "st (ctrls ?w nico) \<noteq> OFF \<and> 57 / 2 \<ge> max_temp (ctrls ?w nico)"
    by (simp add: booted_fields)
  have h: "st (ctrls ?h nico) \<noteq> OFF \<and> 28 \<ge> max_temp (ctrls ?h nico)"
    by (simp add: heating_nico booted_fields)
  have o: "old_st ?v \<noteq> OFF \<and> 29 > Old_TEMP_MAX" "\<not> old_heater_is_off ?v"
    "28 \<le> Old_TEMP_MAX"
    by (simp_all add: Old_heating Old_TEMP_MAX_def)
  from over_max_shuts_down [of ?w nico "57 / 2"] c
  have r1: "st (ctrls (TempController_Update nico (57 / 2) ?w) nico) = OFF"
    "heater_is_off (ctrls (TempController_Update nico (57 / 2) ?w) nico)"
    "panic_info (panic (TempController_Update nico (57 / 2) ?w)) =
       (if is_panic (panic ?w) then panic_info (panic ?w)
        else \<lparr>ms = clock ?w, line = 358, uid = ctrl_uid (ctrls ?w nico), reason = OverMax\<rparr>)"
    "trace (TempController_Update nico (57 / 2) ?w) =
       trace ?w @ new_events ?w (TempController_Update nico (57 / 2) ?w)"
    "new_events ?w (TempController_Update nico (57 / 2) ?w) =
       (if is_panic (panic ?w) then []
        else concat (map (callback_events ?w) (registered_callbacks ?w))) @
       [DigitalWrite (relay_pin (ctrls ?w nico)) RELAY_INACTIVE_STATE]"
    by blast+
  from over_max_shuts_down [of ?h nico 28] h
  have r2: "st (ctrls (TempController_Update nico 28 ?h) nico) = OFF"
    "heater_is_off (ctrls (TempController_Update nico 28 ?h) nico)"
    "panic_info (panic (TempController_Update nico 28 ?h)) =
       (if is_panic (panic ?h) then panic_info (panic ?h)
        else \<lparr>ms = clock ?h, line = 358, uid = ctrl_uid (ctrls ?h nico), reason = OverMax\<rparr>)"
    "trace (TempController_Update nico 28 ?h) =
       trace ?h @ new_events ?h (TempController_Update nico 28 ?h)"
    "new_events ?h (TempController_Update nico 28 ?h) =
       (if is_panic (panic ?h) then []
        else concat (map (callback_events ?h) (registered_callbacks ?h))) @
       [DigitalWrite (relay_pin (ctrls ?h nico)) RELAY_INACTIVE_STATE]"
    by blast+
  from over_max_shuts_down [where v = ?v and u = 29] o(1,2)
  have r3: "old_is_panic (Old_Update 29 ?v)" "old_heater_is_off (Old_Update 29 ?v)"
    "old_st (Old_Update 29 ?v) = OFF"
    "DigitalWrite Old_RELAY_PIN RELAY_INACTIVE_STATE
          \<in> set (drop (length (old_trace ?v)) (old_trace (Old_Update 29 ?v)))"
    by blast+
  from over_max_shuts_down [where v = ?v and u = 28] o(3)
  have r4: "old_is_panic (Old_Update 28 ?v) = old_is_panic ?v"
    by blast
  have t1: "trace (TempController_Update nico (57 / 2) ?w) =
     trace ?w @ [DigitalWrite 8 LOW, DigitalWrite 12 LOW, DigitalWrite 8 LOW]"
    unfolding r1(4) r1(5)
    by (simp add: booted_panic booted_registered booted_fields callback_events_def
        RELAY_INACTIVE_STATE_def)
  have t2: "trace (TempController_Update nico 28 ?h) =
     trace ?w @ [DigitalWrite 8 HIGH, DigitalWrite 8 LOW, DigitalWrite 12 LOW, DigitalWrite 8 LOW]"
    unfolding r2(4) r2(5)
    by (simp add: heating_nico heating_nico_more heating_nico_callbacks callback_events_def
        RELAY_INACTIVE_STATE_def booted_fields)
  have p1: "panic_info (panic (TempController_Update nico (57 / 2) ?w)) =
     \<lparr>ms = 0, line = 358, uid = 1, reason = OverMax\<rparr>"
    unfolding r1(3) by (simp add: booted_panic booted_fields)
  have p2: "panic_info (panic (TempController_Update nico 28 ?h)) =
     \<lparr>ms = 0, line = 358, uid = 1, reason = OverMax\<rparr>"
    unfolding r2(3) by (simp add: heating_nico booted_fields)
  have l: "DigitalWrite 8 LOW \<in> set (drop 4 (old_trace (Old_Update 29 ?v)))"
    using r3(4)
    by (simp add: Old_heating Old_RELAY_PIN_def RELAY_INACTIVE_STATE_def eval_nat_numeral)
  have q: "\<not> old_is_panic (Old_Update 28 ?v)"
    using r4 by (simp add: Old_heating)
  have b: "st (ctrls ?w nico) = COOLING" "st (ctrls ?h nico) = HEATING"
    "\<not> heater_is_off (ctrls ?h nico)" "old_st ?v = HEATING" "\<not> old_heater_is_off ?v"
    by (simp_all add: booted_fields heating_nico Old_heating)
  from b r1(1,2) p1 t1 r2(1,2) p2 t2 r3(1,2,3) l q show ?thesis
    by simp
qed

text \<open>
  The claim as first stated fails on oldsystem.cpp: with the heater on, the sample 28 is
  at \<open>Max\<close>, yet no fault is raised, and the call makes the hysteresis transition to
  \<open>COOLING\<close>.
\<close>

theorem legacy_at_max_counterexample:
  "old_st (Old_Update 23 (Old_setup Old_globals)) = HEATING \<and>
   Old_TEMP_MAX \<le> 28 \<and>
   \<not> old_is_panic (Old_Update 28 (Old_Update 23 (Old_setup Old_globals))) \<and>
   old_st (Old_Update 28 (Old_Update 23 (Old_setup Old_globals))) = COOLING"
  using Old_Update_at_max_heating [of "Old_Update 23 (Old_setup Old_globals)"]
  by (simp add: Old_heating Old_TEMP_MAX_def)

section \<open>The hysteresis band\<close>

text \<open>
  Claim C5, as amended. For every sequence of samples fed to \<open>Update\<close>: an output goes
  from inactive to active only in state \<open>COOLING\<close> on a sample at or below
  \<open>target_ - TEMP_ALLOWANCE\<close>, so from \<open>COOLING\<close> with the output inactive it stays
  inactive as long as every sample is above that bound. An output goes from active to
  inactive only on a sample at or above \<open>target_ + TEMP_ALLOWANCE\<close>, or in a call that
  ends with the latch set (the sample is at or above \<open>max_\<close>, or the desync detector
  fires); so from \<open>HEATING\<close>, as long as every sample is below
  \<open>target_ + TEMP_ALLOWANCE\<close> and the latch stays clear, state and output stay as they
  are and no relay is written. A sample strictly inside the band changes neither state
  nor output and writes no relay, unless the call ends with the latch set.
\<close>

theorem hysteresis_absent_fault:
  "(heater_is_off (ctrls w c) \<and> \<not> heater_is_off (ctrls (TempController_Update c t w) c) \<longrightarrow>
      st (ctrls w c) = COOLING \<and> t \<le> target (ctrls w c) - TEMP_ALLOWANCE) \<and>
   (\<not> heater_is_off (ctrls w c) \<and> heater_is_off (ctrls (TempController_Update c t w) c) \<longrightarrow>
      t \<ge> target (ctrls w c) + TEMP_ALLOWANCE \<or>
      is_panic (panic (TempController_Update c t w))) \<and>
   (target (ctrls w c) - TEMP_ALLOWANCE < t \<and> t < target (ctrls w c) + TEMP_ALLOWANCE \<and>
    \<not> is_panic (panic (TempController_Update c t w)) \<longrightarrow>
      st (ctrls (TempController_Update c t w) c) = st (ctrls w c) \<and>
      heater_is_off (ctrls (TempController_Update c t w) c) = heater_is_off (ctrls w c) \<and>
      trace (TempController_Update c t w) = trace w) \<and>
   (st (ctrls w c) = COOLING \<and> heater_is_off (ctrls w c) \<and>
    list_all (\<lambda>(d, t). target (ctrls w c) - TEMP_ALLOWANCE < t) ss \<longrightarrow>
      heater_is_off (ctrls (feed c ss w) c) \<and>
      trace (feed c ss w) = trace w @ new_events w (feed c ss w) \<and>
      list_all is_inactive_write (new_events w (feed c ss w))) \<and>
   (st (ctrls w c) = HEATING \<and>
    list_all (\<lambda>(d, t). t < target (ctrls w c) + TEMP_ALLOWANCE) ss \<and>
    \<not> is_panic (panic (feed c ss w)) \<longrightarrow>
      st (ctrls (feed c ss w) c) = HEATING \<and>
      heater_is_off (ctrls (feed c ss w) c) = heater_is_off (ctrls w c) \<and>
      trace (feed c ss w) = trace w)"
proof (intro conjI impI)
  assume "heater_is_off (ctrls w c) \<and> \<not> heater_is_off (ctrls (TempController_Update c t w) c)"
  then show "st (ctrls w c) = COOLING" and "t \<le> target (ctrls w c) - TEMP_ALLOWANCE"
    using Update_activation [of w c t] by simp_all
next
  assume "\<not> heater_is_off (ctrls w c) \<and> heater_is_off (ctrls (TempController_Update c t w) c)"
  then show "t \<ge> target (ctrls w c) + TEMP_ALLOWANCE \<or>
      is_panic (panic (TempController_Update c t w))"
    using Update_deactivation [of w c t] by simp
next
  assume "target (ctrls w c) - TEMP_ALLOWANCE < t \<and> t < target (ctrls w c) + TEMP_ALLOWANCE \<and>
    \<not> is_panic (panic (TempController_Update c t w))"
  then show "st (ctrls (TempController_Update c t w) c) = st (ctrls w c)"
    and "heater_is_off (ctrls (TempController_Update c t w) c) = heater_is_off (ctrls w c)"
    and "trace (TempController_Update c t w) = trace w"
    using Update_quiet [of c t w] by simp_all
next
  assume a: "st (ctrls w c) = COOLING \<and> heater_is_off (ctrls w c) \<and>
    list_all (\<lambda>(d, t). target (ctrls w c) - TEMP_ALLOWANCE < t) ss"
  then have "st (ctrls w c) = COOLING \<or> st (ctrls w c) = OFF" "heater_is_off (ctrls w c)"
    "list_all (\<lambda>(d, t). target (ctrls w c) - TEMP_ALLOWANCE < t) ss"
    by simp_all
  from feed_cooling [OF this] obtain es where
    es: "heater_is_off (ctrls (feed c ss w) c)" "trace (feed c ss w) = trace w @ es"
      "list_all is_inactive_write es"
    by blast
  have n: "new_events w (feed c ss w) = es"
    using es(2) by (simp add: new_events_def)
  show "heater_is_off (ctrls (feed c ss w) c)" by (rule es(1))
  show "trace (feed c ss w) = trace w @ new_events w (feed c ss w)"
    unfolding n by (rule es(2))
  show "list_all is_inactive_write (new_events w (feed c ss w))"
    unfolding n by (rule es(3))
next
  assume a: "st (ctrls w c) = HEATING \<and>
    list_all (\<lambda>(d, t). t < target (ctrls w c) + TEMP_ALLOWANCE) ss \<and>
    \<not> is_panic (panic (feed c ss w))"
  then have "st (ctrls w c) = HEATING"
    "list_all (\<lambda>(d, t). t < target (ctrls w c) + TEMP_ALLOWANCE) ss"
    "\<not> is_panic (panic (feed c ss w))"
    by simp_all
  from feed_heating [OF this]
  show "st (ctrls (feed c ss w) c) = HEATING"
    and "heater_is_off (ctrls (feed c ss w) c) = heater_is_off (ctrls w c)"
    and "trace (feed c ss w) = trace w"
    by simp_all
qed

text \<open>
  The amended statement at the controller \<open>nico\<close> of the sketch: switched on at 23,
  quiet at 24, shut down by the desync fault, and the two sequences.
\<close>

theorem hysteresis_absent_fault_witness:
  "st (ctrls (arduino_setup globals) nico) = COOLING \<and>
   23 \<le> target (ctrls (arduino_setup globals) nico) - TEMP_ALLOWANCE \<and>
   is_panic (panic (TempController_Update nico 24
     (advance 180000 (TempController_Update nico 24
        (advance 2000 (TempController_Update nico 23 (arduino_setup globals))))))) \<and>
   trace (TempController_Update nico 24
            (advance 2000 (TempController_Update nico 23 (arduino_setup globals)))) =
     trace (advance 2000 (TempController_Update nico 23 (arduino_setup globals))) \<and>
   heater_is_off (ctrls (feed nico [(2000, 24), (2000, 25)] (arduino_setup globals)) nico) \<and>
   st (ctrls (feed nico [(2000, 24)] (TempController_Update nico 23 (arduino_setup globals)))
         nico) = HEATING \<and>
   \<not> heater_is_off
       (ctrls (feed nico [(2000, 24)] (TempController_Update nico 23 (arduino_setup globals)))
          nico)"
proof -
  let ?w = "arduino_setup globals"
  let ?h = "TempController_Update nico 23 ?w"
  let ?h2 = "TempController_Update nico 24 (advance 2000 ?h)"
  let ?f = "advance 180000 ?h2"
  have a: "heater_is_off (ctrls ?w nico) \<and> \<not> heater_is_off (ctrls ?h nico)"
    by (simp add: booted_fields heating_nico)
  from hysteresis_absent_fault [of ?w nico 23] a
  have r1: "st (ctrls ?w nico) = COOLING \<and> 23 \<le> target (ctrls ?w nico) - TEMP_ALLOWANCE"
    by blast
  have b: "\<not> heater_is_off (ctrls ?f nico) \<and>
      heater_is_off (ctrls (TempController_Update nico 24 ?f) nico)"
    by (simp add: in_band_2 in_band_3 Off_after_StartPanic)
  have nb: "\<not> 24 \<ge> target (ctrls ?f nico) + TEMP_ALLOWANCE"
    by (simp add: booted_fields TEMP_ALLOWANCE_def)
  from hysteresis_absent_fault [of ?f nico 24] b nb
  have r2: "is_panic (panic (TempController_Update nico 24 ?f))"
    by blast
  have c: "target (ctrls (advance 2000 ?h) nico) - TEMP_ALLOWANCE < 24 \<and>
      24 < target (ctrls (advance 2000 ?h) nico) + TEMP_ALLOWANCE \<and>
      \<not> is_panic (panic ?h2)"
    by (simp add: booted_fields in_band_2 TEMP_ALLOWANCE_def)
  from hysteresis_absent_fault [of "advance 2000 ?h" nico 24] c
  have r3: "trace ?h2 = trace (advance 2000 ?h)"
    by blast
  have d: "st (ctrls ?w nico) = COOLING \<and> heater_is_off (ctrls ?w nico) \<and>
      list_all (\<lambda>(d, t). target (ctrls ?w nico) - TEMP_ALLOWANCE < t) [(2000, 24), (2000, 25)]"
    by (simp add: booted_fields TEMP_ALLOWANCE_def)
  from hysteresis_absent_fault [of ?w nico _ "[(2000, 24), (2000, 25)]"] d
  have r4: "heater_is_off (ctrls (feed nico [(2000, 24), (2000, 25)] ?w) nico)"
    by blast
  have e: "st (ctrls ?h nico) = HEATING \<and>
      list_all (\<lambda>(d, t). t < target (ctrls ?h nico) + TEMP_ALLOWANCE) [(2000, 24)] \<and>
      \<not> is_panic (panic (feed nico [(2000, 24)] ?h))"
    by (simp add: heating_nico booted_fields in_band_2 TEMP_ALLOWANCE_def)
  from hysteresis_absent_fault [of ?h nico _ "[(2000, 24)]"] e
  have r5: "st (ctrls (feed nico [(2000, 24)] ?h) nico) = HEATING \<and>
      heater_is_off (ctrls (feed nico [(2000, 24)] ?h) nico) = heater_is_off (ctrls ?h nico)"
    by blast
  from r1 r2 r3 r4 r5 show ?thesis
    by (simp only: heating_nico simp_thms)
qed

text \<open>
  The claim as first stated has no exception for faults, and fails: \<open>nico\<close> (target 24,
  band from 23.75 to 24.25) is switched on by the sample 23; the samples 24 and, 180000 ms
  later, 24 again are strictly inside the band and below \<open>target_ + TEMP_ALLOWANCE\<close>,
  yet the second of them deactivates the output, through the desync fault.
\<close>

theorem hysteresis_counterexample:
  "st (ctrls (feed nico [(0, 23), (2000, 24)] (arduino_setup globals)) nico) = HEATING \<and>
   \<not> heater_is_off (ctrls (feed nico [(0, 23), (2000, 24)] (arduino_setup globals)) nico) \<and>
   target (ctrls (arduino_setup globals) nico) - TEMP_ALLOWANCE < 24 \<and>
   24 < target (ctrls (arduino_setup globals) nico) + TEMP_ALLOWANCE \<and>
   heater_is_off
     (ctrls (feed nico [(0, 23), (2000, 24), (180000, 24)] (arduino_setup globals)) nico) \<and>
   st (ctrls (feed nico [(0, 23), (2000, 24), (180000, 24)] (arduino_setup globals)) nico) =
     OFF"
proof -
  have z: "advance 0 (arduino_setup globals) = arduino_setup globals"
    by (simp add: advance_def)
  show ?thesis
    by (simp add: z in_band_2 in_band_3 Off_after_StartPanic booted_fields TEMP_ALLOWANCE_def)
qed


section \<open>The desync detector\<close>

text \<open>
  Claim C6, as amended. For every sequence of calls on a \<open>DesyncMan\<close>: the first
  \<open>Update\<close> after the constructor or after \<open>Reset\<close> (both leave \<open>not_inited_\<close>
  set) records the clock reading and the temperature of that call as the baseline and
  returns false; every later \<open>Update(t)\<close> returns true if and only if the time elapsed
  since the baseline, in unsigned 32-bit arithmetic, is at least 180000 ms and the float
  difference of \<open>t\<close> and the baseline temperature is below 0.25, which is the case
  exactly when the exact difference is below \<open>0.25 - 1 / 2 ^ 27\<close>, the point from which
  the subtraction rounds up to 0.25; when the exact difference is a multiple of 1/128, as
  it is for any two readings of the sensor, this is the test \<open>t - baseline < 0.25\<close>;
  and no \<open>Update\<close> after the first changes the baseline, whatever it returns.
\<close>

theorem DesyncMan_Update_baseline:
  "not_inited DesyncMan_init \<and> not_inited (DesyncMan_Reset e) \<and>
   (not_inited d \<longrightarrow>
      DesyncMan_Updates ((base_now, base_t) # cs) d =
        (False #
           map (\<lambda>(now, t). now - base_now \<ge> 180000 \<and> t - base_t < 0.25 - 1 / 2 ^ 27) cs,
         \<lparr>start_time = base_now, start_temp = base_t, not_inited = False\<rparr>)) \<and>
   (\<not> not_inited d \<longrightarrow>
      DesyncMan_Update now t d =
        (now - start_time d \<ge> 180000 \<and> float_sub t (start_temp d) < 0.25, d) \<and>
      DesyncMan_Update now t d =
        (now - start_time d \<ge> 180000 \<and> t - start_temp d < 0.25 - 1 / 2 ^ 27, d) \<and>
      (t - start_temp d = real_of_int k / 128 \<longrightarrow>
         DesyncMan_Update now t d =
           (now - start_time d \<ge> 180000 \<and> t - start_temp d < 0.25, d)))"
proof -
  have q: "float_sub x y < 0.25 \<longleftrightarrow> x - y < 0.25 - 1 / 2 ^ 27" for x y
    using float_sub_lt_quarter [of x y] by simp
  have s: "x - y = real_of_int k / 128 \<Longrightarrow> float_sub x y < 0.25 \<longleftrightarrow> x - y < 0.25" for x y
    using float_sub_sensor [of x y k] by simp
  have later: "\<not> not_inited d \<Longrightarrow>
      DesyncMan_Update now t d =
        (now - start_time d \<ge> 180000 \<and> float_sub t (start_temp d) < 0.25, d)"
    by (rule DesyncMan_Update_later)
  have seq: "not_inited d \<Longrightarrow>
      DesyncMan_Updates ((base_now, base_t) # cs) d =
        (False #
           map (\<lambda>(now, t). now - base_now \<ge> 180000 \<and> t - base_t < 0.25 - 1 / 2 ^ 27) cs,
         \<lparr>start_time = base_now, start_temp = base_t, not_inited = False\<rparr>)"
    by (simp only: DesyncMan_Updates.simps DesyncMan_Update_first q [symmetric])
      (simp add: DesyncMan_Updates_later)
  have i: "not_inited DesyncMan_init" "not_inited (DesyncMan_Reset e)"
    by (simp_all add: DesyncMan_init_def DesyncMan_Reset_def)
  from i seq later q s show ?thesis
    by (simp del: of_int_numeral)
qed

text \<open>
  A detector fed dyadic temperatures: the baseline is taken at the first call, a rise of
  0.125 after 180000 ms is reported as no rise, a rise of 0.25 is not, and the baseline
  stays where the first call put it.
\<close>

theorem DesyncMan_Update_baseline_witness:
  "DesyncMan_Updates
     [(1000, 23.5), (3000, 23.5), (181000, 23.625), (183000, 23.625), (185000, 23.75)]
     DesyncMan_init =
     ([False, False, True, True, False],
      \<lparr>start_time = 1000, start_temp = 23.5, not_inited = False\<rparr>) \<and>
   DesyncMan_Update 200000 24
     \<lparr>start_time = 1000, start_temp = 23.875, not_inited = False\<rparr> =
     (True, \<lparr>start_time = 1000, start_temp = 23.875, not_inited = False\<rparr>) \<and>
   float_sub 24 23.875 < 0.25"
proof -
  note t1 = DesyncMan_Update_baseline
    [where d = DesyncMan_init and base_now = 1000 and base_t = "47 / 2"
       and cs = "[(3000, 47 / 2), (181000, 189 / 8), (183000, 189 / 8), (185000, 95 / 4)]"]
  note t2 = DesyncMan_Update_baseline
    [where d = "\<lparr>start_time = 1000, start_temp = 191 / 8, not_inited = False\<rparr>"
       and now = 200000 and t = 24 and k = 16]
  have i: "not_inited DesyncMan_init"
    by (simp add: DesyncMan_init_def)
  from t1 i have a: "DesyncMan_Updates
     [(1000, 47 / 2), (3000, 47 / 2), (181000, 189 / 8), (183000, 189 / 8), (185000, 95 / 4)]
     DesyncMan_init =
     (False # map (\<lambda>(now, t). now - 1000 \<ge> (180000 :: 32 word) \<and>
                 t - 47 / 2 < (0.25 - 1 / 2 ^ 27 :: real))
        [(3000, 47 / 2), (181000, 189 / 8), (183000, 189 / 8), (185000, 95 / 4)],
      \<lparr>start_time = 1000, start_temp = 47 / 2, not_inited = False\<rparr>)"
    by blast
  have n: "\<not> not_inited \<lparr>start_time = 1000 :: 32 word, start_temp = 191 / 8 :: real,
      not_inited = False\<rparr>"
    by simp
  have k: "(24 :: real) -
      start_temp \<lparr>start_time = 1000 :: 32 word, start_temp = 191 / 8, not_inited = False\<rparr> =
      real_of_int 16 / 128"
    by simp
  from t2 n k have b:
    "DesyncMan_Update 200000 24 \<lparr>start_time = 1000, start_temp = 191 / 8, not_inited = False\<rparr> =
       (200000 - start_time \<lparr>start_time = 1000 :: 32 word, start_temp = 191 / 8 :: real,
            not_inited = False\<rparr> \<ge> 180000 \<and>
        (24 :: real) - start_temp \<lparr>start_time = 1000 :: 32 word, start_temp = 191 / 8,
            not_inited = False\<rparr> < 0.25,
        \<lparr>start_time = 1000, start_temp = 191 / 8, not_inited = False\<rparr>)"
    "DesyncMan_Update 200000 24 \<lparr>start_time = 1000, start_temp = 191 / 8, not_inited = False\<rparr> =
       (200000 - start_time \<lparr>start_time = 1000 :: 32 word, start_temp = 191 / 8 :: real,
            not_inited = False\<rparr> \<ge> 180000 \<and>
        float_sub 24 (start_temp \<lparr>start_time = 1000 :: 32 word, start_temp = 191 / 8,
            not_inited = False\<rparr>) < 0.25,
        \<lparr>start_time = 1000, start_temp = 191 / 8, not_inited = False\<rparr>)"
    by blast+
  have b1: "DesyncMan_Update 200000 24
      \<lparr>start_time = 1000, start_temp = 191 / 8, not_inited = False\<rparr> =
      (True, \<lparr>start_time = 1000, start_temp = 191 / 8, not_inited = False\<rparr>)"
    unfolding b(1) by simp
  have b2: "float_sub 24 (191 / 8) < 0.25"
    using b(2) b1 by simp
  have a1: "DesyncMan_Updates
     [(1000, 47 / 2), (3000, 47 / 2), (181000, 189 / 8), (183000, 189 / 8), (185000, 95 / 4)]
     DesyncMan_init =
     ([False, False, True, True, False],
      \<lparr>start_time = 1000, start_temp = 47 / 2, not_inited = False\<rparr>)"
    unfolding a by simp
  from a1 b1 b2 show ?thesis
    by simp
qed

text \<open>
  The claim as first stated, with the exact difference, fails on floats: with the baseline
  \<open>1 / 2 ^ 30\<close> and the sample 0.25, 180000 ms later, the time has elapsed and the exact
  difference is below 0.25, but the float subtraction rounds it to 0.25 and \<open>Update\<close>
  returns false.
\<close>

theorem DesyncMan_rounding_counterexample:
  "DesyncMan_Update 180000 0.25 \<lparr>start_time = 0, start_temp = 1 / 2 ^ 30, not_inited = False\<rparr> =
     (False, \<lparr>start_time = 0, start_temp = 1 / 2 ^ 30, not_inited = False\<rparr>) \<and>
   (180000 :: 32 word) - 0 \<ge> 180000 \<and>
   (0.25 :: real) - 1 / 2 ^ 30 < 0.25"
  by (simp add: DesyncMan_Update_def TIME_TO_WAIT_def NEEDED_TEMP_CHANGE_def float_sub_def
      round32_def binade_unfold rne_def pow2_def Let_def)

section \<open>A disconnected sensor\<close>

text \<open>
  Claim C7, as amended. In main.cpp, when \<open>TempController::Loop\<close> samples (the latch is
  clear) and the sensor returns \<open>DEVICE_DISCONNECTED_C\<close>, the call is
  \<open>PANIC(uid_, SensorDisconnected)\<close> and nothing else: the latch is set in this very
  call with the cause, the uid of the controller, line 394 and the clock reading;
  \<open>Update\<close> is not called, so no transition is evaluated and the desync detector is not
  touched; and every change to a controller and every relay write of the call is the work
  of the registered shutdown callbacks, run once each in order. A controller that no
  registered callback switches off is exactly as it was.

  In oldsystem.cpp \<open>loop()\<close> counts the readings without a sensor. While the count
  \<open>GUndetectedCount\<close> is below 5, a disconnected reading adds one to it and does
  nothing else: no fault is raised and the output stays as it is. With the count at 5
  \<open>loop()\<close> calls \<open>StartPanic()\<close> and then \<open>Off()\<close> itself: afterwards the latch is
  set and the output flag says inactive, and if the output was active the inactive level
  has been written to the relay pin and the state is \<open>OFF\<close>. Neither branch calls
  \<open>Update\<close>.
\<close>

theorem Loop_sensor_disconnected:
  "(\<not> is_panic (panic w) \<longrightarrow>
      TempController_Loop c DEVICE_DISCONNECTED_C w =
        Panic_StartPanic SensorDisconnected (ctrl_uid (ctrls w c)) 394 w \<and>
      TempController_Loop c DEVICE_DISCONNECTED_C w =
        fold call_if_set (registered_callbacks w)
          (latch SensorDisconnected (ctrl_uid (ctrls w c)) 394 w) \<and>
      is_panic (panic (TempController_Loop c DEVICE_DISCONNECTED_C w)) \<and>
      panic_info (panic (TempController_Loop c DEVICE_DISCONNECTED_C w)) =
        \<lparr>ms = clock w, line = 394, uid = ctrl_uid (ctrls w c), reason = SensorDisconnected\<rparr> \<and>
      desync_man (ctrls (TempController_Loop c DEVICE_DISCONNECTED_C w) c) =
        desync_man (ctrls w c) \<and>
      trace (TempController_Loop c DEVICE_DISCONNECTED_C w) =
        trace w @ concat (map (callback_events w) (registered_callbacks w)) \<and>
      (Some (OffLambda c) \<notin> set (registered_callbacks w) \<longrightarrow>
         ctrls (TempController_Loop c DEVICE_DISCONNECTED_C w) c = ctrls w c)) \<and>
   (old_GUndetectedCount v < 5 \<longrightarrow>
      Old_loop_sample DEVICE_DISCONNECTED_C v =
        v\<lparr>old_GUndetectedCount := old_GUndetectedCount v + 1\<rparr>) \<and>
   (old_GUndetectedCount v \<ge> 5 \<longrightarrow>
      Old_loop_sample DEVICE_DISCONNECTED_C v = Old_Off (Old_StartPanic v) \<and>
      old_is_panic (Old_loop_sample DEVICE_DISCONNECTED_C v) \<and>
      old_heater_is_off (Old_loop_sample DEVICE_DISCONNECTED_C v) \<and>
      (\<not> old_heater_is_off v \<longrightarrow>
         old_st (Old_loop_sample DEVICE_DISCONNECTED_C v) = OFF \<and>
         DigitalWrite Old_RELAY_PIN RELAY_INACTIVE_STATE
           \<in> set (drop (length (old_trace v))
                 (old_trace (Old_loop_sample DEVICE_DISCONNECTED_C v)))))"
proof -
  have main: "\<not> is_panic (panic w) \<longrightarrow>
        TempController_Loop c DEVICE_DISCONNECTED_C w =
          Panic_StartPanic SensorDisconnected (ctrl_uid (ctrls w c)) 394 w \<and>
        TempController_Loop c DEVICE_DISCONNECTED_C w =
          fold call_if_set (registered_callbacks w)
            (latch SensorDisconnected (ctrl_uid (ctrls w c)) 394 w) \<and>
        is_panic (panic (TempController_Loop c DEVICE_DISCONNECTED_C w)) \<and>
        panic_info (panic (TempController_Loop c DEVICE_DISCONNECTED_C w)) =
          \<lparr>ms = clock w, line = 394, uid = ctrl_uid (ctrls w c), reason = SensorDisconnected\<rparr> \<and>
        desync_man (ctrls (TempController_Loop c DEVICE_DISCONNECTED_C w) c) =
          desync_man (ctrls w c) \<and>
        trace (TempController_Loop c DEVICE_DISCONNECTED_C w) =
          trace w @ concat (map (callback_events w) (registered_callbacks w)) \<and>
        (Some (OffLambda c) \<notin> set (registered_callbacks w) \<longrightarrow>
           ctrls (TempController_Loop c DEVICE_DISCONNECTED_C w) c = ctrls w c)"
  proof (intro impI)
    assume n: "\<not> is_panic (panic w)"
    let ?u = "ctrl_uid (ctrls w c)"
    let ?p = "Panic_StartPanic SensorDisconnected ?u 394 w"
    have e: "TempController_Loop c DEVICE_DISCONNECTED_C w = ?p"
      using n by (simp add: TempController_Loop_def Panic_IsPanic_def)
    have f: "?p = fold call_if_set (registered_callbacks w) (latch SensorDisconnected ?u 394 w)"
      using n by (rule StartPanic_first)
    have i: "panic_info (panic ?p) =
        \<lparr>ms = clock w, line = 394, uid = ?u, reason = SensorDisconnected\<rparr>"
      using n by (simp add: StartPanic_panic_info)
    have t: "trace ?p = trace w @ concat (map (callback_events w) (registered_callbacks w))"
      using n by (rule trace_StartPanic_first)
    have u: "Some (OffLambda c) \<notin> set (registered_callbacks w) \<longrightarrow> ctrls ?p c = ctrls w c"
      by (simp only: f) (simp add: fold_call_if_set_untouched)
    have d: "desync_man (ctrls ?p c) = desync_man (ctrls w c)"
      by simp
    have l: "is_panic (panic ?p)"
      by simp
    from f i t u d l show "TempController_Loop c DEVICE_DISCONNECTED_C w =
         Panic_StartPanic SensorDisconnected (ctrl_uid (ctrls w c)) 394 w \<and>
       TempController_Loop c DEVICE_DISCONNECTED_C w =
         fold call_if_set (registered_callbacks w)
           (latch SensorDisconnected (ctrl_uid (ctrls w c)) 394 w) \<and>
       is_panic (panic (TempController_Loop c DEVICE_DISCONNECTED_C w)) \<and>
       panic_info (panic (TempController_Loop c DEVICE_DISCONNECTED_C w)) =
         \<lparr>ms = clock w, line = 394, uid = ctrl_uid (ctrls w c), reason = SensorDisconnected\<rparr> \<and>
       desync_man (ctrls (TempController_Loop c DEVICE_DISCONNECTED_C w) c) =
         desync_man (ctrls w c) \<and>
       trace (TempController_Loop c DEVICE_DISCONNECTED_C w) =
         trace w @ concat (map (callback_events w) (registered_callbacks w)) \<and>
       (Some (OffLambda c) \<notin> set (registered_callbacks w) \<longrightarrow>
          ctrls (TempController_Loop c DEVICE_DISCONNECTED_C w) c = ctrls w c)"
      unfolding e by blast
  qed
  have few: "old_GUndetectedCount v < 5 \<longrightarrow>
      Old_loop_sample DEVICE_DISCONNECTED_C v =
        v\<lparr>old_GUndetectedCount := old_GUndetectedCount v + 1\<rparr>"
    by (simp add: Old_loop_sample_def)
  have many: "old_GUndetectedCount v \<ge> 5 \<longrightarrow>
      Old_loop_sample DEVICE_DISCONNECTED_C v = Old_Off (Old_StartPanic v) \<and>
      old_is_panic (Old_loop_sample DEVICE_DISCONNECTED_C v) \<and>
      old_heater_is_off (Old_loop_sample DEVICE_DISCONNECTED_C v) \<and>
      (\<not> old_heater_is_off v \<longrightarrow>
         old_st (Old_loop_sample DEVICE_DISCONNECTED_C v) = OFF \<and>
         DigitalWrite Old_RELAY_PIN RELAY_INACTIVE_STATE
           \<in> set (drop (length (old_trace v))
                 (old_trace (Old_loop_sample DEVICE_DISCONNECTED_C v))))"
  proof (intro impI)
    assume "old_GUndetectedCount v \<ge> 5"
    then have o: "Old_loop_sample DEVICE_DISCONNECTED_C v = Old_Off (Old_StartPanic v)"
      by (simp add: Old_loop_sample_def)
    show "Old_loop_sample DEVICE_DISCONNECTED_C v = Old_Off (Old_StartPanic v) \<and>
      old_is_panic (Old_loop_sample DEVICE_DISCONNECTED_C v) \<and>
      old_heater_is_off (Old_loop_sample DEVICE_DISCONNECTED_C v) \<and>
      (\<not> old_heater_is_off v \<longrightarrow>
         old_st (Old_loop_sample DEVICE_DISCONNECTED_C v) = OFF \<and>
         DigitalWrite Old_RELAY_PIN RELAY_INACTIVE_STATE
           \<in> set (drop (length (old_trace v))
                 (old_trace (Old_loop_sample DEVICE_DISCONNECTED_C v))))"
      unfolding o
      using Old_shutdown [of v] Old_shutdown_active [of v] by blast
  qed
  from main few many show ?thesis
    by blast
qed

text \<open>
  In main.cpp the sketch after \<open>setup()\<close> latches on the first disconnected reading and
  its two callbacks write to pins 8 and 12; with no callback registered nothing is written
  and \<open>nico\<close> is as it was. The older sketch, switched on by the sample 23, only counts
  the first disconnected reading, and shuts down at the sixth in a row.
\<close>

theorem Loop_sensor_disconnected_witness:
  "\<not> is_panic (panic (arduino_setup globals)) \<and>
   is_panic (panic (TempController_Loop nico (- 127) (arduino_setup globals))) \<and>
   panic_info (panic (TempController_Loop nico (- 127) (arduino_setup globals))) =
     \<lparr>ms = 0, line = 394, uid = 1, reason = SensorDisconnected\<rparr> \<and>
   trace (TempController_Loop nico (- 127) (arduino_setup globals)) =
     trace (arduino_setup globals) @ [DigitalWrite 8 LOW, DigitalWrite 12 LOW] \<and>
   \<not> is_panic (panic globals) \<and>
   ctrls (TempController_Loop nico (- 127) globals) nico = ctrls globals nico \<and>
   trace (TempController_Loop nico (- 127) globals) = [] \<and>
   Old_loop_sample (- 127) (Old_Update 23 (Old_setup Old_globals)) =
     (Old_Update 23 (Old_setup Old_globals))\<lparr>old_GUndetectedCount := 1\<rparr> \<and>
   old_is_panic
     (Old_loop_sample (- 127)
       ((Old_loop_sample (- 127) ^^ 5) (Old_Update 23 (Old_setup Old_globals)))) \<and>
   old_heater_is_off
     (Old_loop_sample (- 127)
       ((Old_loop_sample (- 127) ^^ 5) (Old_Update 23 (Old_setup Old_globals)))) \<and>
   old_st
     (Old_loop_sample (- 127)
       ((Old_loop_sample (- 127) ^^ 5) (Old_Update 23 (Old_setup Old_globals)))) = OFF \<and>
   DigitalWrite 8 LOW \<in> set (drop 4 (old_trace
     (Old_loop_sample (- 127)
       ((Old_loop_sample (- 127) ^^ 5) (Old_Update 23 (Old_setup Old_globals))))))"
proof -
  let ?v = "Old_Update 23 (Old_setup Old_globals)"
  let ?v5 = "?v\<lparr>old_GUndetectedCount := 5\<rparr>"
  note first = Loop_sensor_disconnected [where v = ?v]
  note sixth = Loop_sensor_disconnected [where v = ?v5]
  have o: "old_GUndetectedCount ?v < 5" "old_GUndetectedCount ?v5 \<ge> 5"
    "\<not> old_heater_is_off ?v5"
    by (simp_all add: Old_heating)
  from first o(1) have o1: "Old_loop_sample DEVICE_DISCONNECTED_C ?v =
      ?v\<lparr>old_GUndetectedCount := old_GUndetectedCount ?v + 1\<rparr>"
    by blast
  from sixth o(2,3) have o2:
    "old_is_panic (Old_loop_sample DEVICE_DISCONNECTED_C ?v5)"
    "old_heater_is_off (Old_loop_sample DEVICE_DISCONNECTED_C ?v5)"
    "old_st (Old_loop_sample DEVICE_DISCONNECTED_C ?v5) = OFF"
    "DigitalWrite Old_RELAY_PIN RELAY_INACTIVE_STATE
       \<in> set (drop (length (old_trace ?v5)) (old_trace (Old_loop_sample DEVICE_DISCONNECTED_C ?v5)))"
    by blast+
  have o3: "Old_loop_sample (- 127) ?v = ?v\<lparr>old_GUndetectedCount := 1\<rparr>"
    using o1 by (simp add: DEVICE_DISCONNECTED_C_def Old_heating)
  have o4: "DigitalWrite 8 LOW \<in> set (drop 4 (old_trace (Old_loop_sample (- 127) ?v5)))"
    using o2(4)
    by (simp add: DEVICE_DISCONNECTED_C_def Old_heating Old_RELAY_PIN_def
        RELAY_INACTIVE_STATE_def eval_nat_numeral)
  have o5: "old_is_panic (Old_loop_sample (- 127) ?v5)"
    "old_heater_is_off (Old_loop_sample (- 127) ?v5)"
    "old_st (Old_loop_sample (- 127) ?v5) = OFF"
    using o2(1,2,3) by (simp_all add: DEVICE_DISCONNECTED_C_def)
  have old: "Old_loop_sample (- 127) ?v = ?v\<lparr>old_GUndetectedCount := 1\<rparr> \<and>
     old_is_panic (Old_loop_sample (- 127) ((Old_loop_sample (- 127) ^^ 5) ?v)) \<and>
     old_heater_is_off (Old_loop_sample (- 127) ((Old_loop_sample (- 127) ^^ 5) ?v)) \<and>
     old_st (Old_loop_sample (- 127) ((Old_loop_sample (- 127) ^^ 5) ?v)) = OFF \<and>
     DigitalWrite 8 LOW \<in> set (drop 4 (old_trace
       (Old_loop_sample (- 127) ((Old_loop_sample (- 127) ^^ 5) ?v))))"
    unfolding Old_five_misses using o3 o4 o5 by blast
  note booted = Loop_sensor_disconnected [of "arduino_setup globals" nico]
  note bare = Loop_sensor_disconnected [of globals nico]
  have n: "\<not> is_panic (panic (arduino_setup globals))" "\<not> is_panic (panic globals)"
    by (simp add: booted_panic) (simp add: globals_def)
  have r: "registered_callbacks globals = []"
    by (simp add: registered_callbacks_def globals_def)
  from booted n(1) have b:
    "is_panic (panic (TempController_Loop nico DEVICE_DISCONNECTED_C (arduino_setup globals)))"
    "panic_info (panic (TempController_Loop nico DEVICE_DISCONNECTED_C (arduino_setup globals))) =
       \<lparr>ms = clock (arduino_setup globals), line = 394,
        uid = ctrl_uid (ctrls (arduino_setup globals) nico), reason = SensorDisconnected\<rparr>"
    "trace (TempController_Loop nico DEVICE_DISCONNECTED_C (arduino_setup globals)) =
       trace (arduino_setup globals) @
       concat (map (callback_events (arduino_setup globals))
         (registered_callbacks (arduino_setup globals)))"
    by blast+
  from bare n(2) have g:
    "trace (TempController_Loop nico DEVICE_DISCONNECTED_C globals) =
       trace globals @ concat (map (callback_events globals) (registered_callbacks globals))"
    "Some (OffLambda nico) \<notin> set (registered_callbacks globals) \<longrightarrow>
       ctrls (TempController_Loop nico DEVICE_DISCONNECTED_C globals) nico = ctrls globals nico"
    by blast+
  have t: "trace globals = []" by (simp add: globals_def)
  from n b g r t have new: "\<not> is_panic (panic (arduino_setup globals)) \<and>
   is_panic (panic (TempController_Loop nico (- 127) (arduino_setup globals))) \<and>
   panic_info (panic (TempController_Loop nico (- 127) (arduino_setup globals))) =
     \<lparr>ms = 0, line = 394, uid = 1, reason = SensorDisconnected\<rparr> \<and>
   trace (TempController_Loop nico (- 127) (arduino_setup globals)) =
     trace (arduino_setup globals) @ [DigitalWrite 8 LOW, DigitalWrite 12 LOW] \<and>
   \<not> is_panic (panic globals) \<and>
   ctrls (TempController_Loop nico (- 127) globals) nico = ctrls globals nico \<and>
   trace (TempController_Loop nico (- 127) globals) = []"
    by (simp add: DEVICE_DISCONNECTED_C_def booted_fields booted_registered
        callback_events_def RELAY_INACTIVE_STATE_def)
  from new old show ?thesis
    by blast
qed

text \<open>
  The claim as first stated fails on oldsystem.cpp: with the heater on, the first
  disconnected reading raises no fault on that tick, and the output stays active.
\<close>

theorem legacy_first_miss_counterexample:
  "old_st (Old_Update 23 (Old_setup Old_globals)) = HEATING \<and>
   \<not> old_heater_is_off (Old_Update 23 (Old_setup Old_globals)) \<and>
   \<not> old_is_panic (Old_loop_sample DEVICE_DISCONNECTED_C (Old_Update 23 (Old_setup Old_globals))) \<and>
   \<not> old_heater_is_off
       (Old_loop_sample DEVICE_DISCONNECTED_C (Old_Update 23 (Old_setup Old_globals))) \<and>
   old_trace (Old_loop_sample DEVICE_DISCONNECTED_C (Old_Update 23 (Old_setup Old_globals))) =
     old_trace (Old_Update 23 (Old_setup Old_globals))"
  by (simp add: Old_loop_sample_def Old_heating)

section \<open>The pattern of the indicator\<close>

text \<open>
  Claim C8. On every \<open>LEDMan::Update\<close>, \<open>UpdateState\<close> computes the pattern first:
  0 if the latch is set, else 1 if at least one registered controller reports
  \<open>IsHeating()\<close>, else 2; the half-periods of the patterns 0, 1 and 2 are 50, 1000 and
  10000 ms. If the computed pattern differs from \<open>currentStateIndex_\<close>, the pattern is
  stored, the phase is set to on and the toggle timer to the clock reading (so the
  \<open>Update\<close> of that tick drives the indicator high and does not toggle); if it is the
  same, \<open>UpdateState\<close> changes nothing.
\<close>

theorem UpdateState_pattern:
  "LEDMan_HalfPeriodForState 0 = 50 \<and> LEDMan_HalfPeriodForState 1 = 1000 \<and>
   LEDMan_HalfPeriodForState 2 = 10000 \<and>
   (registry_ok w \<longrightarrow>
      LEDMan_new_state w =
        Some (if is_panic (panic w) then 0
              else if \<exists>j < num_controllers (ledman w).
                        TempController_IsHeating (ctrls w (the (controllers (ledman w) j)))
                   then 1 else 2)) \<and>
   (LEDMan_new_state w = Some n \<and> n \<noteq> currentStateIndex (ledman w) \<longrightarrow>
      LEDMan_UpdateState w =
        Some (w\<lparr>ledman := (ledman w)
                \<lparr>currentStateIndex := n, ledOn := True, lastToggleMs := clock w\<rparr>\<rparr>) \<and>
      LEDMan_Update w =
        Some (w\<lparr>ledman := (ledman w)
                \<lparr>currentStateIndex := n, ledOn := True, lastToggleMs := clock w\<rparr>,
              trace := trace w @ [DigitalWrite LED_BUILTIN HIGH]\<rparr>)) \<and>
   (LEDMan_new_state w = Some n \<and> n = currentStateIndex (ledman w) \<longrightarrow>
      LEDMan_UpdateState w = Some w)"
  by (simp add: new_state_Some UpdateState_changed UpdateState_same Update_LED_changed
      LEDMan_HalfPeriodForState_def)

theorem UpdateState_pattern_witness:
  "LEDMan_new_state (advance 700 (arduino_setup globals)) = Some 2 \<and>
   currentStateIndex (ledman (arduino_setup globals)) = 0 \<and>
   map_option (\<lambda>w. (currentStateIndex (ledman w), ledOn (ledman w), lastToggleMs (ledman w)))
     (LEDMan_UpdateState (advance 700 (arduino_setup globals))) = Some (2, True, 700) \<and>
   map_option (\<lambda>w. (ledOn (ledman w), trace w))
     (LEDMan_Update (advance 700 (arduino_setup globals))) =
     Some (True, trace (arduino_setup globals) @ [DigitalWrite 13 HIGH]) \<and>
   LEDMan_new_state (TempController_Update nico 23 (arduino_setup globals)) = Some 1 \<and>
   LEDMan_new_state (Panic_StartPanic Other 0 0 (arduino_setup globals)) = Some 0 \<and>
   LEDMan_UpdateState (Panic_StartPanic Other 0 0 (arduino_setup globals)) =
     Some (Panic_StartPanic Other 0 0 (arduino_setup globals))"
proof -
  let ?w = "arduino_setup globals"
  let ?a = "advance 700 ?w"
  let ?h = "TempController_Update nico 23 ?w"
  let ?p = "Panic_StartPanic Other 0 0 ?w"
  have ra: "registry_ok ?a" and rh: "registry_ok ?h"
    by (simp_all add: booted_registry)
  from UpdateState_pattern [of ?a 2] ra
  have "LEDMan_new_state ?a =
        Some (if is_panic (panic ?a) then 0
              else if \<exists>j < num_controllers (ledman ?a).
                        TempController_IsHeating (ctrls ?a (the (controllers (ledman ?a) j)))
                   then 1 else 2)"
    by blast
  then have na: "LEDMan_new_state ?a = Some 2"
    by (simp add: booted_fields booted_panic ex_less_2 TempController_IsHeating_def)
  have ca: "currentStateIndex (ledman ?a) = 0"
    by (simp add: booted_fields)
  from UpdateState_pattern [of ?a 2] na ca
  have ua: "LEDMan_UpdateState ?a =
        Some (?a\<lparr>ledman := (ledman ?a)
                \<lparr>currentStateIndex := 2, ledOn := True, lastToggleMs := clock ?a\<rparr>\<rparr>)"
    and la: "LEDMan_Update ?a =
        Some (?a\<lparr>ledman := (ledman ?a)
                \<lparr>currentStateIndex := 2, ledOn := True, lastToggleMs := clock ?a\<rparr>,
              trace := trace ?a @ [DigitalWrite LED_BUILTIN HIGH]\<rparr>)"
    by simp_all
  from UpdateState_pattern [of ?h 1] rh
  have "LEDMan_new_state ?h =
        Some (if is_panic (panic ?h) then 0
              else if \<exists>j < num_controllers (ledman ?h).
                        TempController_IsHeating (ctrls ?h (the (controllers (ledman ?h) j)))
                   then 1 else 2)"
    by blast
  then have nh: "LEDMan_new_state ?h = Some 1"
    by (simp add: booted_fields heating_nico ex_less_2 TempController_IsHeating_def)
  have np: "LEDMan_new_state ?p = Some 0"
    by (simp add: new_state_latched)
  have cp: "currentStateIndex (ledman ?p) = 0"
    by (simp add: booted_fields)
  from UpdateState_pattern [of ?p 0] np cp
  have up: "LEDMan_UpdateState ?p = Some ?p"
    by simp
  from na ua la nh np up show ?thesis
    by (simp add: booted_fields LED_BUILTIN_def)
qed

section \<open>Switching the output\<close>

text \<open>
  Claim C9, as amended. \<open>On\<close> is idempotent: called with the output active it is a
  no-op, with no write to the relay. \<open>Off\<close> of main.cpp, whose guard is commented
  out, is idempotent on the state of the controller only: called with the output
  inactive it leaves the output flag inactive, sets the state to \<open>OFF\<close> if the latch is
  set (and changes no controller if it is clear), and writes the inactive level to the
  relay pin once more; a second \<open>Off\<close> changes no controller and repeats the write. So
  a redundant \<open>Off\<close> from a shutdown callback repeats the relay write. \<open>Off\<close> of
  oldsystem.cpp, which has the guard, is a no-op when the output is inactive, as its
  \<open>On\<close> is when the output is active.
\<close>

theorem On_idempotent_Off_rewrites:
  "(\<not> heater_is_off (ctrls w c) \<longrightarrow> TempController_On c w = w) \<and>
   TempController_On c (TempController_On c w) = TempController_On c w \<and>
   (heater_is_off (ctrls w c) \<longrightarrow>
      trace (TempController_Off c w) =
        trace w @ [DigitalWrite (relay_pin (ctrls w c)) RELAY_INACTIVE_STATE] \<and>
      heater_is_off (ctrls (TempController_Off c w) c) \<and>
      st (ctrls (TempController_Off c w) c) =
        (if is_panic (panic w) then OFF else st (ctrls w c)) \<and>
      (\<not> is_panic (panic w) \<longrightarrow> ctrls (TempController_Off c w) = ctrls w)) \<and>
   ctrls (TempController_Off c (TempController_Off c w)) = ctrls (TempController_Off c w) \<and>
   trace (TempController_Off c (TempController_Off c w)) =
     trace (TempController_Off c w) @
       [DigitalWrite (relay_pin (ctrls w c)) RELAY_INACTIVE_STATE] \<and>
   (old_heater_is_off v \<longrightarrow> Old_Off v = v) \<and>
   (\<not> old_heater_is_off v \<longrightarrow> Old_On v = v)"
proof (intro conjI impI)
  show "TempController_On c w = w" if "\<not> heater_is_off (ctrls w c)"
    using that by (simp add: TempController_On_def)
  show "TempController_On c (TempController_On c w) = TempController_On c w"
    by (simp add: TempController_On_def digitalWrite_def Let_def)
  show "trace (TempController_Off c w) =
        trace w @ [DigitalWrite (relay_pin (ctrls w c)) RELAY_INACTIVE_STATE]"
    by simp
  show "heater_is_off (ctrls (TempController_Off c w) c)"
    by (simp add: Off_ctrls)
  show "st (ctrls (TempController_Off c w) c) =
        (if is_panic (panic w) then OFF else st (ctrls w c))"
    by (simp add: Off_ctrls)
  show "ctrls (TempController_Off c w) = ctrls w"
    if "heater_is_off (ctrls w c)" and "\<not> is_panic (panic w)"
  proof -
    have "(ctrls w c)\<lparr>heater_is_off := True\<rparr> = ctrls w c"
      using that(1) by simp
    with that(2) show ?thesis
      by (simp add: Off_ctrls)
  qed
  show "ctrls (TempController_Off c (TempController_Off c w)) = ctrls (TempController_Off c w)"
    by (simp add: Off_ctrls)
  show "trace (TempController_Off c (TempController_Off c w)) =
     trace (TempController_Off c w) @
       [DigitalWrite (relay_pin (ctrls w c)) RELAY_INACTIVE_STATE]"
    by (simp add: Off_ctrls)
  show "Old_Off v = v" if "old_heater_is_off v"
    using that by (rule Old_Off_inactive)
  show "Old_On v = v" if "\<not> old_heater_is_off v"
    using that by (rule Old_On_active)
qed

text \<open>
  The amended statement at \<open>nico\<close>, heating and idle, with the latch clear and set, and
  at the older sketch after its setup.
\<close>

theorem On_idempotent_Off_rewrites_witness:
  "TempController_On nico (TempController_Update nico 23 (arduino_setup globals)) =
     TempController_Update nico 23 (arduino_setup globals) \<and>
   trace (TempController_Off nico (arduino_setup globals)) =
     trace (arduino_setup globals) @ [DigitalWrite 8 LOW] \<and>
   ctrls (TempController_Off nico (arduino_setup globals)) nico =
     ctrls (arduino_setup globals) nico \<and>
   st (ctrls (TempController_Off nico (latch Other 0 0 (arduino_setup globals))) nico) = OFF \<and>
   Old_Off (Old_setup Old_globals) = Old_setup Old_globals \<and>
   Old_On (Old_On (Old_setup Old_globals)) = Old_On (Old_setup Old_globals)"
proof -
  let ?w = "arduino_setup globals"
  let ?h = "TempController_Update nico 23 ?w"
  let ?l = "latch Other 0 0 ?w"
  have a: "\<not> heater_is_off (ctrls ?h nico)"
    by (simp add: heating_nico)
  from On_idempotent_Off_rewrites [of ?h nico] a
  have r1: "TempController_On nico ?h = ?h"
    by blast
  have b: "heater_is_off (ctrls ?w nico)" "heater_is_off (ctrls ?l nico)"
    by (simp_all add: booted_fields)
  have n: "\<not> is_panic (panic ?w)"
    by (simp add: booted_panic)
  from On_idempotent_Off_rewrites [of ?w nico] b(1) n
  have r2: "trace (TempController_Off nico ?w) =
        trace ?w @ [DigitalWrite (relay_pin (ctrls ?w nico)) RELAY_INACTIVE_STATE]"
    "ctrls (TempController_Off nico ?w) = ctrls ?w"
    by blast+
  from On_idempotent_Off_rewrites [of ?l nico] b(2)
  have r3: "st (ctrls (TempController_Off nico ?l) nico) =
        (if is_panic (panic ?l) then OFF else st (ctrls ?l nico))"
    by blast
  have c: "old_heater_is_off (Old_setup Old_globals)"
    "\<not> old_heater_is_off (Old_On (Old_setup Old_globals))"
    by (simp_all add: Old_booted Old_On_def Old_digitalWrite_def)
  from On_idempotent_Off_rewrites [of _ _ "Old_setup Old_globals"] c(1)
  have r4: "Old_Off (Old_setup Old_globals) = Old_setup Old_globals"
    by blast
  from On_idempotent_Off_rewrites [of _ _ "Old_On (Old_setup Old_globals)"] c(2)
  have r5: "Old_On (Old_On (Old_setup Old_globals)) = Old_On (Old_setup Old_globals)"
    by blast
  have t: "trace (TempController_Off nico ?w) = trace ?w @ [DigitalWrite 8 LOW]"
    "ctrls (TempController_Off nico ?w) nico = ctrls ?w nico"
    using r2 by (simp_all add: booted_fields RELAY_INACTIVE_STATE_def)
  have s: "st (ctrls (TempController_Off nico ?l) nico) = OFF"
    using r3 by simp
  from r1 t s r4 r5 show ?thesis by blast
qed

text \<open>
  The claim as first stated fails on main.cpp: \<open>nico\<close> is idle after \<open>setup()\<close>, yet
  \<open>Off\<close> changes the state of the sketch, by one more write to pin 8; and in the state
  in which \<open>StartPanic\<close> runs its first callback (latch set, \<open>nico\<close> idle in
  \<open>COOLING\<close>) \<open>Off\<close> moves \<open>nico\<close> to \<open>OFF\<close>.
\<close>

theorem Off_when_inactive_counterexample:
  "heater_is_off (ctrls (arduino_setup globals) nico) \<and>
   TempController_Off nico (arduino_setup globals) \<noteq> arduino_setup globals \<and>
   trace (TempController_Off nico (arduino_setup globals)) =
     trace (arduino_setup globals) @ [DigitalWrite 8 LOW] \<and>
   heater_is_off (ctrls (latch Other 0 0 (arduino_setup globals)) nico) \<and>
   st (ctrls (latch Other 0 0 (arduino_setup globals)) nico) = COOLING \<and>
   st (ctrls (TempController_Off nico (latch Other 0 0 (arduino_setup globals))) nico) = OFF"
proof -
  have "trace (TempController_Off nico (arduino_setup globals)) \<noteq> trace (arduino_setup globals)"
    by simp
  then have "TempController_Off nico (arduino_setup globals) \<noteq> arduino_setup globals"
    by metis
  then show ?thesis
    by (simp add: booted_fields Off_ctrls RELAY_INACTIVE_STATE_def)
qed

section \<open>The registry of the indicator\<close>

text \<open>
  Claim C10. \<open>LEDMan::Register(tc)\<close> with a null \<open>tc\<close>, or with 4 controllers
  already registered, is \<open>PANIC(0, LEDRegisterFail)\<close> and nothing else: the latch is
  set (and the cause recorded if this is the first fault) and the registry is as before.
  With a controller and fewer than 4 registered, it stores \<open>tc\<close> in the slot at the
  count and adds one to the count, and touches nothing else. So from the initial globals,
  or from any well-formed registry, no sequence of \<open>Register\<close> calls and no sequence of
  calls of the sketch leads to a count above 4 or to a null entry below the count.
\<close>

theorem Register_guarded:
  "(tc = None \<or> num_controllers (ledman w) \<ge> 4 \<longrightarrow>
      LEDMan_Register tc w = Panic_StartPanic LEDRegisterFail 0 209 w \<and>
      is_panic (panic (LEDMan_Register tc w)) \<and>
      ledman (LEDMan_Register tc w) = ledman w \<and>
      (\<not> is_panic (panic w) \<longrightarrow>
         reason (panic_info (panic (LEDMan_Register tc w))) = LEDRegisterFail)) \<and>
   (tc \<noteq> None \<and> num_controllers (ledman w) < 4 \<longrightarrow>
      LEDMan_Register tc w =
        w\<lparr>ledman := (ledman w)
            \<lparr>controllers := (controllers (ledman w))(num_controllers (ledman w) := tc),
             num_controllers := num_controllers (ledman w) + 1\<rparr>\<rparr>) \<and>
   registry_ok globals \<and>
   (registry_ok w \<longrightarrow> registry_ok (fold LEDMan_Register tcs w)) \<and>
   (registry_ok w \<longrightarrow>
      (\<exists>w'. execs cs w = Some w' \<and> registry_ok w'))"
proof (intro conjI impI)
  assume c: "tc = None \<or> num_controllers (ledman w) \<ge> 4"
  then show e: "LEDMan_Register tc w = Panic_StartPanic LEDRegisterFail 0 209 w"
    by (simp add: LEDMan_Register_def MAX_CONTROLLERS_def)
  show "is_panic (panic (LEDMan_Register tc w))" by (simp add: e)
  show "ledman (LEDMan_Register tc w) = ledman w" by (simp add: e)
  show "reason (panic_info (panic (LEDMan_Register tc w))) = LEDRegisterFail"
    if "\<not> is_panic (panic w)"
    using that by (simp add: e StartPanic_panic_info)
next
  assume "tc \<noteq> None \<and> num_controllers (ledman w) < 4"
  then show "LEDMan_Register tc w =
        w\<lparr>ledman := (ledman w)
            \<lparr>controllers := (controllers (ledman w))(num_controllers (ledman w) := tc),
             num_controllers := num_controllers (ledman w) + 1\<rparr>\<rparr>"
    by (auto simp: LEDMan_Register_def MAX_CONTROLLERS_def)
next
  show "registry_ok globals"
    by (simp add: registry_ok_def globals_def)
next
  assume "registry_ok w"
  then show "registry_ok (fold LEDMan_Register tcs w)"
    by (induction tcs arbitrary: w) (simp_all add: Register_registry)
next
  assume "registry_ok w"
  then have "registry_ok w \<or> is_panic (panic w)" ..
  from execs_invariants [OF this, of cs] \<open>registry_ok w\<close>
  show "\<exists>w'. execs cs w = Some w' \<and> registry_ok w'" by blast
qed

theorem Register_guarded_witness:
  "LEDMan_Register None globals = Panic_StartPanic LEDRegisterFail 0 209 globals \<and>
   is_panic (panic (LEDMan_Register None globals)) \<and>
   num_controllers (ledman (LEDMan_Register None globals)) = 0 \<and>
   reason (panic_info (panic (LEDMan_Register None globals))) = LEDRegisterFail \<and>
   num_controllers (ledman (LEDMan_Register (Some trap) globals)) = 1 \<and>
   controllers (ledman (LEDMan_Register (Some trap) globals)) 0 = Some trap \<and>
   registry_ok
     (fold LEDMan_Register [Some nico, Some trap, None, Some nico, Some nico, Some trap] globals) \<and>
   num_controllers (ledman
     (fold LEDMan_Register [Some nico, Some trap, None, Some nico, Some nico, Some trap] globals)) = 4"
proof -
  note fail = Register_guarded [of None globals "[]" "[]"]
  note ok = Register_guarded [of "Some trap" globals
      "[Some nico, Some trap, None, Some nico, Some nico, Some trap]" "[]"]
  have g: "num_controllers (ledman globals) = 0" "\<not> is_panic (panic globals)"
    by (simp_all add: globals_def)
  from fail g have f: "LEDMan_Register None globals = Panic_StartPanic LEDRegisterFail 0 209 globals"
    "is_panic (panic (LEDMan_Register None globals))"
    "ledman (LEDMan_Register None globals) = ledman globals"
    "reason (panic_info (panic (LEDMan_Register None globals))) = LEDRegisterFail"
    by blast+
  from ok g have o: "LEDMan_Register (Some trap) globals =
        globals\<lparr>ledman := (ledman globals)
            \<lparr>controllers := (controllers (ledman globals))(num_controllers (ledman globals) := Some trap),
             num_controllers := num_controllers (ledman globals) + 1\<rparr>\<rparr>"
    by simp
  from ok have r: "registry_ok
     (fold LEDMan_Register [Some nico, Some trap, None, Some nico, Some nico, Some trap] globals)"
    by blast
  have n: "num_controllers (ledman
     (fold LEDMan_Register [Some nico, Some trap, None, Some nico, Some nico, Some trap] globals)) = 4"
    by (simp add: LEDMan_Register_def globals_def MAX_CONTROLLERS_def)
  from f o r n g show ?thesis by simp
qed

end
